(* ===== verification/Prelude.thy ===== *)
theory Prelude
  imports Complex_Main "HOL-Library.AList" "HOL-Library.Signed_Division"
    "HOL-Library.Word" "HOL-Library.Multiset" "HOL-Library.Sublist"
begin

text \<open>
  Shared ground of the development: what the Go source uses of its language and standard
  library outside time, that is strings (the \<open>strings\<close>, \<open>strconv\<close> and \<open>fmt\<close> calls), maps,
  slices cut into batches, and 64-bit integers.

  \<^item> A Go string is a list of bytes, \<^typ>\<open>string\<close>. \<open>strings.ToUpper\<close> and \<open>ToLower\<close> are
    modelled on ASCII; the symbols, intervals and protocol names of the program are ASCII.
  \<^item> A Go \<open>map\<close> or \<open>sync.Map\<close> is an association list with distinct keys. Go leaves the order
    in which a map is ranged over open; the list's order is that order, so a statement about
    every list with given contents is a statement about every iteration order.
  \<^item> An \<open>int64\<close> or \<open>time.Duration\<close> whose overflow matters is a \<open>64 word\<close> read by
    \<^const>\<open>sint\<close>; elsewhere it is an \<^typ>\<open>int\<close>. Go's \<open>/\<close> truncates: \<^const>\<open>signed_divide\<close>.
\<close>

named_theorems go_simps \<open>equations that evaluate the modelled library calls\<close>
named_theorems map_simps \<open>facts about association lists used as Go maps\<close>

section \<open>Strings\<close>

definition to_upper_char :: "char \<Rightarrow> char" where
  "to_upper_char c = (let n = of_char c :: nat in if 97 \<le> n \<and> n \<le> 122 then char_of (n - 32) else c)"

definition to_lower_char :: "char \<Rightarrow> char" where
  "to_lower_char c = (let n = of_char c :: nat in if 65 \<le> n \<and> n \<le> 90 then char_of (n + 32) else c)"

definition to_upper :: "string \<Rightarrow> string" where
  "to_upper s = map to_upper_char s"

definition to_lower :: "string \<Rightarrow> string" where
  "to_lower s = map to_lower_char s"

definition has_prefix :: "string \<Rightarrow> string \<Rightarrow> bool" where
  "has_prefix s p = (take (length p) s = p)"

definition trim_prefix :: "string \<Rightarrow> string \<Rightarrow> string" where
  "trim_prefix s p = (if has_prefix s p then drop (length p) s else s)"

text \<open>The first occurrence of a separator: what stands before it and what stands after it.\<close>

primrec cut_at :: "string \<Rightarrow> string \<Rightarrow> (string \<times> string) option" where
  "cut_at sep [] = (if sep = [] then Some ([], []) else None)"
| "cut_at sep (c # cs) =
     (if has_prefix (c # cs) sep then Some ([], drop (length sep) (c # cs))
      else map_option (\<lambda>(a, b). (c # a, b)) (cut_at sep cs))"

definition contains :: "string \<Rightarrow> string \<Rightarrow> bool" where
  "contains s sub = (cut_at sub s \<noteq> None)"

lemma cut_at_length: "cut_at sep s = Some (a, b) \<Longrightarrow> length b + length sep + length a = length s"
proof (induction s arbitrary: a)
  case Nil
  then show ?case by (auto split: if_splits)
next
  case (Cons c cs)
  show ?case
  proof (cases "has_prefix (c # cs) sep")
    case True
    then have "length sep \<le> length (c # cs)"
      unfolding has_prefix_def by (metis length_take min.cobounded1)
    with Cons.prems True show ?thesis by auto
  next
    case False
    with Cons.prems show ?thesis by (auto dest: Cons.IH)
  qed
qed

text \<open>\<open>strings.Split\<close> for a separator that is not empty (every call of the program).\<close>

function split :: "string \<Rightarrow> string \<Rightarrow> string list" where
  "split s sep =
     (case cut_at sep s of
        None \<Rightarrow> [s]
      | Some (a, b) \<Rightarrow> if sep = [] then [s] else a # split b sep)"
  by pat_completeness auto
termination
  by (relation "measure (\<lambda>(s, sep). length s)") (auto dest!: cut_at_length simp: neq_Nil_conv)

declare split.simps [simp del]

text \<open>\<open>strings.SplitN(s, sep, 2)\<close>.\<close>

definition split2 :: "string \<Rightarrow> string \<Rightarrow> string list" where
  "split2 s sep = (case cut_at sep s of None \<Rightarrow> [s] | Some (a, b) \<Rightarrow> [a, b])"

primrec join :: "string \<Rightarrow> string list \<Rightarrow> string" where
  "join sep [] = []"
| "join sep (x # xs) = (if xs = [] then x else x @ sep @ join sep xs)"

text \<open>\<open>strings.ReplaceAll(s, old, new)\<close> for \<open>old\<close> not empty.\<close>

definition replace_all :: "string \<Rightarrow> string \<Rightarrow> string \<Rightarrow> string" where
  "replace_all s old new = join new (split s old)"

definition is_space :: "char \<Rightarrow> bool" where
  "is_space c = ((of_char c :: nat) \<in> {9, 10, 11, 12, 13, 32})"

definition trim_space :: "string \<Rightarrow> string" where
  "trim_space s = rev (dropWhile is_space (rev (dropWhile is_space s)))"

lemma split_nonempty [simp]: "split s sep \<noteq> []"
  by (subst split.simps) (auto split: option.splits)

lemma contains_Cons: "contains (c # s) sub \<longleftrightarrow> has_prefix (c # s) sub \<or> contains s sub"
  by (auto simp: contains_def)

lemma split_no_sep: "\<not> contains s sep \<Longrightarrow> split s sep = [s]"
  by (subst split.simps) (cases "cut_at sep s", auto simp: contains_def)

lemma contains_Nil: "sep \<noteq> [] \<Longrightarrow> \<not> contains [] sep"
  by (simp add: contains_def)

lemma contains_single: "contains s [c] \<longleftrightarrow> c \<in> set s"
proof (induction s)
  case Nil
  then show ?case by (simp add: contains_def)
next
  case (Cons a s)
  then show ?case by (auto simp: contains_Cons has_prefix_def)
qed

lemma cut_at_single: "c \<notin> set a \<Longrightarrow> cut_at [c] (a @ c # b) = Some (a, b)"
  by (induction a) (auto simp: has_prefix_def)

lemma split_single: "c \<notin> set a \<Longrightarrow> split (a @ c # b) [c] = a # split b [c]"
  by (subst split.simps) (simp add: cut_at_single)

text \<open>Splitting at a character undoes joining with it.\<close>

lemma split_join: "xs \<noteq> [] \<Longrightarrow> \<forall>x\<in>set xs. c \<notin> set x \<Longrightarrow> split (join [c] xs) [c] = xs"
proof (induction xs)
  case (Cons x xs)
  then show ?case
    by (cases "xs = []") (simp_all add: split_single split_no_sep contains_single)
qed simp

lemma contains_subset: "contains s p \<Longrightarrow> set p \<subseteq> set s"
proof (induction s)
  case (Cons a s)
  have "has_prefix (a # s) p \<Longrightarrow> set p \<subseteq> set (a # s)"
    unfolding has_prefix_def by (metis set_take_subset)
  with Cons show ?case by (auto simp: contains_Cons)
qed (simp add: contains_def split: if_splits)

lemma trim_space_id: "\<forall>c\<in>set s. \<not> is_space c \<Longrightarrow> trim_space s = s"
  unfolding trim_space_def
  by (metis dropWhile_eq_self_iff hd_in_set rev_rev_ident set_rev)

section \<open>Decimal digits\<close>

definition digit_char :: "nat \<Rightarrow> char" where
  "digit_char d = char_of (48 + d)"

fun show_nat :: "nat \<Rightarrow> string" where
  "show_nat n = (if n < 10 then [digit_char n] else show_nat (n div 10) @ [digit_char (n mod 10)])"

declare show_nat.simps [simp del]

text \<open>\<open>fmt.Sprintf("%d", n)\<close>.\<close>

definition show_int :: "int \<Rightarrow> string" where
  "show_int n = (if n < 0 then CHR ''-'' # show_nat (nat (- n)) else show_nat (nat n))"

text \<open>\<open>%04d\<close> and \<open>%02d\<close>: zero padding to a width, the sign counting towards it.\<close>

definition show_pad :: "nat \<Rightarrow> int \<Rightarrow> string" where
  "show_pad w n =
     (if n < 0 then CHR ''-'' # (let s = show_nat (nat (- n)) in replicate (w - 1 - length s) (CHR ''0'') @ s)
      else (let s = show_nat (nat n) in replicate (w - length s) (CHR ''0'') @ s))"

definition is_digit :: "char \<Rightarrow> bool" where
  "is_digit c = (let n = of_char c :: nat in 48 \<le> n \<and> n \<le> 57)"

definition digit_val :: "char \<Rightarrow> nat" where
  "digit_val c = of_char c - 48"

definition read_nat :: "string \<Rightarrow> nat" where
  "read_nat s = foldl (\<lambda>a c. 10 * a + digit_val c) 0 s"

definition all_digits :: "string \<Rightarrow> bool" where
  "all_digits s = (s \<noteq> [] \<and> list_all is_digit s)"

text \<open>
  The value \<open>strconv.ParseInt(s, 10, bits)\<close> returns, its error apart: \<open>None\<close> is a syntax
  error (Go returns 0 beside it), a value out of range is clamped.
\<close>

definition clamp_bits :: "nat \<Rightarrow> int \<Rightarrow> int" where
  "clamp_bits bits n = max (- (2 ^ (bits - 1))) (min (2 ^ (bits - 1) - 1) n)"

definition parse_syntax :: "string \<Rightarrow> int option" where
  "parse_syntax s =
     (case s of
        [] \<Rightarrow> None
      | c # cs \<Rightarrow>
          if c = CHR ''-'' then (if all_digits cs then Some (- int (read_nat cs)) else None)
          else if c = CHR ''+'' then (if all_digits cs then Some (int (read_nat cs)) else None)
          else if all_digits s then Some (int (read_nat s)) else None)"

definition parse_int :: "string \<Rightarrow> nat \<Rightarrow> int" where
  "parse_int s bits = (case parse_syntax s of None \<Rightarrow> 0 | Some n \<Rightarrow> clamp_bits bits n)"

lemma of_digit_char [simp]: "d < 10 \<Longrightarrow> (of_char (digit_char d) :: nat) = 48 + d"
  by (simp add: digit_char_def)

lemma digit_val_digit_char [simp]: "d < 10 \<Longrightarrow> digit_val (digit_char d) = d"
  by (simp add: digit_val_def)

lemma is_digit_digit_char [simp]: "d < 10 \<Longrightarrow> is_digit (digit_char d)"
  by (simp add: is_digit_def)

lemma show_nat_digits: "all_digits (show_nat n)"
proof (induction n rule: show_nat.induct)
  case (1 n)
  then show ?case
    by (cases "n < 10") (simp_all add: show_nat.simps [of n] all_digits_def)
qed

lemma show_nat_nonempty [simp]: "show_nat n \<noteq> []"
  using show_nat_digits [of n] by (auto simp: all_digits_def)

lemma read_nat_show_nat [simp]: "read_nat (show_nat n) = n"
proof (induction n rule: show_nat.induct)
  case (1 n)
  then show ?case
    by (cases "n < 10") (simp_all add: show_nat.simps [of n] read_nat_def)
qed

lemma show_nat_inj [simp]: "show_nat m = show_nat n \<longleftrightarrow> m = n"
  by (metis read_nat_show_nat)

lemma show_nat_no_minus: "hd (show_nat n) \<noteq> CHR ''-''"
proof
  assume "hd (show_nat n) = CHR ''-''"
  moreover have "hd (show_nat n) \<in> set (show_nat n)" by simp
  ultimately have "is_digit (CHR ''-'')"
    using show_nat_digits [of n] by (simp add: all_digits_def list_all_iff)
  then show False by (simp add: is_digit_def)
qed

lemma show_int_inj [simp]: "show_int m = show_int n \<longleftrightarrow> m = n"
proof -
  have *: "CHR ''-'' # show_nat a \<noteq> show_nat b" for a b
    using show_nat_no_minus [of b] by (metis list.sel(1))
  show ?thesis
    using * [symmetric] by (auto simp: show_int_def * split: if_splits)
qed

lemma show_int_nonempty [simp]: "show_int n \<noteq> []"
  by (simp add: show_int_def)

text \<open>Printing and parsing agree for every value of the width.\<close>

lemma parse_syntax_show_int: "parse_syntax (show_int n) = Some n"
proof (cases "n < 0")
  case True
  then show ?thesis by (simp add: show_int_def parse_syntax_def show_nat_digits)
next
  case False
  obtain c cs where s: "show_nat (nat n) = c # cs"
    by (cases "show_nat (nat n)") auto
  have "is_digit c"
    using show_nat_digits [of "nat n"] by (simp add: s all_digits_def)
  then have "c \<noteq> CHR ''-''" "c \<noteq> CHR ''+''"
    by (auto simp: is_digit_def)
  with False s show ?thesis
    using show_nat_digits [of "nat n"] read_nat_show_nat [of "nat n"]
    by (simp add: show_int_def parse_syntax_def)
qed

lemma parse_int_show_int:
  assumes "- (2 ^ (bits - 1)) \<le> n" "n < 2 ^ (bits - 1)"
  shows "parse_int (show_int n) bits = n"
  using assms by (simp add: parse_int_def clamp_bits_def parse_syntax_show_int)

section \<open>Case folding and separators\<close>

lemma to_upper_char_range: "\<not> (97 \<le> (of_char (to_upper_char c) :: nat) \<and> (of_char (to_upper_char c) :: nat) \<le> 122)"
  by (auto simp: to_upper_char_def Let_def)

lemma to_lower_char_inj_off:
  assumes "\<not> (97 \<le> (of_char c :: nat) \<and> (of_char c :: nat) \<le> 122)"
    and "\<not> (97 \<le> (of_char d :: nat) \<and> (of_char d :: nat) \<le> 122)"
    and "to_lower_char c = to_lower_char d"
  shows "c = d"
proof -
  have "(of_char (to_lower_char c) :: nat) = of_char (to_lower_char d)"
    using assms(3) by simp
  then have "(of_char c :: nat) = of_char d"
    using assms(1,2) by (auto simp: to_lower_char_def Let_def split: if_splits)
  then show ?thesis by simp
qed

lemma to_lower_upper_inj: "to_lower (to_upper s) = to_lower (to_upper t) \<longleftrightarrow> to_upper s = to_upper t"
proof
  assume "to_lower (to_upper s) = to_lower (to_upper t)"
  then have "list_all2 (\<lambda>c d. to_lower_char (to_upper_char c) = to_lower_char (to_upper_char d)) s t"
    by (simp add: to_lower_def to_upper_def list_all2_map1 list_all2_map2 list_all2_eq list.rel_map
        flip: list.rel_eq)
  then have "list_all2 (\<lambda>c d. to_upper_char c = to_upper_char d) s t"
    by (rule list_all2_mono) (metis to_lower_char_inj_off to_upper_char_range)
  then show "to_upper s = to_upper t"
    by (simp add: to_upper_def list.rel_map flip: list.rel_eq)
qed simp

lemma to_upper_idem [simp]: "to_upper (to_upper s) = to_upper s"
proof -
  have "to_upper_char (to_upper_char c) = to_upper_char c" for c
    using to_upper_char_range [of c] unfolding to_upper_char_def [of "to_upper_char c"] Let_def
    by presburger
  then show ?thesis by (simp add: to_upper_def)
qed

lemma sep_inj:
  assumes "c \<notin> set a" "c \<notin> set a'" "a @ c # b = a' @ c # b'"
  shows "a = a' \<and> b = b'"
  using assms by (induction a arbitrary: a') (auto simp: Cons_eq_append_conv append_eq_Cons_conv)

lemma show_int_no_colon [simp]: "CHR '':'' \<notin> set (show_int n)"
proof -
  have "CHR '':'' \<notin> set (show_nat k)" for k
    using show_nat_digits [of k] by (auto simp: all_digits_def list_all_iff is_digit_def)
  then show ?thesis by (simp add: show_int_def)
qed

lemma sep_inj_right:
  assumes "c \<notin> set b" "c \<notin> set b'" "a @ c # b = a' @ c # b'"
  shows "a = a' \<and> b = b'"
proof -
  have "rev b @ c # rev a = rev b' @ c # rev a'"
    using arg_cong [OF assms(3), of rev] by simp
  then have "rev b = rev b' \<and> rev a = rev a'"
    using assms(1,2) by (intro sep_inj) auto
  then show ?thesis by simp
qed

section \<open>Maps\<close>

type_synonym ('k, 'v) gomap = "('k \<times> 'v) list"

abbreviation store :: "'k \<Rightarrow> 'v \<Rightarrow> ('k, 'v) gomap \<Rightarrow> ('k, 'v) gomap" where
  "store \<equiv> AList.update"

abbreviation remove :: "'k \<Rightarrow> ('k, 'v) gomap \<Rightarrow> ('k, 'v) gomap" where
  "remove \<equiv> AList.delete"

text \<open>A map that is well formed has each key once.\<close>

definition wf_map :: "('k, 'v) gomap \<Rightarrow> bool" where
  "wf_map m = distinct (map fst m)"

lemma wf_map_Nil [simp, intro]: "wf_map []"
  by (simp add: wf_map_def)

lemma wf_map_single [simp, intro]: "wf_map [p]"
  by (simp add: wf_map_def)

lemma wf_map_store [simp, intro]: "wf_map m \<Longrightarrow> wf_map (store k v m)"
  by (simp add: wf_map_def distinct_update)

lemma wf_map_remove [simp, intro]: "wf_map m \<Longrightarrow> wf_map (remove k m)"
  by (simp add: wf_map_def distinct_delete)

lemma load_store [simp, map_simps]: "map_of (store k v m) k' = (if k = k' then Some v else map_of m k')"
  by (simp add: update_conv')

lemma load_remove [simp, map_simps]: "map_of (remove k m) k' = (if k = k' then None else map_of m k')"
  by (simp add: delete_conv')

lemma wf_map_in_set: "wf_map m \<Longrightarrow> (k, v) \<in> set m \<longleftrightarrow> map_of m k = Some v"
  unfolding wf_map_def by (metis map_of_eq_Some_iff)

lemma remove_notin: "map_of m k = None \<Longrightarrow> remove k m = m"
  by (induction m) (auto split: if_splits)

lemma remove_store [simp]: "remove k (store k v m) = remove k m"
  by (induction m) auto

lemma set_store_wf:
  assumes "wf_map m"
  shows "set (store k v m) = insert (k, v) {p \<in> set m. fst p \<noteq> k}"
proof -
  have "(a, b) \<in> set (store k v m) \<longleftrightarrow> (a, b) \<in> insert (k, v) {p \<in> set m. fst p \<noteq> k}" for a b
    using assms wf_map_in_set [of m] wf_map_in_set [of "store k v m"] by auto
  then show ?thesis by auto
qed

lemma set_remove_wf: "set (remove k m) = {p \<in> set m. fst p \<noteq> k}"
  by (induction m) auto

lemma mset_store_new: "map_of m k = None \<Longrightarrow> mset (store k v m) = add_mset (k, v) (mset m)"
  by (induction m) (auto split: if_splits)

lemma mset_store_old:
  assumes "wf_map m" "map_of m k = Some w"
  shows "mset (store k v m) = add_mset (k, v) (mset m - {#(k, w)#})"
  using assms
proof (induction m)
  case (Cons p m)
  show ?case
  proof (cases "fst p = k")
    case True
    with Cons.prems have "p = (k, w)" by (cases p) auto
    then show ?thesis by simp
  next
    case False
    with Cons.prems have w: "map_of m k = Some w" and "wf_map m"
      by (auto simp: wf_map_def split: if_splits)
    moreover have "(k, w) \<in># mset m"
      using w by (simp add: map_of_SomeD)
    ultimately show ?thesis
      using False Cons.IH by (auto simp: multiset_eq_iff)
  qed
qed simp

lemma mset_remove_old:
  assumes "wf_map m" "map_of m k = Some w"
  shows "mset (remove k m) = mset m - {#(k, w)#}"
  using assms
proof (induction m)
  case (Cons p m)
  show ?case
  proof (cases "fst p = k")
    case True
    with Cons.prems have p: "p = (k, w)" by (cases p) auto
    have "map_of m k = None"
      using Cons.prems(1) p by (auto simp: wf_map_def map_of_eq_None_iff)
    with p show ?thesis by (simp add: remove_notin)
  next
    case False
    with Cons.prems have w: "map_of m k = Some w" and "wf_map m"
      by (auto simp: wf_map_def split: if_splits)
    moreover have "(k, w) \<in># mset m"
      using w by (simp add: map_of_SomeD)
    ultimately show ?thesis
      using False Cons.IH by (auto simp: multiset_eq_iff)
  qed
qed simp

text \<open>
  Go leaves the iteration order of a map open. A loop over a map whose step commutes gives the
  same result in every order.
\<close>

lemma fold_order_free:
  assumes "mset xs = mset ys" and "\<And>x y. f x \<circ> f y = f y \<circ> f x"
  shows "fold f xs = fold f ys"
  by (rule fold_multiset_equiv) (use assms in auto)

lemma sum_list_mset_cong:
  fixes f :: "'a \<Rightarrow> 'b::comm_monoid_add"
  assumes "mset xs = mset ys"
  shows "sum_list (map f xs) = sum_list (map f ys)"
proof -
  have "mset (map f xs) = mset (map f ys)" using assms by simp
  then show ?thesis by (simp only: sum_mset_sum_list [symmetric])
qed

section \<open>Batches\<close>

text \<open>
  The loop \<open>for i := 0; i < len(xs); i += n { end := min(i+n, len(xs)); batch := xs[i:end] }\<close>
  that every exchange subscription uses, as the list of its batches.
\<close>

function batches_from :: "nat \<Rightarrow> 'a list \<Rightarrow> nat \<Rightarrow> 'a list list" where
  "batches_from n xs i =
     (if n = 0 \<or> length xs \<le> i then []
      else (let e = min (i + n) (length xs) in take (e - i) (drop i xs) # batches_from n xs (i + n)))"
  by pat_completeness auto
termination
  by (relation "measure (\<lambda>(n, xs, i). length xs - i)") auto

declare batches_from.simps [simp del]

definition batches :: "nat \<Rightarrow> 'a list \<Rightarrow> 'a list list" where
  "batches n xs = batches_from n xs 0"

lemma batches_from_concat: "0 < n \<Longrightarrow> concat (batches_from n xs i) = drop i xs"
proof (induction n xs i rule: batches_from.induct)
  case (1 n xs i)
  show ?case
  proof (cases "length xs \<le> i")
    case True
    then show ?thesis by (simp add: batches_from.simps [of n xs i])
  next
    case False
    with 1 have IH: "concat (batches_from n xs (i + n)) = drop (i + n) xs" by simp
    have "take (min (i + n) (length xs) - i) (drop i xs) = take n (drop i xs)"
      by (cases "i + n \<le> length xs") (auto simp: min_def)
    moreover have "take n (drop i xs) @ drop (i + n) xs = drop i xs"
      by (metis add.commute append_take_drop_id drop_drop)
    ultimately show ?thesis
      using False 1(2) IH by (simp add: batches_from.simps [of n xs i] Let_def)
  qed
qed

lemma batches_from_size:
  assumes "b \<in> set (batches_from n xs i)"
  shows "0 < length b \<and> length b \<le> n"
  using assms
proof (induction n xs i rule: batches_from.induct)
  case (1 n xs i)
  show ?case
  proof (cases "n = 0 \<or> length xs \<le> i")
    case True
    with 1(2) show ?thesis by (simp add: batches_from.simps [of n xs i])
  next
    case False
    then have "batches_from n xs i =
        take (min (i + n) (length xs) - i) (drop i xs) # batches_from n xs (i + n)"
      by (simp add: batches_from.simps [of n xs i] Let_def)
    with 1(2) consider (here) "b = take (min (i + n) (length xs) - i) (drop i xs)"
      | (later) "b \<in> set (batches_from n xs (i + n))"
      by auto
    then show ?thesis
    proof cases
      case here
      with False show ?thesis by auto
    next
      case later
      with False show ?thesis using 1(1) by blast
    qed
  qed
qed

lemma batches_concat: "0 < n \<Longrightarrow> concat (batches n xs) = xs"
  by (simp add: batches_def batches_from_concat)

lemma batches_size: "b \<in> set (batches n xs) \<Longrightarrow> 0 < length b \<and> length b \<le> n"
  unfolding batches_def by (rule batches_from_size)

section \<open>Panics\<close>

text \<open>
  An operation that can panic returns \<open>panic + 'a\<close>, with \<^const>\<open>Inl\<close> for the panic; a loop over
  such an operation stops at the first one.
\<close>

datatype panic = SendOnClosedChannel | CloseOfClosedChannel | DivisionByZero | SliceOutOfRange | IndexOutOfRange | NilDereference | NonPositiveTicker | MakeSliceOutOfRange

type_synonym 'a outcome = "panic + 'a"

primrec obind :: "'a outcome \<Rightarrow> ('a \<Rightarrow> 'b outcome) \<Rightarrow> 'b outcome" where
  "obind (Inl p) f = Inl p"
| "obind (Inr x) f = f x"

primrec ofold :: "('x \<Rightarrow> 's \<Rightarrow> 's outcome) \<Rightarrow> 'x list \<Rightarrow> 's \<Rightarrow> 's outcome" where
  "ofold f [] s = Inr s"
| "ofold f (x # xs) s = obind (f x s) (ofold f xs)"

lemma obind_Inr_iff: "obind r f = Inr y \<longleftrightarrow> (\<exists>x. r = Inr x \<and> f x = Inr y)"
  by (cases r) auto

lemma ofold_append: "ofold f (xs @ ys) s = obind (ofold f xs s) (ofold f ys)"
proof (induction xs arbitrary: s)
  case (Cons x xs)
  then show ?case by (cases "f x s") auto
qed simp

text \<open>An invariant of every step is an invariant of the loop.\<close>

lemma ofold_invariant:
  assumes "ofold f xs s = Inr s'" "P s" "\<And>x u u'. x \<in> set xs \<Longrightarrow> P u \<Longrightarrow> f x u = Inr u' \<Longrightarrow> P u'"
  shows "P s'"
  using assms
proof (induction xs arbitrary: s)
  case (Cons x xs)
  from Cons.prems(1) obtain u where u: "f x s = Inr u" "ofold f xs u = Inr s'"
    by (auto simp: obind_Inr_iff)
  have "P u" using Cons.prems(2,3) u(1) by auto
  then show ?case using Cons.IH [OF u(2)] Cons.prems(3) by auto
qed simp

text \<open>A loop none of whose steps panics, under an invariant, does not panic.\<close>

lemma ofold_no_panic:
  assumes "P s" "\<And>x u. x \<in> set xs \<Longrightarrow> P u \<Longrightarrow> \<exists>u'. f x u = Inr u' \<and> P u'"
  shows "\<exists>s'. ofold f xs s = Inr s' \<and> P s'"
  using assms
proof (induction xs arbitrary: s)
  case (Cons x xs)
  obtain u where u: "f x s = Inr u" "P u" using Cons.prems by auto
  then show ?case using Cons by auto
qed simp

section \<open>Ticker loops\<close>

text \<open>
  The background goroutines have one shape, \<open>for { select { case <-done: return; case <-ticker.C: body } }\<close>.
  The events are what the \<open>select\<close> chose, so a list of them is one run; a tick carries what the body
  reads from outside. The result says whether the goroutine returned, and its state.
\<close>

datatype 'x loop_event = Stopped | Ticked 'x

fun ticker_loop :: "('x \<Rightarrow> 's \<Rightarrow> 's) \<Rightarrow> 'x loop_event list \<Rightarrow> 's \<Rightarrow> bool \<times> 's" where
  "ticker_loop body [] s = (False, s)"
| "ticker_loop body (Stopped # evs) s = (True, s)"
| "ticker_loop body (Ticked x # evs) s = ticker_loop body evs (body x s)"

text \<open>\<open>time.NewTicker\<close> panics on a period that is not positive.\<close>

definition NewTicker :: "int \<Rightarrow> unit outcome" where
  "NewTicker period = (if period \<le> 0 then Inl NonPositiveTicker else Inr ())"

lemma ticker_loop_keeps:
  "(\<And>x s. P s \<Longrightarrow> P (body x s)) \<Longrightarrow> P s \<Longrightarrow> P (snd (ticker_loop body evs s))"
  by (induction body evs s rule: ticker_loop.induct) simp_all

lemma ticker_loop_ticks: "ticker_loop body (map Ticked xs @ evs) s = ticker_loop body evs (fold body xs s)"
  by (induction xs arbitrary: s) simp_all

lemma ticker_loop_returns: "fst (ticker_loop body evs s) \<longleftrightarrow> Stopped \<in> set evs"
  by (induction body evs s rule: ticker_loop.induct) simp_all

lemma ticker_loop_fold:
  "snd (ticker_loop body evs s) = fold body (concat (map (\<lambda>e. case e of Ticked x \<Rightarrow> [x] | Stopped \<Rightarrow> []) (takeWhile (\<lambda>e. e \<noteq> Stopped) evs))) s"
  by (induction body evs s rule: ticker_loop.induct) simp_all

section \<open>Truncating division\<close>

lemma sdiv_nonneg: "0 \<le> a \<Longrightarrow> 0 < b \<Longrightarrow> a sdiv b = a div (b :: int)"
  by (cases "a = 0") (simp_all add: signed_divide_int_def)

lemma smod_nonneg: "0 \<le> a \<Longrightarrow> 0 < b \<Longrightarrow> a smod b = a mod (b :: int)"
  by (cases "a = 0") (simp_all add: signed_modulo_int_def sdiv_nonneg minus_div_mult_eq_mod)

section \<open>Folds that select an extremum\<close>

lemma Max_insert_fold:
  fixes a :: "'a::linorder"
  shows "foldl max a xs = Max (insert a (set xs))"
proof (induction xs arbitrary: a)
  case (Cons x xs)
  then show ?case by (cases "xs = []") (simp_all add: max.assoc)
qed simp

lemma Min_insert_fold:
  fixes a :: "'a::linorder"
  shows "foldl min a xs = Min (insert a (set xs))"
proof (induction xs arbitrary: a)
  case (Cons x xs)
  then show ?case by (cases "xs = []") (simp_all add: min.assoc)
qed simp

end
