(* ===== verification/Decimal.thy ===== *)
theory Decimal
  imports Prelude
begin

text \<open>
  The decimal numbers of \<open>github.com/shopspring/decimal\<close>. The package is not part of the
  repository, so its operations are a parameter of every definition that uses them: a record of
  functions over a type of decimals that stays abstract. What the program relies on is the locale
  \<open>decimal_api\<close>, stated through the number \<open>v d\<close> a decimal \<open>d\<close> stands for, from the package's
  documentation: addition, subtraction and multiplication are exact, comparisons compare the
  numbers, and \<open>Div\<close> rounds the quotient to 16 places (\<open>DivisionPrecision\<close>).

  \<open>fixdec\<close> is a concrete number type with these operations (a coefficient and a count of decimal
  places, the representation the package documents); the interpretation \<open>fd\<close> shows that it meets
  every law, and the witnesses of the development compute with it.
\<close>

record 'd decimal_ops =
  d_Zero :: 'd                             \<comment> \<open>\<open>decimal.Zero\<close> and the zero value \<open>Decimal{}\<close>\<close>
  d_Add :: "'d \<Rightarrow> 'd \<Rightarrow> 'd"
  d_Sub :: "'d \<Rightarrow> 'd \<Rightarrow> 'd"
  d_Mul :: "'d \<Rightarrow> 'd \<Rightarrow> 'd"
  d_Div :: "'d \<Rightarrow> 'd \<Rightarrow> 'd"                   \<comment> \<open>the divisor is not zero\<close>
  d_GreaterThan :: "'d \<Rightarrow> 'd \<Rightarrow> bool"
  d_LessThan :: "'d \<Rightarrow> 'd \<Rightarrow> bool"
  d_IsZero :: "'d \<Rightarrow> bool"
  d_NewFromInt :: "int \<Rightarrow> 'd"
  d_NewFromString :: "string \<Rightarrow> 'd"         \<comment> \<open>the first result; every caller drops the error\<close>
  d_String :: "'d \<Rightarrow> string"

locale decimal_api =
  fixes D :: "'d decimal_ops" and v :: "'d \<Rightarrow> rat"
  assumes v_Zero: "v (d_Zero D) = 0"
    and v_Add: "v (d_Add D a b) = v a + v b"
    and v_Sub: "v (d_Sub D a b) = v a - v b"
    and v_Mul: "v (d_Mul D a b) = v a * v b"
    and v_GreaterThan: "d_GreaterThan D a b \<longleftrightarrow> v b < v a"
    and v_LessThan: "d_LessThan D a b \<longleftrightarrow> v a < v b"
    and v_IsZero: "d_IsZero D a \<longleftrightarrow> v a = 0"
    and v_NewFromInt: "v (d_NewFromInt D n) = of_int n"
    and v_Div_err: "v b \<noteq> 0 \<Longrightarrow> \<bar>v (d_Div D a b) - v a / v b\<bar> \<le> 1 / (2 * 10 ^ 16)"
    and v_Div_places: "v b \<noteq> 0 \<Longrightarrow> \<exists>k. v (d_Div D a b) = of_int k / 10 ^ 16"
begin

lemmas v_simps = v_Zero v_Add v_Sub v_Mul v_GreaterThan v_LessThan v_IsZero v_NewFromInt

text \<open>A quotient that has at most 16 places is not rounded.\<close>

lemma v_Div_exact:
  assumes "v b \<noteq> 0" "v a / v b = of_int k / 10 ^ 16"
  shows "v (d_Div D a b) = v a / v b"
proof -
  obtain j where j: "v (d_Div D a b) = of_int j / 10 ^ 16"
    using v_Div_places [OF assms(1)] by blast
  have "\<bar>of_int j / 10 ^ 16 - of_int k / (10 :: rat) ^ 16\<bar> \<le> 1 / (2 * 10 ^ 16)"
    using v_Div_err [OF assms(1), of a] by (simp add: j assms(2))
  then have "\<bar>of_int (j - k) :: rat\<bar> \<le> 1 / 2"
    by (simp add: divide_simps abs_if split: if_splits)
  then have "of_int \<bar>j - k\<bar> * 2 \<le> (1 :: rat)" by simp
  then have "of_int (\<bar>j - k\<bar> * 2) \<le> (of_int 1 :: rat)" by simp
  then have "\<bar>j - k\<bar> * 2 \<le> 1" by (simp only: of_int_le_iff)
  then have "j = k" by arith
  then show ?thesis by (simp add: j assms(2))
qed

lemma v_Div_zero: "v b \<noteq> 0 \<Longrightarrow> v a = 0 \<Longrightarrow> v (d_Div D a b) = 0"
  using v_Div_exact [of b a 0] by simp

lemma v_Div_self: "v b \<noteq> 0 \<Longrightarrow> v a = v b \<Longrightarrow> v (d_Div D a b) = 1"
  using v_Div_exact [of b a "10 ^ 16"] by simp

text \<open>A running sum, whatever it starts from.\<close>

lemma v_foldl_Add: "v (foldl (\<lambda>s x. d_Add D s (f x)) z xs) = v z + (\<Sum>x\<leftarrow>xs. v (f x))"
  by (induction xs arbitrary: z) (simp_all add: v_Add add.assoc)

text \<open>The loop \<open>if x.GreaterThan(m) { m = x }\<close> and its dual.\<close>

lemma v_foldl_Max:
  "v (foldl (\<lambda>m x. if d_GreaterThan D (f x) m then f x else m) z xs) = Max (insert (v z) ((\<lambda>x. v (f x)) ` set xs))"
proof -
  have "v (foldl (\<lambda>m x. if d_GreaterThan D (f x) m then f x else m) z xs) = foldl max (v z) (map (\<lambda>x. v (f x)) xs)"
    by (induction xs arbitrary: z) (simp_all add: v_GreaterThan max_def)
  then show ?thesis by (simp add: Max_insert_fold)
qed

lemma v_foldl_Min:
  "v (foldl (\<lambda>m x. if d_LessThan D (f x) m then f x else m) z xs) = Min (insert (v z) ((\<lambda>x. v (f x)) ` set xs))"
proof -
  have "v (foldl (\<lambda>m x. if d_LessThan D (f x) m then f x else m) z xs) = foldl min (v z) (map (\<lambda>x. v (f x)) xs)"
    by (induction xs arbitrary: z) (simp_all add: v_LessThan min_def)
  then show ?thesis by (simp add: Min_insert_fold)
qed

text \<open>An average of numbers between two bounds is between them, up to the rounding of \<open>Div\<close>.\<close>

lemma v_average_bounds:
  assumes "0 < n" and "n = int (length xs)" and "\<forall>x\<in>set xs. l \<le> x \<and> x \<le> u" and "v s = sum_list xs"
  shows "l - 1 / (2 * 10 ^ 16) \<le> v (d_Div D s (d_NewFromInt D n)) \<and>
    v (d_Div D s (d_NewFromInt D n)) \<le> u + 1 / (2 * 10 ^ 16)"
proof -
  have lo: "of_nat (length xs) * l \<le> sum_list xs"
    using assms(3) by (induction xs) (auto simp: algebra_simps intro: add_mono)
  have hi: "sum_list xs \<le> of_nat (length xs) * u"
    using assms(3) by (induction xs) (auto simp: algebra_simps intro: add_mono)
  have n0: "(of_int n :: rat) > 0" using assms(1) by simp
  have nl: "(of_int n :: rat) = of_nat (length xs)" using assms(2) by simp
  have "l \<le> v s / of_int n" "v s / of_int n \<le> u"
    using lo hi n0 by (simp_all add: assms(4) pos_le_divide_eq pos_divide_le_eq nl mult.commute)
  moreover have "\<bar>v (d_Div D s (d_NewFromInt D n)) - v s / of_int n\<bar> \<le> 1 / (2 * 10 ^ 16)"
    using v_Div_err [of "d_NewFromInt D n" s] assms(1) by (simp add: v_NewFromInt)
  ultimately show ?thesis by linarith
qed

end

section \<open>A concrete decimal type\<close>

datatype fixdec = FD int nat

primrec fd_val :: "fixdec \<Rightarrow> rat" where
  "fd_val (FD c k) = of_int c / 10 ^ k"

text \<open>Rounding division: half away from zero.\<close>

definition round_div :: "int \<Rightarrow> int \<Rightarrow> int" where
  "round_div n d = sgn n * sgn d * ((2 * \<bar>n\<bar> + \<bar>d\<bar>) div (2 * \<bar>d\<bar>))"

fun fd_add :: "fixdec \<Rightarrow> fixdec \<Rightarrow> fixdec" where
  "fd_add (FD a k) (FD b l) = FD (a * 10 ^ (max k l - k) + b * 10 ^ (max k l - l)) (max k l)"

fun fd_neg :: "fixdec \<Rightarrow> fixdec" where
  "fd_neg (FD a k) = FD (- a) k"

fun fd_mul :: "fixdec \<Rightarrow> fixdec \<Rightarrow> fixdec" where
  "fd_mul (FD a k) (FD b l) = FD (a * b) (k + l)"

fun fd_div :: "fixdec \<Rightarrow> fixdec \<Rightarrow> fixdec" where
  "fd_div (FD a k) (FD b l) = FD (round_div (a * 10 ^ l * 10 ^ 16) (b * 10 ^ k)) 16"

fun fd_less :: "fixdec \<Rightarrow> fixdec \<Rightarrow> bool" where
  "fd_less (FD a k) (FD b l) = (a * 10 ^ l < b * 10 ^ k)"

fun fd_iszero :: "fixdec \<Rightarrow> bool" where
  "fd_iszero (FD a k) = (a = 0)"

definition fd_parse :: "string \<Rightarrow> fixdec" where
  "fd_parse s =
     (let neg = has_prefix s ''-''; u = trim_prefix s ''-'' in
      case cut_at ''.'' u of
        None \<Rightarrow> if all_digits u then FD ((if neg then - 1 else 1) * int (read_nat u)) 0 else FD 0 0
      | Some (a, b) \<Rightarrow>
          if all_digits (a @ b) then FD ((if neg then - 1 else 1) * int (read_nat (a @ b))) (length b)
          else FD 0 0)"

fun fd_show :: "fixdec \<Rightarrow> string" where
  "fd_show (FD a k) =
     (let n = nat \<bar>a\<bar>; whole = n div 10 ^ k; frac = show_nat (n mod 10 ^ k);
          padded = replicate (k - length frac) (CHR ''0'') @ frac;
          trimmed = rev (dropWhile (\<lambda>c. c = CHR ''0'') (rev padded));
          sign = (if a < 0 then ''-'' else [])
      in if k = 0 \<or> trimmed = [] then sign @ show_nat whole
         else sign @ show_nat whole @ ''.'' @ trimmed)"

definition fd_ops :: "fixdec decimal_ops" where
  "fd_ops = \<lparr>d_Zero = FD 0 0, d_Add = fd_add, d_Sub = (\<lambda>a b. fd_add a (fd_neg b)), d_Mul = fd_mul,
     d_Div = fd_div, d_GreaterThan = (\<lambda>a b. fd_less b a), d_LessThan = fd_less,
     d_IsZero = fd_iszero, d_NewFromInt = (\<lambda>n. FD n 0), d_NewFromString = fd_parse,
     d_String = fd_show\<rparr>"

lemma round_div_err:
  assumes "d \<noteq> 0"
  shows "\<bar>(of_int (round_div n d) :: rat) - of_int n / of_int d\<bar> \<le> 1 / 2"
proof -
  define N M q where "N = \<bar>n\<bar>" and "M = \<bar>d\<bar>" and "q = (2 * N + M) div (2 * M)"
  have M: "0 < M" using assms by (simp add: M_def)
  define r where "r = (2 * N + M) mod (2 * M)"
  have "2 * M * q + r = 2 * N + M" by (simp add: q_def r_def)
  moreover have "0 \<le> r" "r < 2 * M"
    using M by (simp_all add: r_def)
  ultimately have "2 * M * q \<le> 2 * N + M" "2 * N + M < 2 * M * q + 2 * M"
    by linarith+
  then have "(of_int (2 * M * q) :: rat) \<le> of_int (2 * N + M)"
    "(of_int (2 * N + M) :: rat) \<le> of_int (2 * M * q + 2 * M)"
    by (simp_all only: of_int_le_iff)
  then have "(of_int q :: rat) - of_int N / of_int M \<le> 1 / 2" "of_int N / of_int M - (of_int q :: rat) \<le> 1 / 2"
    using M by (simp_all add: field_simps)
  then have "\<bar>(of_int q :: rat) - of_int N / of_int M\<bar> \<le> 1 / 2"
    by linarith
  moreover have "(of_int n :: rat) / of_int d = of_int (sgn n * sgn d) * (of_int N / of_int M)"
    using assms by (cases "n < 0"; cases "d < 0") (auto simp: N_def M_def sgn_if)
  moreover have "round_div n d = sgn n * sgn d * q"
    by (simp add: round_div_def q_def N_def M_def)
  moreover have "n = 0 \<Longrightarrow> N = 0" by (simp add: N_def)
  ultimately show ?thesis
    using assms by (cases "n = 0"; cases "n < 0"; cases "d < 0") (auto simp: sgn_if abs_minus_commute)
qed

lemma fd_val_add: "fd_val (fd_add a b) = fd_val a + fd_val b"
proof (cases a, cases b)
  fix x k y l assume [simp]: "a = FD x k" "b = FD y l"
  have scale: "(of_int z * 10 ^ (m - n) :: rat) / 10 ^ m = of_int z / 10 ^ n" if "n \<le> m" for z m n
    using that by (simp add: power_diff)
  show ?thesis
    using scale [of k "max k l" x] scale [of l "max k l" y] by (simp add: add_divide_distrib)
qed

lemma fd_val_neg: "fd_val (fd_neg a) = - fd_val a"
  by (cases a) simp

lemma fd_val_less: "fd_less a b \<longleftrightarrow> fd_val a < fd_val b"
proof (cases a, cases b)
  fix x k y l assume [simp]: "a = FD x k" "b = FD y l"
  have "fd_val a < fd_val b \<longleftrightarrow> (of_int (x * 10 ^ l) :: rat) < of_int (y * 10 ^ k)"
    by (simp add: divide_simps)
  then show ?thesis by (simp only: of_int_less_iff fd_less.simps \<open>a = _\<close> \<open>b = _\<close>)
qed

lemma fd_val_div:
  assumes "fd_val b \<noteq> 0"
  shows "\<bar>fd_val (fd_div a b) - fd_val a / fd_val b\<bar> \<le> 1 / (2 * 10 ^ 16)"
proof (cases a, cases b)
  fix x k y l assume ab: "a = FD x k" "b = FD y l"
  with assms have y: "y \<noteq> 0" by auto
  have "\<bar>(of_int (round_div (x * 10 ^ l * 10 ^ 16) (y * 10 ^ k)) :: rat) -
      of_int (x * 10 ^ l * 10 ^ 16) / of_int (y * 10 ^ k)\<bar> \<le> 1 / 2"
    using y by (intro round_div_err) simp
  moreover have "(of_int (x * 10 ^ l * 10 ^ 16) :: rat) / of_int (y * 10 ^ k) = 10 ^ 16 * (fd_val a / fd_val b)"
    using y by (simp add: ab divide_simps)
  ultimately have "\<bar>10 ^ 16 * (fd_val (fd_div a b) - fd_val a / fd_val b)\<bar> \<le> 1 / 2"
    by (simp add: ab right_diff_distrib)
  then have "10 ^ 16 * \<bar>fd_val (fd_div a b) - fd_val a / fd_val b\<bar> \<le> 1 / 2"
    by (simp only: abs_mult) simp
  then show ?thesis by simp
qed

interpretation fd: decimal_api fd_ops fd_val
proof unfold_locales
  fix a b :: fixdec
  show "\<exists>k. fd_val (d_Div fd_ops a b) = of_int k / 10 ^ 16"
    by (cases a; cases b) (auto simp: fd_ops_def)
  show "d_IsZero fd_ops a \<longleftrightarrow> fd_val a = 0"
    by (cases a) (simp add: fd_ops_def)
  show "fd_val (d_Mul fd_ops a b) = fd_val a * fd_val b"
    by (cases a; cases b) (simp add: fd_ops_def power_add)
  show "\<bar>fd_val (d_Div fd_ops a b) - fd_val a / fd_val b\<bar> \<le> 1 / (2 * 10 ^ 16)" if "fd_val b \<noteq> 0"
    using fd_val_div [OF that, of a] by (simp add: fd_ops_def)
qed (simp_all add: fd_ops_def fd_val_add fd_val_neg fd_val_less)

lemmas fd_api = fd.decimal_api_axioms

end
