(* ===== verification/GoTime.thy ===== *)
theory GoTime
  imports Prelude
begin

text \<open>
  What the program uses of Go's \<open>time\<close> package. A \<open>time.Time\<close> is an instant, in nanoseconds
  from the Unix epoch, with the offset of its location from UTC in seconds; \<open>time.Duration\<close> is a
  number of nanoseconds. A location is modelled as a fixed offset (UTC, and every zone without
  clock changes): \<open>time.Local\<close> is the parameter \<open>lz\<close> of the operations that call \<open>time.Unix\<close>.
  The civil calendar (\<open>Year\<close>, \<open>Month\<close>, \<open>Day\<close>, \<open>Weekday\<close>, \<open>time.Date\<close>) is the proleptic
  Gregorian one; the main facts are that the civil date of a day number leads back to the day,
  and that the first of a month is the day its own date names.
\<close>

record gotime =
  t_ns :: int    \<comment> \<open>nanoseconds since 1970-01-01 00:00:00 UTC\<close>
  t_off :: int   \<comment> \<open>offset of the location, seconds east of UTC\<close>

abbreviation Millisecond :: int where "Millisecond \<equiv> 1000000"
abbreviation Second :: int where "Second \<equiv> 1000000000"
abbreviation Minute_d :: int where "Minute_d \<equiv> 60000000000"
abbreviation Hour_d :: int where "Hour_d \<equiv> 3600000000000"

definition time_Unix :: "int \<Rightarrow> int \<Rightarrow> int \<Rightarrow> gotime" where
  "time_Unix lz sec nsec = \<lparr>t_ns = sec * Second + nsec, t_off = lz\<rparr>"

definition time_UnixMilli :: "int \<Rightarrow> int \<Rightarrow> gotime" where
  "time_UnixMilli lz ms = \<lparr>t_ns = ms * Millisecond, t_off = lz\<rparr>"

definition t_UTC :: "gotime \<Rightarrow> gotime" where
  "t_UTC t = t\<lparr>t_off := 0\<rparr>"

definition t_Unix :: "gotime \<Rightarrow> int" where
  "t_Unix t = t_ns t div Second"

definition t_UnixMilli :: "gotime \<Rightarrow> int" where
  "t_UnixMilli t = t_ns t div Millisecond"

definition t_Add :: "gotime \<Rightarrow> int \<Rightarrow> gotime" where
  "t_Add t d = t\<lparr>t_ns := t_ns t + d\<rparr>"

text \<open>\<open>t.Sub(u)\<close> saturates at the extreme durations.\<close>

definition t_Sub :: "gotime \<Rightarrow> gotime \<Rightarrow> int" where
  "t_Sub t u = clamp_bits 64 (t_ns t - t_ns u)"

definition t_After :: "gotime \<Rightarrow> gotime \<Rightarrow> bool" where
  "t_After t u = (t_ns u < t_ns t)"

definition t_Before :: "gotime \<Rightarrow> gotime \<Rightarrow> bool" where
  "t_Before t u = (t_ns t < t_ns u)"

definition t_Equal :: "gotime \<Rightarrow> gotime \<Rightarrow> bool" where
  "t_Equal t u = (t_ns t = t_ns u)"

text \<open>The zero \<open>Time\<close>: January 1, year 1, 00:00:00 UTC.\<close>

definition zero_time :: gotime where
  "zero_time = \<lparr>t_ns = - 62135596800 * Second, t_off = 0\<rparr>"

definition t_IsZero :: "gotime \<Rightarrow> bool" where
  "t_IsZero t = (t_ns t = t_ns zero_time)"

definition t_Truncate :: "gotime \<Rightarrow> int \<Rightarrow> gotime" where
  "t_Truncate t d = (if d \<le> 0 then t else t_Add t (- ((t_ns t - t_ns zero_time) mod d)))"

section \<open>The civil calendar\<close>

definition leap :: "int \<Rightarrow> bool" where
  "leap y = (4 dvd y \<and> (\<not> 100 dvd y \<or> 400 dvd y))"

definition month_lengths :: "int \<Rightarrow> int list" where
  "month_lengths y = [31, if leap y then 29 else 28, 31, 30, 31, 30, 31, 31, 30, 31, 30, 31]"

text \<open>Days from 0001-01-01 to the first day of a year, and days of the year before a month.\<close>

definition days_before_year :: "int \<Rightarrow> int" where
  "days_before_year y = 365 * (y - 1) + (y - 1) div 4 - (y - 1) div 100 + (y - 1) div 400"

definition days_before_month :: "int \<Rightarrow> int \<Rightarrow> int" where
  "days_before_month y m = sum_list (take (nat (m - 1)) (month_lengths y))"

text \<open>The day number, counted from the Unix epoch, of a civil date; the day may lie outside its month.\<close>

definition days_of_civil :: "int \<Rightarrow> int \<Rightarrow> int \<Rightarrow> int" where
  "days_of_civil y m d = days_before_year y + days_before_month y m + (d - 1) - 719162"

text \<open>The year of a day and the day's place in it, through 400, 100, 4 and 1 year cycles.\<close>

definition year_yday :: "int \<Rightarrow> int \<times> int" where
  "year_yday z =
     (let n = z + 719162;
          n400 = n div 146097; r = n mod 146097;
          n100 = min 3 (r div 36524); r2 = r - n100 * 36524;
          n4 = r2 div 1461; r3 = r2 mod 1461;
          n1 = min 3 (r3 div 365)
      in (400 * n400 + 100 * n100 + 4 * n4 + n1 + 1, r3 - n1 * 365))"

fun find_month :: "int \<Rightarrow> int list \<Rightarrow> int \<Rightarrow> int \<times> int" where
  "find_month m [] d = (m, d + 1)"
| "find_month m (l # ls) d = (if d < l then (m, d + 1) else find_month (m + 1) ls (d - l))"

definition civil_of_day :: "int \<Rightarrow> int \<times> int \<times> int" where
  "civil_of_day z = (let (y, yd) = year_yday z; (m, d) = find_month 1 (month_lengths y) yd in (y, m, d))"

text \<open>The local day number of an instant and the second within that day.\<close>

definition t_day :: "gotime \<Rightarrow> int" where
  "t_day t = (t_Unix t + t_off t) div 86400"

definition t_sod :: "gotime \<Rightarrow> int" where
  "t_sod t = (t_Unix t + t_off t) mod 86400"

definition t_Year :: "gotime \<Rightarrow> int" where
  "t_Year t = fst (civil_of_day (t_day t))"

definition t_Month :: "gotime \<Rightarrow> int" where
  "t_Month t = fst (snd (civil_of_day (t_day t)))"

definition t_Day :: "gotime \<Rightarrow> int" where
  "t_Day t = snd (snd (civil_of_day (t_day t)))"

definition t_Hour :: "gotime \<Rightarrow> int" where
  "t_Hour t = t_sod t div 3600"

definition t_Minute :: "gotime \<Rightarrow> int" where
  "t_Minute t = t_sod t mod 3600 div 60"

text \<open>Sunday is 0; the epoch was a Thursday.\<close>

definition t_Weekday :: "gotime \<Rightarrow> int" where
  "t_Weekday t = (t_day t + 4) mod 7"

text \<open>\<open>time.Date\<close> accepts a month or a day outside its range and normalises it.\<close>

definition time_Date :: "int \<Rightarrow> int \<Rightarrow> int \<Rightarrow> int \<Rightarrow> int \<Rightarrow> int \<Rightarrow> int \<Rightarrow> int \<Rightarrow> gotime" where
  "time_Date y m d h mi s ns off =
     (let y' = y + (m - 1) div 12; m' = (m - 1) mod 12 + 1 in
      \<lparr>t_ns = (days_of_civil y' m' d * 86400 + h * 3600 + mi * 60 + s - off) * Second + ns, t_off = off\<rparr>)"

subsection \<open>The calendar is right\<close>

lemma days_before_year_cycles:
  assumes "0 \<le> b" "b \<le> 3" "0 \<le> c" "c \<le> 24" "0 \<le> e" "e \<le> 3"
  shows "days_before_year (400 * a + 100 * b + 4 * c + e + 1) = 146097 * a + 36524 * b + 1461 * c + 365 * e"
proof -
  have "(400 * a + 100 * b + 4 * c + e) div 4 = 100 * a + 25 * b + c"
    "(400 * a + 100 * b + 4 * c + e) div 100 = 4 * a + b"
    "(400 * a + 100 * b + 4 * c + e) div 400 = a"
    using assms by linarith+
  then show ?thesis by (simp add: days_before_year_def)
qed

lemma div_pred:
  fixes k :: int
  assumes "0 < k"
  shows "y div k = (y - 1) div k + (if k dvd y then 1 else 0)"
proof (cases "k dvd y")
  case True
  then obtain q where q: "y = k * q" by (auto simp: dvd_def)
  have "(y - 1) div k = q - 1"
    using assms by (intro int_div_pos_eq [where r = "k - 1"]) (auto simp: q algebra_simps)
  with True q assms show ?thesis by simp
next
  case False
  then have "y mod k \<noteq> 0" by (simp add: dvd_eq_mod_eq_0)
  moreover have "0 \<le> y mod k" "y mod k < k" "y = k * (y div k) + y mod k"
    using assms by simp_all
  ultimately have "(y - 1) div k = y div k"
    by (intro int_div_pos_eq [where r = "y mod k - 1"]) linarith+
  with False show ?thesis by simp
qed

lemma div_bounds:
  fixes k :: int
  assumes "0 < k"
  shows "k * (x div k) \<le> x" "x < k * (x div k) + k"
proof -
  have "0 \<le> x mod k" "x mod k < k" "x = k * (x div k) + x mod k"
    using assms by simp_all
  then show "k * (x div k) \<le> x" "x < k * (x div k) + k" by linarith+
qed

lemma days_before_year_Suc: "days_before_year (y + 1) = days_before_year y + (if leap y then 366 else 365)"
proof -
  define p q r where "p = (y - 1) div 4" and "q = (y - 1) div 100" and "r = (y - 1) div 400"
  have "y div 4 = p + (if 4 dvd y then 1 else 0)" "y div 100 = q + (if 100 dvd y then 1 else 0)"
    "y div 400 = r + (if 400 dvd y then 1 else 0)"
    unfolding p_def q_def r_def by (rule div_pred, simp)+
  then have "days_before_year (y + 1) = 365 * y + (p + (if 4 dvd y then 1 else 0))
      - (q + (if 100 dvd y then 1 else 0)) + (r + (if 400 dvd y then 1 else 0))"
    unfolding days_before_year_def by simp
  moreover have "days_before_year y = 365 * (y - 1) + p - q + r"
    by (simp add: days_before_year_def p_def q_def r_def)
  moreover have "400 dvd y \<Longrightarrow> 100 dvd y" "100 dvd y \<Longrightarrow> 4 dvd y"
    by (auto elim: dvd_trans [rotated])
  ultimately show ?thesis
    unfolding leap_def by (cases "4 dvd y"; cases "100 dvd y"; cases "400 dvd y") simp_all
qed

lemma days_before_year_less: "y < y' \<Longrightarrow> days_before_year y + 365 \<le> days_before_year y'"
proof (induction "nat (y' - y)" arbitrary: y')
  case (Suc n)
  then have n: "n = nat (y' - 1 - y)" by simp
  have step: "days_before_year y' = days_before_year (y' - 1) + (if leap (y' - 1) then 366 else 365)"
    using days_before_year_Suc [of "y' - 1"] by simp
  show ?case
  proof (cases "y = y' - 1")
    case True
    with step show ?thesis by simp
  next
    case False
    with Suc.prems have "y < y' - 1" by simp
    then have "days_before_year y + 365 \<le> days_before_year (y' - 1)" by (rule Suc.hyps(1) [OF n])
    with step show ?thesis by simp
  qed
qed simp

lemma cycle_min:
  fixes k :: int
  assumes "0 < k" "0 \<le> r" "r \<le> 4 * k" "b = min 3 (r div k)" "r' = r - b * k"
  shows "0 \<le> b" "b \<le> 3" "0 \<le> r'" "b < 3 \<Longrightarrow> r' < k" "r' \<le> k"
proof -
  define q where "q = r div k"
  have q: "k * q \<le> r" "r < k * q + k" "0 \<le> q"
    using div_bounds [OF assms(1), of r] pos_imp_zdiv_nonneg_iff [OF assms(1), of r] assms(2)
    by (simp_all add: q_def)
  have b: "b = min 3 q" using assms(4) by (simp add: q_def)
  then show "0 \<le> b" "b \<le> 3" using q(3) by auto
  show "0 \<le> r'" "b < 3 \<Longrightarrow> r' < k" "r' \<le> k"
  proof -
    consider "q < 3" "b = q" | "3 \<le> q" "b = 3" using b by linarith
    then have "0 \<le> r' \<and> (b < 3 \<longrightarrow> r' < k) \<and> r' \<le> k"
    proof cases
      case 1
      with q(1,2) assms(5) show ?thesis by (simp add: mult.commute)
    next
      case 2
      have "k * 3 \<le> k * q" using 2(1) assms(1) by simp
      with 2 q(1) assms(3,5) show ?thesis by simp
    qed
    then show "0 \<le> r'" "b < 3 \<Longrightarrow> r' < k" "r' \<le> k" by auto
  qed
qed

lemma year_yday_correct:
  assumes "year_yday z = (y, yd)"
  shows "days_before_year y + yd = z + 719162" and "0 \<le> yd" and "yd < (if leap y then 366 else 365)"
proof -
  define n a r where "n = z + 719162" and "a = n div 146097" and "r = n mod 146097"
  define b r2 where "b = min 3 (r div 36524)" and "r2 = r - b * 36524"
  define c r3 where "c = r2 div 1461" and "r3 = r2 mod 1461"
  define e where "e = min 3 (r3 div 365)"
  note defs = n_def a_def r_def b_def r2_def c_def r3_def e_def
  have yy: "y = 400 * a + 100 * b + 4 * c + e + 1" "yd = r3 - e * 365"
    using assms [unfolded year_yday_def Let_def, folded defs] by simp_all
  have r: "0 \<le> r" "r < 146097" "n = 146097 * a + r"
    by (simp_all add: a_def r_def)
  have b: "0 \<le> b" "b \<le> 3" "0 \<le> r2" "b < 3 \<Longrightarrow> r2 < 36524" "r2 \<le> 36524"
    by (rule cycle_min [OF _ r(1) _ b_def r2_def], use r(2) in auto)+
  have c: "0 \<le> c" "c \<le> 24" "0 \<le> r3" "r3 \<le> 1460" "r2 = 1461 * c + r3"
  proof -
    have "1461 * c \<le> r2" using div_bounds [of 1461 r2] by (simp add: c_def)
    with b(5) show "c \<le> 24" by linarith
    show "0 \<le> c" using b(3) by (simp add: c_def pos_imp_zdiv_nonneg_iff)
    have "r3 < 1461" unfolding r3_def by (rule pos_mod_bound) simp
    then show "r3 \<le> 1460" by simp
    show "0 \<le> r3" unfolding r3_def by (rule pos_mod_sign) simp
    show "r2 = 1461 * c + r3" unfolding r3_def c_def by simp
  qed
  have e: "0 \<le> e" "e \<le> 3" "0 \<le> yd" "e < 3 \<Longrightarrow> yd < 365" "yd \<le> 365"
    by (rule cycle_min [OF _ c(3) _ e_def yy(2)], use c(4) in auto)+
  have dby: "days_before_year y = 146097 * a + 36524 * b + 1461 * c + 365 * e"
    unfolding yy(1) using b c e by (intro days_before_year_cycles) auto
  show sum: "days_before_year y + yd = z + 719162"
    using dby r(3) c(5) yy(2) by (simp add: r2_def n_def)
  show "0 \<le> yd" by (rule e(3))
  show "yd < (if leap y then 366 else 365)"
  proof (cases "leap y")
    case True
    with e(5) show ?thesis by simp
  next
    case False
    show ?thesis
    proof (rule ccontr)
      assume "\<not> ?thesis"
      with False have yd: "365 \<le> yd" by simp
      with e(2,4) have e3: "e = 3" by (cases "e < 3") auto
      then have "r3 = 1460" using yd e(5) yy(2) by linarith
      then have "c = 24 \<longrightarrow> r2 = 36524" using c(5) by simp
      then have "c = 24 \<longrightarrow> b = 3" using b(2,4) by (cases "b < 3") auto
      moreover have "\<not> (4 dvd y \<and> (\<not> 100 dvd y \<or> 400 dvd y))"
        using False by (simp add: leap_def)
      moreover have "y = 4 * (100 * a + 25 * b + c + 1)" using yy(1) e3 by simp
      then have "4 dvd y" by simp
      moreover have "\<not> 100 dvd y" if "c \<noteq> 24"
      proof
        assume "100 dvd y"
        then have "100 dvd y - 100 * (4 * a + b)" by simp
        also have "y - 100 * (4 * a + b) = 4 * (c + 1)" using yy(1) e3 by simp
        finally have "100 \<le> 4 * (c + 1)" using c(1) by (intro zdvd_imp_le) auto
        with c(2) that show False by simp
      qed
      moreover have "400 dvd y" if "c = 24" "b = 3"
      proof -
        have "y = 400 * (a + 1)" using yy(1) e3 that by simp
        then show ?thesis by simp
      qed
      ultimately show False by blast
    qed
  qed
qed

lemma find_month_correct:
  assumes "0 \<le> d" "d < sum_list ls" "find_month m ls d = (m', d')" "\<forall>l\<in>set ls. 0 < l"
  shows "\<exists>i < length ls. m' = m + int i \<and> 1 \<le> d' \<and> d' \<le> ls ! i \<and> sum_list (take i ls) + d' = d + 1"
  using assms
proof (induction m ls d rule: find_month.induct)
  case (2 m l ls d)
  show ?case
  proof (cases "d < l")
    case True
    with 2(2-4) show ?thesis by (intro exI [of _ 0]) auto
  next
    case False
    have "\<exists>i<length ls. m' = m + 1 + int i \<and> 1 \<le> d' \<and> d' \<le> ls ! i \<and> sum_list (take i ls) + d' = d - l + 1"
      using 2 False by (intro "2.IH") auto
    then obtain i where "i < length ls" "m' = m + 1 + int i" "1 \<le> d'" "d' \<le> ls ! i"
      "sum_list (take i ls) + d' = d - l + 1" by blast
    then show ?thesis by (intro exI [of _ "Suc i"]) auto
  qed
qed simp

lemma month_lengths_props:
  "length (month_lengths y) = 12" "sum_list (month_lengths y) = (if leap y then 366 else 365)"
  "\<forall>l\<in>set (month_lengths y). 0 < l"
  by (simp_all add: month_lengths_def)

lemma month_length_range:
  assumes "1 \<le> m" "m \<le> 12"
  shows "28 \<le> month_lengths y ! nat (m - 1)" "month_lengths y ! nat (m - 1) \<le> 31"
proof -
  have "nat (m - 1) < length (month_lengths y)" using assms by (simp add: month_lengths_props)
  then have "month_lengths y ! nat (m - 1) \<in> set (month_lengths y)" by (rule nth_mem)
  moreover have "\<forall>l\<in>set (month_lengths y). 28 \<le> l \<and> l \<le> 31" by (simp add: month_lengths_def)
  ultimately show "28 \<le> month_lengths y ! nat (m - 1)" "month_lengths y ! nat (m - 1) \<le> 31" by blast+
qed

lemma civil_of_day_correct:
  assumes "civil_of_day z = (y, m, d)"
  shows "days_of_civil y m d = z" "1 \<le> m" "m \<le> 12" "1 \<le> d" "d \<le> month_lengths y ! nat (m - 1)"
proof -
  obtain yd where yd: "year_yday z = (y, yd)" "find_month 1 (month_lengths y) yd = (m, d)"
    using assms by (auto simp: civil_of_day_def split: prod.splits)
  note c = year_yday_correct [OF yd(1)]
  obtain i where i: "i < 12" "m = 1 + int i" "1 \<le> d" "d \<le> month_lengths y ! i"
    "sum_list (take i (month_lengths y)) + d = yd + 1"
    using find_month_correct [OF c(2) _ yd(2)] c(3) by (auto simp: month_lengths_props)
  show "days_of_civil y m d = z"
    using i c(1) by (simp add: days_of_civil_def days_before_month_def)
  show "1 \<le> m" "m \<le> 12" "1 \<le> d" "d \<le> month_lengths y ! nat (m - 1)"
    using i by auto
qed

lemma year_yday_unique:
  assumes "days_before_year y \<le> z + 719162" "z + 719162 < days_before_year y + (if leap y then 366 else 365)"
  shows "year_yday z = (y, z + 719162 - days_before_year y)"
proof -
  obtain y' yd where e: "year_yday z = (y', yd)" by (cases "year_yday z")
  note c = year_yday_correct [OF e]
  have "days_before_year (y + 1) = days_before_year y + (if leap y then 366 else 365)"
    "days_before_year (y' + 1) = days_before_year y' + (if leap y' then 366 else 365)"
    by (rule days_before_year_Suc)+
  with assms c have b: "z + 719162 < days_before_year (y + 1)" "z + 719162 < days_before_year (y' + 1)"
    "days_before_year y' \<le> z + 719162"
    by linarith+
  have False if "y < y'"
    using days_before_year_less [of "y + 1" y'] that b by (cases "y + 1 = y'") auto
  moreover have False if "y' < y"
    using days_before_year_less [of "y' + 1" y] that b assms(1) by (cases "y' + 1 = y") auto
  ultimately have "y' = y" by (cases y y' rule: linorder_cases) auto
  with e c(1) show ?thesis by simp
qed

lemma find_month_at:
  assumes "i < length ls" "1 \<le> d" "d \<le> ls ! i" "\<forall>l\<in>set ls. 0 < l"
  shows "find_month m ls (sum_list (take i ls) + d - 1) = (m + int i, d)"
  using assms
proof (induction ls arbitrary: i m)
  case (Cons l ls)
  show ?case
  proof (cases i)
    case 0
    with Cons.prems show ?thesis by simp
  next
    case (Suc j)
    have "0 \<le> sum_list (take j ls)"
      using Cons.prems(4) by (intro sum_list_nonneg) (auto dest: in_set_takeD intro: less_imp_le)
    with Suc Cons show ?thesis by (simp add: algebra_simps)
  qed
qed simp

text \<open>A valid civil date is the date of its own day.\<close>

lemma civil_of_days_of_civil:
  assumes "1 \<le> m" "m \<le> 12" "1 \<le> d" "d \<le> month_lengths y ! nat (m - 1)"
  shows "civil_of_day (days_of_civil y m d) = (y, m, d)"
proof -
  define i where "i = nat (m - 1)"
  have i: "i < length (month_lengths y)" "m = 1 + int i" "d \<le> month_lengths y ! i"
    using assms by (auto simp: i_def month_lengths_props)
  define yd where "yd = sum_list (take i (month_lengths y)) + d - 1"
  have le: "0 \<le> sum_list (take i (month_lengths y))" "0 \<le> sum_list (drop (Suc i) (month_lengths y))"
    by (rule sum_list_nonneg; use month_lengths_props(3) [of y] in \<open>auto dest!: in_set_takeD in_set_dropD\<close>)+
  have "month_lengths y = take i (month_lengths y) @ month_lengths y ! i # drop (Suc i) (month_lengths y)"
    using i(1) by (simp add: id_take_nth_drop)
  then have "sum_list (month_lengths y) = sum_list (take i (month_lengths y)) + month_lengths y ! i
      + sum_list (drop (Suc i) (month_lengths y))"
    by (metis add.assoc sum_list.Cons sum_list_append)
  then have yd: "0 \<le> yd" "yd < (if leap y then 366 else 365)"
    using le i(3) assms(3) month_lengths_props(2) [of y] by (auto simp: yd_def)
  have z: "days_of_civil y m d + 719162 = days_before_year y + yd"
    by (simp add: days_of_civil_def days_before_month_def yd_def i_def)
  then have "year_yday (days_of_civil y m d) = (y, yd)"
    using yd year_yday_unique [of y "days_of_civil y m d"] by simp
  moreover have "find_month 1 (month_lengths y) yd = (m, d)"
    unfolding yd_def i(2) using find_month_at [OF i(1) assms(3) i(3) month_lengths_props(3)] by simp
  ultimately show ?thesis by (simp add: civil_of_day_def)
qed

subsection \<open>Rounding an instant down in its location\<close>

text \<open>Local nanoseconds: what the wall clock of the location shows.\<close>

definition t_local :: "gotime \<Rightarrow> int" where
  "t_local t = t_ns t + t_off t * Second"

lemma local_seconds: "t_Unix t + t_off t = t_local t div Second"
  by (simp add: t_Unix_def t_local_def)

lemma t_day_local: "t_day t = t_local t div 86400000000000"
  by (simp add: t_day_def local_seconds flip: zdiv_zmult2_eq)

lemma date_of_self:
  "time_Date (t_Year t) (t_Month t) (t_Day t - k) h mi s ns (t_off t) =
     \<lparr>t_ns = ((t_day t - k) * 86400 + h * 3600 + mi * 60 + s - t_off t) * Second + ns, t_off = t_off t\<rparr>"
proof -
  obtain y m d where c: "civil_of_day (t_day t) = (y, m, d)" by (cases "civil_of_day (t_day t)")
  note p = civil_of_day_correct [OF c]
  have "(m - 1) div 12 = 0" "(m - 1) mod 12 = m - 1"
    using p(2,3) by (auto intro: div_pos_pos_trivial mod_pos_pos_trivial)
  moreover have "days_of_civil y m (d - k) = t_day t - k"
    using p(1) by (simp add: days_of_civil_def)
  ultimately show ?thesis
    by (simp add: time_Date_def t_Year_def t_Month_def t_Day_def c)
qed

lemma floor_refine:
  fixes S a b :: int
  assumes "0 < a" "a dvd b"
  shows "S div b * b + S mod b div a * a = S div a * a"
proof -
  have "S mod b mod a = S mod a" using assms(2) by (rule mod_mod_cancel)
  then show ?thesis
    using div_mult_mod_eq [of S b] div_mult_mod_eq [of "S mod b" a] div_mult_mod_eq [of S a] by linarith
qed

lemma div_div_mult:
  fixes a m x :: int
  shows "0 < a \<Longrightarrow> x div m div a = x div (a * m)"
  using zdiv_zmult2_eq [of a x m] by (simp add: mult.commute)

lemma floor_seconds: "0 < a \<Longrightarrow> (L div Second div a * a) * Second = L - L mod (a * Second)"
proof -
  assume "0 < a"
  then have "L div Second div a = L div (a * Second)"
    by (rule div_div_mult)
  then show ?thesis
    using div_mult_mod_eq [of L "a * Second"] by (simp add: algebra_simps)
qed

text \<open>The wall-clock floor that every fixed period of the program computes through \<open>time.Date\<close>.\<close>

definition wall_floor :: "int \<Rightarrow> gotime \<Rightarrow> gotime" where
  "wall_floor p t = t\<lparr>t_ns := t_ns t - t_local t mod (p * Second)\<rparr>"

lemma gotime_eqI: "t_ns t = t_ns u \<Longrightarrow> t_off t = t_off u \<Longrightarrow> t = (u :: gotime)"
  by simp

lemma wall_floor_hours:
  assumes "0 < k" "k dvd 24"
  shows "time_Date (t_Year t) (t_Month t) (t_Day t) (t_Hour t div k * k) 0 0 0 (t_off t) = wall_floor (k * 3600) t"
proof (rule gotime_eqI)
  have "k * 3600 dvd 86400" using assms(2) mult_dvd_mono [of k 24 3600 3600] by simp
  moreover have "t_Hour t div k * k * 3600 = t_sod t div (k * 3600) * (k * 3600)"
    using assms(1) by (simp add: t_Hour_def div_div_mult)
  ultimately have "t_day t * 86400 + t_Hour t div k * k * 3600 = t_local t div Second div (k * 3600) * (k * 3600)"
    using floor_refine [of "k * 3600" 86400 "t_local t div Second"] assms(1)
    by (simp add: t_day_def t_sod_def local_seconds)
  then have "(t_day t * 86400 + t_Hour t div k * k * 3600) * Second = t_local t - t_local t mod (k * 3600 * Second)"
    using floor_seconds [of "k * 3600" "t_local t"] assms(1) by simp
  then show "t_ns (time_Date (t_Year t) (t_Month t) (t_Day t) (t_Hour t div k * k) 0 0 0 (t_off t)) =
      t_ns (wall_floor (k * 3600) t)"
    using date_of_self [of t 0] by (simp add: wall_floor_def t_local_def algebra_simps)
qed (use date_of_self [of t 0] in \<open>simp add: wall_floor_def\<close>)

lemma wall_floor_minutes:
  assumes "0 < k" "k dvd 60"
  shows "time_Date (t_Year t) (t_Month t) (t_Day t) (t_Hour t) (t_Minute t div k * k) 0 0 (t_off t) = wall_floor (k * 60) t"
proof (rule gotime_eqI)
  have d: "k * 60 dvd 3600" using assms(2) mult_dvd_mono [of k 60 60 60] by simp
  have "t_Minute t div k * k * 60 = t_sod t mod 3600 div (k * 60) * (k * 60)"
    using assms(1) by (simp add: t_Minute_def div_div_mult)
  then have "t_Hour t * 3600 + t_Minute t div k * k * 60 = t_sod t div (k * 60) * (k * 60)"
    using floor_refine [of "k * 60" 3600 "t_sod t"] assms(1) d by (simp add: t_Hour_def)
  moreover have "k * 60 dvd 86400" using d by (rule dvd_trans) simp
  ultimately have "t_day t * 86400 + t_Hour t * 3600 + t_Minute t div k * k * 60
      = t_local t div Second div (k * 60) * (k * 60)"
    using floor_refine [of "k * 60" 86400 "t_local t div Second"] assms(1)
    by (simp add: t_day_def t_sod_def local_seconds)
  then have "(t_day t * 86400 + t_Hour t * 3600 + t_Minute t div k * k * 60) * Second
      = t_local t - t_local t mod (k * 60 * Second)"
    using floor_seconds [of "k * 60" "t_local t"] assms(1) by simp
  then show "t_ns (time_Date (t_Year t) (t_Month t) (t_Day t) (t_Hour t) (t_Minute t div k * k) 0 0 (t_off t)) =
      t_ns (wall_floor (k * 60) t)"
    using date_of_self [of t 0] by (simp add: wall_floor_def t_local_def algebra_simps)
qed (use date_of_self [of t 0] in \<open>simp add: wall_floor_def\<close>)

text \<open>
  The general form: the start of the period of length \<open>P\<close> an instant lies in, where the periods
  of the wall clock are counted from \<open>s\<close> nanoseconds before the local epoch.
\<close>

definition floor_from :: "int \<Rightarrow> int \<Rightarrow> gotime \<Rightarrow> gotime" where
  "floor_from s P t = t\<lparr>t_ns := t_ns t - (t_local t + s) mod P\<rparr>"

lemma wall_floor_from: "wall_floor p = floor_from 0 (p * Second)"
  by (rule ext) (simp add: wall_floor_def floor_from_def)

lemma floor_from_bounds:
  assumes "0 < P"
  shows "t_ns (floor_from s P t) \<le> t_ns t" "t_ns t < t_ns (floor_from s P t) + P"
    "t_off (floor_from s P t) = t_off t"
proof -
  have "0 \<le> (t_local t + s) mod P" "(t_local t + s) mod P < P" using assms by simp_all
  then show "t_ns (floor_from s P t) \<le> t_ns t" "t_ns t < t_ns (floor_from s P t) + P"
    "t_off (floor_from s P t) = t_off t"
    by (simp_all add: floor_from_def)
qed

text \<open>Two instants of one location have one floor exactly when they lie in one period.\<close>

lemma floor_from_unique:
  assumes "0 < P" "t_off u = t_off t" "t_ns (floor_from s P t) \<le> t_ns u" "t_ns u < t_ns (floor_from s P t) + P"
  shows "floor_from s P u = floor_from s P t"
proof -
  define q where "q = (t_local t + s) div P"
  have "t_local t + s - (t_local t + s) mod P = P * q"
    by (simp add: q_def minus_mod_eq_mult_div)
  then have f: "t_ns (floor_from s P t) = P * q - t_off t * Second - s"
    by (simp add: floor_from_def t_local_def)
  have u: "P * q \<le> t_local u + s" "t_local u + s < P * q + P"
    using assms(2-4) f by (simp_all add: t_local_def)
  then have "(t_local u + s) div P = q"
    using assms(1) by (intro int_div_pos_eq [where r = "t_local u + s - P * q"]) auto
  then have "t_local u + s - (t_local u + s) mod P = P * q"
    by (simp add: minus_mod_eq_mult_div)
  then have "t_ns (floor_from s P u) = t_ns (floor_from s P t)"
    using f assms(2) by (simp add: floor_from_def t_local_def)
  then show ?thesis using assms(2) by (intro gotime_eqI) (simp_all add: floor_from_def)
qed

lemma floor_from_idem: "0 < P \<Longrightarrow> floor_from s P (floor_from s P t) = floor_from s P t"
  using floor_from_unique [of P "floor_from s P t" t s] floor_from_bounds(3) [of P s t] by simp

end
