(* ===== verification/Models.thy ===== *)
theory Models
  imports Decimal GoTime
begin

text \<open>
  The data model of \<open>internal/models\<close>: candles, prices, mark prices, the response form of a
  candle, and the table of interval durations with the truncation of an instant to an interval.
  Every structure that holds a \<open>decimal.Decimal\<close> is polymorphic in the decimal type.
\<close>

record 'd candle =
  c_Symbol :: string
  c_Interval :: string
  c_OpenTime :: gotime
  c_CloseTime :: gotime
  c_Open :: 'd
  c_High :: 'd
  c_Low :: 'd
  c_Close :: 'd
  c_Volume :: 'd
  c_QuoteVolume :: 'd
  c_TradeCount :: int
  c_Source :: string
  c_IsClosed :: bool
  c_ContractType :: string
  c_CreatedAt :: gotime
  c_UpdatedAt :: gotime
  c_TakerBuyBaseVolume :: 'd
  c_TakerBuyQuoteVolume :: 'd

record candle_response =
  r_Symbol :: string
  r_Interval :: string
  r_OpenTime :: int
  r_CloseTime :: int
  r_Open :: string
  r_High :: string
  r_Low :: string
  r_Close :: string
  r_Volume :: string
  r_QuoteVolume :: string
  r_TradeCount :: int
  r_IsClosed :: bool

definition ToResponse :: "'d decimal_ops \<Rightarrow> 'd candle \<Rightarrow> candle_response" where
  "ToResponse D c = \<lparr>
     r_Symbol = c_Symbol c, r_Interval = c_Interval c,
     r_OpenTime = t_UnixMilli (c_OpenTime c), r_CloseTime = t_UnixMilli (c_CloseTime c),
     r_Open = d_String D (c_Open c), r_High = d_String D (c_High c),
     r_Low = d_String D (c_Low c), r_Close = d_String D (c_Close c),
     r_Volume = d_String D (c_Volume c), r_QuoteVolume = d_String D (c_QuoteVolume c),
     r_TradeCount = c_TradeCount c, r_IsClosed = c_IsClosed c\<rparr>"

definition IntervalToDuration :: "string \<Rightarrow> int" where
  "IntervalToDuration interval =
     (if interval = ''1s'' then 1 * Second
      else if interval = ''1m'' then 1 * Minute_d
      else if interval = ''3m'' then 3 * Minute_d
      else if interval = ''5m'' then 5 * Minute_d
      else if interval = ''15m'' then 15 * Minute_d
      else if interval = ''30m'' then 30 * Minute_d
      else if interval = ''1h'' then 1 * Hour_d
      else if interval = ''2h'' then 2 * Hour_d
      else if interval = ''4h'' then 4 * Hour_d
      else if interval = ''6h'' then 6 * Hour_d
      else if interval = ''8h'' then 8 * Hour_d
      else if interval = ''12h'' then 12 * Hour_d
      else if interval = ''1d'' then 24 * Hour_d
      else if interval = ''3d'' then 72 * Hour_d
      else if interval = ''1w'' then 168 * Hour_d
      else if interval = ''1M'' then 720 * Hour_d
      else 1 * Minute_d)"

definition TruncateToInterval :: "gotime \<Rightarrow> string \<Rightarrow> gotime" where
  "TruncateToInterval t interval = t_Truncate t (IntervalToDuration interval)"

definition ValidIntervals :: "string list" where
  "ValidIntervals =
     [''1s'', ''1m'', ''3m'', ''5m'', ''15m'', ''30m'',
      ''1h'', ''2h'', ''4h'', ''6h'', ''8h'', ''12h'',
      ''1d'', ''3d'', ''1w'', ''1M'']"

record 'd price =
  p_Symbol :: string
  p_LastPrice :: 'd
  p_PriceChange24h :: 'd
  p_PriceChange24P :: 'd
  p_High24h :: 'd
  p_Low24h :: 'd
  p_Volume24h :: 'd
  p_QuoteVolume24h :: 'd
  p_UpdatedAt :: gotime

text \<open>A \<open>models.Price\<close> literal that sets only the symbol, the last price and the time.\<close>

definition basic_price :: "'d decimal_ops \<Rightarrow> string \<Rightarrow> 'd \<Rightarrow> gotime \<Rightarrow> 'd price" where
  "basic_price D symb px ts = \<lparr>
     p_Symbol = symb, p_LastPrice = px, p_PriceChange24h = d_Zero D, p_PriceChange24P = d_Zero D,
     p_High24h = d_Zero D, p_Low24h = d_Zero D, p_Volume24h = d_Zero D,
     p_QuoteVolume24h = d_Zero D, p_UpdatedAt = ts\<rparr>"

record 'd mark_price =
  mp_Symbol :: string
  mp_MarkPrice :: 'd
  mp_IndexPrice :: 'd
  mp_LastPrice :: 'd
  mp_FundingBasis :: 'd
  mp_EstimatedFundingRate :: 'd
  mp_NextFundingTime :: gotime
  mp_Timestamp :: gotime

lemma IntervalToDuration_pos: "0 < IntervalToDuration i"
  by (simp add: IntervalToDuration_def)

lemma t_Truncate_bounds:
  assumes "0 < d"
  shows "t_ns (t_Truncate t d) \<le> t_ns t" "t_ns t < t_ns (t_Truncate t d) + d"
    "d dvd t_ns (t_Truncate t d) - t_ns zero_time" "t_off (t_Truncate t d) = t_off t"
proof -
  define x where "x = t_ns t - t_ns zero_time"
  have e: "t_ns (t_Truncate t d) = t_ns t - x mod d" "t_off (t_Truncate t d) = t_off t"
    using assms by (simp_all add: t_Truncate_def t_Add_def x_def)
  have "0 \<le> x mod d" "x mod d < d" using assms by simp_all
  with e show "t_ns (t_Truncate t d) \<le> t_ns t" "t_ns t < t_ns (t_Truncate t d) + d" by simp_all
  have "t_ns (t_Truncate t d) - t_ns zero_time = x - x mod d" using e by (simp add: x_def)
  then show "d dvd t_ns (t_Truncate t d) - t_ns zero_time" by (simp add: dvd_minus_mod)
  show "t_off (t_Truncate t d) = t_off t" by (rule e)
qed

text \<open>Truncating twice to one duration is truncating once.\<close>

lemma t_Truncate_idem: "t_Truncate (t_Truncate t d) d = t_Truncate t d"
proof (cases "0 < d")
  case True
  then have "(t_ns (t_Truncate t d) - t_ns zero_time) mod d = 0"
    using t_Truncate_bounds(3) by (simp add: dvd_eq_mod_eq_0)
  with True show ?thesis by (simp add: t_Truncate_def [of "t_Truncate t d"] t_Add_def)
qed (simp add: t_Truncate_def)

lemma ValidIntervals_sorted: "sorted_wrt (<) (map IntervalToDuration ValidIntervals)"
  by (simp add: ValidIntervals_def IntervalToDuration_def)

text \<open>
  Truncation to an interval is sound: for every instant and every interval string (known or
  not), the result is at most the instant, less than one interval before it, a whole number of
  intervals after the zero time, in the same location, and truncating again changes nothing.
\<close>

theorem TruncateToInterval_sound:
  "let u = TruncateToInterval t interval; d = IntervalToDuration interval in
    t_ns u \<le> t_ns t \<and> t_ns t < t_ns u + d \<and> d dvd t_ns u - t_ns zero_time \<and>
    t_off u = t_off t \<and> TruncateToInterval u interval = u"
  using t_Truncate_bounds [OF IntervalToDuration_pos [of interval], of t] t_Truncate_idem
  unfolding TruncateToInterval_def Let_def by blast

end
