(* ===== verification/Intervals.thy ===== *)
theory Intervals
  imports Models
begin

text \<open>
  The helper functions at the end of \<open>interval_aggregator.go\<close>: the open time of the interval an
  instant lies in, the duration of an interval and the number of one-minute candles it holds, and
  the second copy of the duration table in \<open>exchange_handlers.go\<close>. The theorems say that the open
  time is the start of the bucket the instant lies in for every interval of fixed length, what it
  is for the calendar month, and that the three duration tables of the program agree.
\<close>

definition getIntervalOpenTime :: "gotime \<Rightarrow> string \<Rightarrow> gotime" where
  "getIntervalOpenTime t interval =
     (if interval = ''3m'' then
        (let m = t_Minute t div 3 * 3 in time_Date (t_Year t) (t_Month t) (t_Day t) (t_Hour t) m 0 0 (t_off t))
      else if interval = ''5m'' then
        (let m = t_Minute t div 5 * 5 in time_Date (t_Year t) (t_Month t) (t_Day t) (t_Hour t) m 0 0 (t_off t))
      else if interval = ''15m'' then
        (let m = t_Minute t div 15 * 15 in time_Date (t_Year t) (t_Month t) (t_Day t) (t_Hour t) m 0 0 (t_off t))
      else if interval = ''30m'' then
        (let m = t_Minute t div 30 * 30 in time_Date (t_Year t) (t_Month t) (t_Day t) (t_Hour t) m 0 0 (t_off t))
      else if interval = ''1h'' then
        time_Date (t_Year t) (t_Month t) (t_Day t) (t_Hour t) 0 0 0 (t_off t)
      else if interval = ''2h'' then
        (let h = t_Hour t div 2 * 2 in time_Date (t_Year t) (t_Month t) (t_Day t) h 0 0 0 (t_off t))
      else if interval = ''4h'' then
        (let h = t_Hour t div 4 * 4 in time_Date (t_Year t) (t_Month t) (t_Day t) h 0 0 0 (t_off t))
      else if interval = ''6h'' then
        (let h = t_Hour t div 6 * 6 in time_Date (t_Year t) (t_Month t) (t_Day t) h 0 0 0 (t_off t))
      else if interval = ''8h'' then
        (let h = t_Hour t div 8 * 8 in time_Date (t_Year t) (t_Month t) (t_Day t) h 0 0 0 (t_off t))
      else if interval = ''12h'' then
        (let h = t_Hour t div 12 * 12 in time_Date (t_Year t) (t_Month t) (t_Day t) h 0 0 0 (t_off t))
      else if interval = ''1d'' then
        time_Date (t_Year t) (t_Month t) (t_Day t) 0 0 0 0 (t_off t)
      else if interval = ''3d'' then
        (let daysSinceEpoch = t_Unix t sdiv 86400; alignedDay = daysSinceEpoch sdiv 3 * 3
         in t_UTC (time_Unix 0 (alignedDay * 86400) 0))
      else if interval = ''1w'' then
        (let weekday = t_Weekday t; weekday = (if weekday = 0 then 7 else weekday);
             daysBack = weekday - 1
         in time_Date (t_Year t) (t_Month t) (t_Day t - daysBack) 0 0 0 0 (t_off t))
      else if interval = ''1M'' then
        time_Date (t_Year t) (t_Month t) 1 0 0 0 0 (t_off t)
      else t)"

definition intervalToDuration :: "string \<Rightarrow> int" where
  "intervalToDuration interval =
     (if interval = ''1m'' then Minute_d
      else if interval = ''3m'' then 3 * Minute_d
      else if interval = ''5m'' then 5 * Minute_d
      else if interval = ''15m'' then 15 * Minute_d
      else if interval = ''30m'' then 30 * Minute_d
      else if interval = ''1h'' then Hour_d
      else if interval = ''2h'' then 2 * Hour_d
      else if interval = ''4h'' then 4 * Hour_d
      else if interval = ''6h'' then 6 * Hour_d
      else if interval = ''8h'' then 8 * Hour_d
      else if interval = ''12h'' then 12 * Hour_d
      else if interval = ''1d'' then 24 * Hour_d
      else if interval = ''3d'' then 72 * Hour_d
      else if interval = ''1w'' then 7 * 24 * Hour_d
      else if interval = ''1M'' then 30 * 24 * Hour_d
      else Minute_d)"

text \<open>The method of the same name of \<open>ExchangeAggregator\<close>, a copy of the table.\<close>

definition agg_intervalToDuration :: "string \<Rightarrow> int" where
  "agg_intervalToDuration interval =
     (if interval = ''1m'' then Minute_d
      else if interval = ''3m'' then 3 * Minute_d
      else if interval = ''5m'' then 5 * Minute_d
      else if interval = ''15m'' then 15 * Minute_d
      else if interval = ''30m'' then 30 * Minute_d
      else if interval = ''1h'' then Hour_d
      else if interval = ''2h'' then 2 * Hour_d
      else if interval = ''4h'' then 4 * Hour_d
      else if interval = ''6h'' then 6 * Hour_d
      else if interval = ''8h'' then 8 * Hour_d
      else if interval = ''12h'' then 12 * Hour_d
      else if interval = ''1d'' then 24 * Hour_d
      else if interval = ''3d'' then 72 * Hour_d
      else if interval = ''1w'' then 7 * 24 * Hour_d
      else if interval = ''1M'' then 30 * 24 * Hour_d
      else Minute_d)"

definition getExpected1mCount :: "string \<Rightarrow> int" where
  "getExpected1mCount interval =
     (if interval = ''3m'' then 3
      else if interval = ''5m'' then 5
      else if interval = ''15m'' then 15
      else if interval = ''30m'' then 30
      else if interval = ''1h'' then 60
      else if interval = ''2h'' then 120
      else if interval = ''4h'' then 240
      else if interval = ''6h'' then 360
      else if interval = ''8h'' then 480
      else if interval = ''12h'' then 720
      else if interval = ''1d'' then 1440
      else if interval = ''3d'' then 4320
      else if interval = ''1w'' then 10080
      else if interval = ''1M'' then 43200
      else 1)"

text \<open>The intervals the aggregator builds (the field \<open>intervals\<close> of \<open>IntervalAggregator\<close>).\<close>

definition agg_intervals :: "string list" where
  "agg_intervals = [''3m'', ''5m'', ''15m'', ''30m'', ''1h'', ''2h'', ''4h'', ''6h'', ''8h'', ''12h'',
     ''1d'', ''3d'', ''1w'', ''1M'']"

section \<open>The open time of each interval\<close>

abbreviation wall_intervals :: "(string \<times> int) list" where
  "wall_intervals \<equiv> [(''3m'', 180), (''5m'', 300), (''15m'', 900), (''30m'', 1800), (''1h'', 3600),
     (''2h'', 7200), (''4h'', 14400), (''6h'', 21600), (''8h'', 28800), (''12h'', 43200), (''1d'', 86400)]"

lemma open_1h: "getIntervalOpenTime t ''1h'' = wall_floor 3600 t"
  using wall_floor_hours [of 1 t] by (simp add: getIntervalOpenTime_def)

lemma open_1d: "getIntervalOpenTime t ''1d'' = wall_floor 86400 t"
proof -
  have "t_Hour t div 24 * 24 = 0"
    by (simp add: t_Hour_def t_sod_def div_div_mult div_pos_pos_trivial)
  then show ?thesis
    using wall_floor_hours [of 24 t] by (simp add: getIntervalOpenTime_def)
qed

lemma open_minutes:
  "getIntervalOpenTime t ''3m'' = wall_floor 180 t" "getIntervalOpenTime t ''5m'' = wall_floor 300 t"
  "getIntervalOpenTime t ''15m'' = wall_floor 900 t" "getIntervalOpenTime t ''30m'' = wall_floor 1800 t"
  using wall_floor_minutes [of 3 t] wall_floor_minutes [of 5 t] wall_floor_minutes [of 15 t]
    wall_floor_minutes [of 30 t]
  by (simp_all add: getIntervalOpenTime_def)

lemma open_hours:
  "getIntervalOpenTime t ''2h'' = wall_floor 7200 t" "getIntervalOpenTime t ''4h'' = wall_floor 14400 t"
  "getIntervalOpenTime t ''6h'' = wall_floor 21600 t" "getIntervalOpenTime t ''8h'' = wall_floor 28800 t"
  "getIntervalOpenTime t ''12h'' = wall_floor 43200 t"
  using wall_floor_hours [of 2 t] wall_floor_hours [of 4 t] wall_floor_hours [of 6 t]
    wall_floor_hours [of 8 t] wall_floor_hours [of 12 t]
  by (simp_all add: getIntervalOpenTime_def)

lemma wall_intervals_ok:
  "list_all (\<lambda>(i, p). getIntervalOpenTime t i = wall_floor p t \<and> intervalToDuration i = p * Second \<and> 0 < p)
     wall_intervals"
  by (simp add: open_minutes open_hours open_1h open_1d intervalToDuration_def)

lemma open_wall: "(i, p) \<in> set wall_intervals \<Longrightarrow> getIntervalOpenTime t i = wall_floor p t"
  and duration_wall: "(i, p) \<in> set wall_intervals \<Longrightarrow> intervalToDuration i = p * Second \<and> 0 < p"
  using wall_intervals_ok [of t] unfolding list_all_iff by blast+

text \<open>The week starts on the Monday on or before the day, at midnight of the location.\<close>

lemma open_1w:
  "getIntervalOpenTime t ''1w'' =
     \<lparr>t_ns = ((t_day t - (t_day t + 3) mod 7) * 86400 - t_off t) * Second, t_off = t_off t\<rparr>"
proof -
  have "(if t_Weekday t = 0 then 7 else t_Weekday t) - 1 = (t_day t + 3) mod 7"
  proof -
    define r where "r = (t_day t + 3) mod 7"
    have r: "0 \<le> r" "r < 7" by (simp_all add: r_def)
    have "(t_day t + 4) mod 7 = (r + 1) mod 7"
      unfolding r_def by (simp add: mod_add_left_eq add.assoc)
    moreover have "(r + 1) mod 7 = (if r = 6 then 0 else r + 1)"
      using r by (auto intro: mod_pos_pos_trivial)
    ultimately show ?thesis using r unfolding t_Weekday_def r_def [symmetric] by simp
  qed
  then show ?thesis
    using date_of_self [of t "(t_day t + 3) mod 7"] by (simp add: getIntervalOpenTime_def)
qed

lemma open_3d:
  assumes "0 \<le> t_Unix t"
  shows "getIntervalOpenTime t ''3d'' = wall_floor 259200 (t_UTC t)"
proof -
  have "t_Unix t sdiv 86400 sdiv 3 * 3 * 86400 = t_Unix t div 259200 * 259200"
    using assms by (simp add: sdiv_nonneg div_div_mult pos_imp_zdiv_nonneg_iff)
  moreover have "t_Unix t div 259200 * 259200 * Second = t_ns t - t_ns t mod (259200 * Second)"
    unfolding t_Unix_def by (rule floor_seconds) simp
  ultimately show ?thesis
    by (intro gotime_eqI)
      (simp_all add: getIntervalOpenTime_def t_UTC_def time_Unix_def wall_floor_def t_local_def)
qed

lemma open_1w_floor: "getIntervalOpenTime t ''1w'' = floor_from (259200 * Second) (604800 * Second) t"
proof (rule gotime_eqI)
  define S where "S = t_local t div Second"
  have "t_day t + 3 = (S + 259200) div 86400"
    by (simp add: t_day_def local_seconds S_def)
  moreover have "(t_day t + 3) - (t_day t + 3) mod 7 = (t_day t + 3) div 7 * 7"
    by (simp add: minus_mod_eq_div_mult)
  ultimately have "(t_day t - (t_day t + 3) mod 7) * 86400 + 259200 = (S + 259200) div 604800 * 604800"
    by (simp add: div_div_mult)
  moreover have "S + 259200 = (t_local t + 259200 * Second) div Second"
    by (simp add: S_def)
  ultimately have "((t_day t - (t_day t + 3) mod 7) * 86400 + 259200) * Second =
      (t_local t + 259200 * Second) - (t_local t + 259200 * Second) mod (604800 * Second)"
    using floor_seconds [of 604800 "t_local t + 259200 * Second"] by simp
  then show "t_ns (getIntervalOpenTime t ''1w'') = t_ns (floor_from (259200 * Second) (604800 * Second) t)"
    by (simp add: open_1w floor_from_def t_local_def algebra_simps)
qed (simp add: open_1w floor_from_def)

text \<open>The calendar month: midnight of the first day of the month the instant lies in.\<close>

lemma open_1M:
  "getIntervalOpenTime t ''1M'' =
     \<lparr>t_ns = ((t_day t - (t_Day t - 1)) * 86400 - t_off t) * Second, t_off = t_off t\<rparr>"
  using date_of_self [of t "t_Day t - 1"] by (simp add: getIntervalOpenTime_def)


section \<open>Every interval of fixed length is a partition of time\<close>

text \<open>
  The intervals of fixed length, each with the origin and the length of its periods; the three-day
  interval is counted in UTC, the others on the wall clock of the instant.
\<close>

definition period_of :: "string \<Rightarrow> (int \<times> int) option" where
  "period_of i =
     (if i = ''1w'' then Some (259200 * Second, 604800 * Second)
      else if i = ''3d'' then Some (0, 259200 * Second)
      else map_option (\<lambda>p. (0, p * Second)) (map_of wall_intervals i))"

definition home_zone :: "string \<Rightarrow> gotime \<Rightarrow> gotime" where
  "home_zone i t = (if i = ''3d'' then t_UTC t else t)"

lemma period_of_open:
  assumes "period_of i = Some (s, P)" "0 \<le> t_Unix t"
  shows "getIntervalOpenTime t i = floor_from s P (home_zone i t)" "P = intervalToDuration i" "0 < P"
proof -
  consider "i = ''1w''" | "i = ''3d''" | p where "(i, p) \<in> set wall_intervals" "s = 0" "P = p * Second" "i \<noteq> ''3d''"
    using assms(1) unfolding period_of_def by (auto split: if_splits dest!: map_of_SomeD)
  then have "getIntervalOpenTime t i = floor_from s P (home_zone i t) \<and> P = intervalToDuration i \<and> 0 < P"
  proof cases
    case 1
    with assms(1) show ?thesis
      by (simp add: period_of_def home_zone_def open_1w_floor intervalToDuration_def)
  next
    case 2
    with assms show ?thesis
      by (simp add: period_of_def home_zone_def open_3d wall_floor_from intervalToDuration_def)
  next
    case 3
    with open_wall [OF 3(1)] duration_wall [OF 3(1)] show ?thesis
      by (simp add: home_zone_def wall_floor_from)
  qed
  then show "getIntervalOpenTime t i = floor_from s P (home_zone i t)" "P = intervalToDuration i" "0 < P"
    by blast+
qed

lemma t_Unix_nonneg: "0 \<le> t_ns t \<Longrightarrow> 0 \<le> t_Unix t"
  by (simp add: t_Unix_def pos_imp_zdiv_nonneg_iff)

text \<open>
  C11. The open time of an interval of fixed length (every aggregated interval but the month) is the
  start of the bucket the instant lies in: it is not after the instant, the instant is less than
  one interval later, and every other instant of that bucket (in the same location) has the same
  open time. So the intervals of one length partition time, and a one-minute candle belongs to
  exactly one candle of each interval.
\<close>

theorem getIntervalOpenTime_bucket:
  assumes "i \<in> set agg_intervals" "i \<noteq> ''1M''" "0 \<le> t_Unix t"
  shows "t_ns (getIntervalOpenTime t i) \<le> t_ns t \<and>
    t_ns t < t_ns (getIntervalOpenTime t i) + intervalToDuration i \<and>
    (\<forall>u. 0 \<le> t_Unix u \<and> t_off u = t_off t \<and> t_ns (getIntervalOpenTime t i) \<le> t_ns u \<and>
      t_ns u < t_ns (getIntervalOpenTime t i) + intervalToDuration i \<longrightarrow>
      getIntervalOpenTime u i = getIntervalOpenTime t i)"
proof (intro conjI allI impI)
  obtain s P where p: "period_of i = Some (s, P)"
    using assms(1,2) unfolding agg_intervals_def by (auto simp: period_of_def)
  note o = period_of_open [OF p assms(3)]
  have z: "t_ns (home_zone i t') = t_ns t'" "t_off u = t_off t \<Longrightarrow> t_off (home_zone i u) = t_off (home_zone i t)" for t' u
    by (simp_all add: home_zone_def t_UTC_def)
  show "t_ns (getIntervalOpenTime t i) \<le> t_ns t" "t_ns t < t_ns (getIntervalOpenTime t i) + intervalToDuration i"
    using floor_from_bounds(1,2) [OF o(3), where s = s and t = "home_zone i t"] o z(1) by simp_all
  fix u
  assume u: "0 \<le> t_Unix u \<and> t_off u = t_off t \<and> t_ns (getIntervalOpenTime t i) \<le> t_ns u \<and>
    t_ns u < t_ns (getIntervalOpenTime t i) + intervalToDuration i"
  then have "t_off (home_zone i u) = t_off (home_zone i t)" by (intro z(2)) blast
  then have "floor_from s P (home_zone i u) = floor_from s P (home_zone i t)"
    by (rule floor_from_unique [OF o(3)]) (use u in \<open>simp_all add: o(1) z(1) flip: o(2)\<close>)
  then show "getIntervalOpenTime u i = getIntervalOpenTime t i"
    using o(1) period_of_open(1) [OF p, of u] u by simp
qed

text \<open>2023-11-14 22:13:20 UTC.\<close>

definition sample_time :: gotime where
  "sample_time = \<lparr>t_ns = 1700000000 * Second, t_off = 0\<rparr>"

theorem getIntervalOpenTime_bucket_witness:
  "getIntervalOpenTime sample_time ''15m'' = \<lparr>t_ns = 1699999200 * Second, t_off = 0\<rparr> \<and>
   getIntervalOpenTime sample_time ''1w'' = \<lparr>t_ns = 1699833600 * Second, t_off = 0\<rparr> \<and>
   t_ns (getIntervalOpenTime sample_time ''15m'') \<le> t_ns sample_time \<and>
   t_ns sample_time < t_ns (getIntervalOpenTime sample_time ''15m'') + intervalToDuration ''15m''"
proof (intro conjI)
  have h: "''15m'' \<in> set agg_intervals" "''15m'' \<noteq> ''1M''" "0 \<le> t_Unix sample_time"
    by (simp_all add: agg_intervals_def t_Unix_def sample_time_def)
  show "t_ns (getIntervalOpenTime sample_time ''15m'') \<le> t_ns sample_time"
    "t_ns sample_time < t_ns (getIntervalOpenTime sample_time ''15m'') + intervalToDuration ''15m''"
    using getIntervalOpenTime_bucket [OF h] by blast+
qed code_simp+

lemma month_open_facts:
  "t_ns (getIntervalOpenTime t ''1M'') \<le> t_ns t \<and>
   t_ns t < t_ns (getIntervalOpenTime t ''1M'') + month_lengths (t_Year t) ! nat (t_Month t - 1) * (24 * Hour_d) \<and>
   t_Day (getIntervalOpenTime t ''1M'') = 1 \<and> t_Month (getIntervalOpenTime t ''1M'') = t_Month t \<and>
   t_Year (getIntervalOpenTime t ''1M'') = t_Year t \<and>
   (t_ns (getIntervalOpenTime t ''1M'') + intervalToDuration ''1M'' \<le> t_ns t \<longleftrightarrow> t_Day t = 31)"
proof -
  obtain y m d where c: "civil_of_day (t_day t) = (y, m, d)" by (cases "civil_of_day (t_day t)")
  note p = civil_of_day_correct [OF c]
  have dmy: "t_Day t = d" "t_Month t = m" "t_Year t = y"
    by (simp_all add: t_Day_def t_Month_def t_Year_def c)
  have lm: "month_lengths y ! nat (m - 1) \<le> 31" "0 < month_lengths y ! nat (m - 1)"
    using month_length_range [OF p(2,3), of y] by simp_all
  define X where "X = t_local t - t_day t * 86400000000000"
  have X: "0 \<le> X" "X < 86400000000000"
    using div_bounds [of 86400000000000 "t_local t"] by (simp_all add: X_def t_day_local)
  have o: "t_ns (getIntervalOpenTime t ''1M'') = t_ns t - X - (d - 1) * 86400000000000"
    "t_off (getIntervalOpenTime t ''1M'') = t_off t"
    by (simp_all add: open_1M dmy X_def t_local_def algebra_simps)
  have "t_local (getIntervalOpenTime t ''1M'') = (t_day t - (d - 1)) * 86400000000000"
    using o by (simp add: t_local_def X_def algebra_simps)
  then have "t_day (getIntervalOpenTime t ''1M'') = t_day t - (d - 1)"
    by (simp add: t_day_local)
  also have "\<dots> = days_of_civil y m 1" using p(1) by (simp add: days_of_civil_def)
  finally have "civil_of_day (t_day (getIntervalOpenTime t ''1M'')) = (y, m, 1)"
    using civil_of_days_of_civil [of m 1 y] p(2,3) lm(2) by simp
  then have "t_Day (getIntervalOpenTime t ''1M'') = 1" "t_Month (getIntervalOpenTime t ''1M'') = m"
    "t_Year (getIntervalOpenTime t ''1M'') = y"
    by (simp_all add: t_Day_def t_Month_def t_Year_def)
  moreover have "t_ns t - X - (d - 1) * 86400000000000 + 2592000000000000 \<le> t_ns t \<longleftrightarrow> d = 31"
    using X p(4,5) lm(1) by auto
  moreover have "t_ns (getIntervalOpenTime t ''1M'') \<le> t_ns t"
    using o(1) X(1) p(4) by simp
  moreover have "t_ns t < t_ns (getIntervalOpenTime t ''1M'') + month_lengths y ! nat (m - 1) * 86400000000000"
    using o(1) X(2) p(5) by simp
  ultimately show ?thesis
    using o(1) by (simp add: dmy intervalToDuration_def)
qed

lemma month_day_31:
  "t_ns (getIntervalOpenTime t ''1M'') + intervalToDuration ''1M'' \<le> t_ns t \<longleftrightarrow> t_Day t = 31"
  using month_open_facts [of t] by blast

text \<open>
  The month. Its open time is midnight of the first of the month and never after the instant;
  the instant lies within the days of the month; but the duration of the interval is 30 days, so
  on the 31st the instant is already past the close time of the candle it belongs to.
\<close>

theorem getIntervalOpenTime_month:
  "t_ns (getIntervalOpenTime t ''1M'') \<le> t_ns t \<and>
   t_ns t < t_ns (getIntervalOpenTime t ''1M'') + month_lengths (t_Year t) ! nat (t_Month t - 1) * (24 * Hour_d) \<and>
   t_Day (getIntervalOpenTime t ''1M'') = 1 \<and> t_Month (getIntervalOpenTime t ''1M'') = t_Month t \<and>
   t_Year (getIntervalOpenTime t ''1M'') = t_Year t \<and>
   (t_ns (getIntervalOpenTime t ''1M'') + intervalToDuration ''1M'' \<le> t_ns t \<longleftrightarrow> t_Day t = 31)"
  by (rule month_open_facts)

text \<open>
  The duration tables agree: the method of the exchange aggregator is the function of the
  interval aggregator on every string, that of the models package agrees with them on every string
  but \<open>1s\<close>, and the expected number of one-minute candles times a minute is the duration.
\<close>

theorem duration_tables_agree:
  "agg_intervalToDuration i = intervalToDuration i \<and>
   (IntervalToDuration i = intervalToDuration i \<longleftrightarrow> i \<noteq> ''1s'') \<and>
   getExpected1mCount i * Minute_d = intervalToDuration i"
  by (simp add: agg_intervalToDuration_def intervalToDuration_def IntervalToDuration_def getExpected1mCount_def)

end
