(* ===== verification/Interval_Aggregator.thy ===== *)
theory Interval_Aggregator
  imports Intervals
begin

text \<open>
  \<open>internal/services/aggregator/interval_aggregator.go\<close>: the component that builds candles of
  higher timeframes from one-minute candles. Its state is the map of candles being built, the last
  completed candle of each symbol and interval, the buffered channel to the batch writer, and the
  goroutines started to publish a candle (in the order they were started). \<open>time.Now()\<close> is the
  argument \<open>now\<close> of an operation. A send on the closed channel is a panic.
\<close>

record 'd building_candle =
  b_Symbol :: string
  b_Interval :: string
  b_OpenTime :: gotime
  b_CloseTime :: gotime
  b_candles1m :: "(int, 'd candle) gomap"
  b_expected1mCount :: int

record 'd interval_aggregator =
  ia_buildingCandles :: "(string, 'd building_candle) gomap"
  ia_lastCompletedCandles :: "(string, 'd candle) gomap"
  ia_batchChan :: "'d candle list"
  ia_chanClosed :: bool
  ia_cancelled :: bool
  ia_published :: "(string \<times> 'd candle) list"   \<comment> \<open>channel and candle of each publish started\<close>
  ia_intervals :: "string list"

definition batchChanCap :: nat where
  "batchChanCap = 10000"

definition NewIntervalAggregator :: "'d interval_aggregator" where
  "NewIntervalAggregator = \<lparr>ia_buildingCandles = [], ia_lastCompletedCandles = [], ia_batchChan = [],
     ia_chanClosed = False, ia_cancelled = False, ia_published = [], ia_intervals = agg_intervals\<rparr>"

text \<open>\<open>Stop\<close> cancels the context and closes the channel; closing it twice panics.\<close>

definition ia_Stop :: "'d interval_aggregator \<Rightarrow> 'd interval_aggregator outcome" where
  "ia_Stop s = (if ia_chanClosed s then Inl CloseOfClosedChannel
     else Inr (s\<lparr>ia_cancelled := True, ia_chanClosed := True\<rparr>))"

section \<open>Keys\<close>

definition building_prefix :: "string \<Rightarrow> string \<Rightarrow> string" where
  "building_prefix symbol interval = symbol @ '':'' @ interval @ '':''"

definition building_key :: "string \<Rightarrow> string \<Rightarrow> int \<Rightarrow> string" where
  "building_key symbol interval unix = symbol @ '':'' @ interval @ '':'' @ show_int unix"

definition latest_key :: "string \<Rightarrow> string \<Rightarrow> string" where
  "latest_key symbol interval = symbol @ '':'' @ interval"

text \<open>The test \<open>len(keyStr) > len(pfx) && keyStr[:len(pfx)] == pfx\<close>.\<close>

definition key_matches :: "string \<Rightarrow> string \<Rightarrow> bool" where
  "key_matches keyStr pfx = (length keyStr > length pfx \<and> take (length pfx) keyStr = pfx)"

definition candle_channel :: "string \<Rightarrow> string \<Rightarrow> string" where
  "candle_channel symbol interval = ''nyyu:market:candle:'' @ symbol @ '':'' @ interval"

section \<open>Sorting the open times\<close>

text \<open>
  The insertion sort on the slice of open times, in place. \<open>insert_loop xs key k\<close> is the inner
  loop with \<open>j = k - 1\<close>: while \<open>j >= 0\<close> and \<open>xs[j] > key\<close> it moves \<open>xs[j]\<close> up, then it writes
  \<open>key\<close> at \<open>j + 1\<close>.
\<close>

fun insert_loop :: "int list \<Rightarrow> int \<Rightarrow> nat \<Rightarrow> int list" where
  "insert_loop xs key 0 = xs[0 := key]"
| "insert_loop xs key (Suc j) =
     (if xs ! j > key then insert_loop (xs[Suc j := xs ! j]) key j else xs[Suc j := key])"

definition sort_times :: "int list \<Rightarrow> int list" where
  "sort_times xs = foldl (\<lambda>ys i. insert_loop ys (ys ! i) i) xs [1..<length xs]"

section \<open>Aggregation of the one-minute candles\<close>

record 'd ohlc =
  o_open :: 'd
  o_high :: 'd
  o_low :: 'd
  o_close :: 'd
  o_volume :: 'd
  o_quoteVolume :: 'd
  o_tradeCount :: int
  o_firstCandle :: bool

definition ohlc_start :: "'d decimal_ops \<Rightarrow> 'd ohlc" where
  "ohlc_start D = \<lparr>o_open = d_Zero D, o_high = d_Zero D, o_low = d_Zero D, o_close = d_Zero D,
     o_volume = d_Zero D, o_quoteVolume = d_Zero D, o_tradeCount = 0, o_firstCandle = True\<rparr>"

definition ohlc_step :: "'d decimal_ops \<Rightarrow> 'd ohlc \<Rightarrow> 'd candle \<Rightarrow> 'd ohlc" where
  "ohlc_step D a c =
     (let a = (if o_firstCandle a then
                 a\<lparr>o_open := c_Open c, o_high := c_High c, o_low := c_Low c, o_close := c_Close c,
                   o_firstCandle := False\<rparr>
               else
                 (let a = (if d_GreaterThan D (c_High c) (o_high a) then a\<lparr>o_high := c_High c\<rparr> else a);
                      a = (if d_LessThan D (c_Low c) (o_low a) \<or> d_IsZero D (o_low a)
                           then a\<lparr>o_low := c_Low c\<rparr> else a)
                  in a\<lparr>o_close := c_Close c\<rparr>))
      in a\<lparr>o_volume := d_Add D (o_volume a) (c_Volume c),
           o_quoteVolume := d_Add D (o_quoteVolume a) (c_QuoteVolume c),
           o_tradeCount := o_tradeCount a + c_TradeCount c\<rparr>)"

text \<open>The loop that \<open>buildCurrentCandle\<close>, \<open>completeIntervalNow\<close> and \<open>updateIntervalCandle\<close> share.\<close>

definition aggregate_1m :: "'d decimal_ops \<Rightarrow> (int, 'd candle) gomap \<Rightarrow> 'd ohlc" where
  "aggregate_1m D m =
     foldl (\<lambda>a t. case map_of m t of None \<Rightarrow> a | Some c \<Rightarrow> ohlc_step D a c)
       (ohlc_start D) (sort_times (map fst m))"

definition agg_candle :: "'d decimal_ops \<Rightarrow> 'd building_candle \<Rightarrow> 'd ohlc \<Rightarrow> bool \<Rightarrow> gotime \<Rightarrow> 'd candle" where
  "agg_candle D b a isClosed now = \<lparr>
     c_Symbol = b_Symbol b, c_Interval = b_Interval b,
     c_OpenTime = b_OpenTime b, c_CloseTime = b_CloseTime b,
     c_Open = o_open a, c_High = o_high a, c_Low = o_low a, c_Close = o_close a,
     c_Volume = o_volume a, c_QuoteVolume = o_quoteVolume a, c_TradeCount = o_tradeCount a,
     c_Source = ''aggregated'', c_IsClosed = isClosed, c_ContractType = ''spot'',
     c_CreatedAt = now, c_UpdatedAt = now,
     c_TakerBuyBaseVolume = d_Zero D, c_TakerBuyQuoteVolume = d_Zero D\<rparr>"

definition buildCurrentCandle :: "'d decimal_ops \<Rightarrow> 'd building_candle \<Rightarrow> gotime \<Rightarrow> 'd candle" where
  "buildCurrentCandle D b now = agg_candle D b (aggregate_1m D (b_candles1m b)) False now"

section \<open>Operations\<close>

definition ia_publishCandle :: "'d candle \<Rightarrow> 'd interval_aggregator \<Rightarrow> 'd interval_aggregator" where
  "ia_publishCandle c s =
     s\<lparr>ia_published := ia_published s @ [(candle_channel (c_Symbol c) (c_Interval c), c)]\<rparr>"

text \<open>The \<open>select\<close> with a \<open>default\<close>: a full channel drops the candle.\<close>

definition ia_send :: "'d candle \<Rightarrow> 'd interval_aggregator \<Rightarrow> 'd interval_aggregator outcome" where
  "ia_send c s =
     (if ia_chanClosed s then Inl SendOnClosedChannel
      else if length (ia_batchChan s) < batchChanCap then Inr (s\<lparr>ia_batchChan := ia_batchChan s @ [c]\<rparr>)
      else Inr s)"

definition completeIntervalNow ::
  "'d decimal_ops \<Rightarrow> gotime \<Rightarrow> 'd building_candle \<Rightarrow> string \<Rightarrow> string \<Rightarrow> 'd interval_aggregator \<Rightarrow>
   'd interval_aggregator outcome" where
  "completeIntervalNow D now b interval key s =
     (let agg = agg_candle D b (aggregate_1m D (b_candles1m b)) True now;
          latestKey = latest_key (b_Symbol b) interval;
          s = s\<lparr>ia_lastCompletedCandles := store latestKey agg (ia_lastCompletedCandles s)\<rparr>;
          s = ia_publishCandle agg s
      in obind (ia_send agg s)
           (\<lambda>s. Inr (s\<lparr>ia_buildingCandles := remove key (ia_buildingCandles s)\<rparr>)))"

text \<open>The body of the \<open>Range\<close> callback of \<open>closeExpiredIntervals\<close>.\<close>

definition close_if_expired ::
  "'d decimal_ops \<Rightarrow> gotime \<Rightarrow> string \<Rightarrow> gotime \<Rightarrow> string \<Rightarrow> string \<times> 'd building_candle \<Rightarrow>
   'd interval_aggregator \<Rightarrow> 'd interval_aggregator outcome" where
  "close_if_expired D now symbol currentTime interval kb s =
     (let pfx = building_prefix symbol interval; keyStr = fst kb; building = snd kb in
      if key_matches keyStr pfx \<and>
         (t_After currentTime (b_CloseTime building) \<or> t_Equal currentTime (b_CloseTime building)) \<and>
         length (b_candles1m building) > 0
      then completeIntervalNow D now building interval keyStr s
      else Inr s)"

definition closeExpiredIntervals ::
  "'d decimal_ops \<Rightarrow> gotime \<Rightarrow> string \<Rightarrow> gotime \<Rightarrow> 'd interval_aggregator \<Rightarrow> 'd interval_aggregator outcome" where
  "closeExpiredIntervals D now symbol currentTime s =
     ofold (\<lambda>interval s. ofold (close_if_expired D now symbol currentTime interval) (ia_buildingCandles s) s)
       (ia_intervals s) s"

definition updateIntervalCandle ::
  "'d decimal_ops \<Rightarrow> gotime \<Rightarrow> 'd candle \<Rightarrow> string \<Rightarrow> 'd interval_aggregator \<Rightarrow> 'd interval_aggregator" where
  "updateIntervalCandle D now m1Candle interval s =
     (let intervalOpenTime = getIntervalOpenTime (c_OpenTime m1Candle) interval;
          intervalCloseTime = t_Add intervalOpenTime (intervalToDuration interval);
          key = building_key (c_Symbol m1Candle) interval (t_Unix intervalOpenTime);
          fresh = \<lparr>b_Symbol = c_Symbol m1Candle, b_Interval = interval, b_OpenTime = intervalOpenTime,
             b_CloseTime = intervalCloseTime, b_candles1m = [],
             b_expected1mCount = getExpected1mCount interval\<rparr>;
          building = (case map_of (ia_buildingCandles s) key of None \<Rightarrow> fresh | Some b \<Rightarrow> b);
          m1OpenTime = t_Unix (c_OpenTime m1Candle);
          building = building\<lparr>b_candles1m := store m1OpenTime m1Candle (b_candles1m building)\<rparr>;
          s = s\<lparr>ia_buildingCandles := store key building (ia_buildingCandles s)\<rparr>;
          aggregatedCandle = agg_candle D building (aggregate_1m D (b_candles1m building)) False now
      in ia_publishCandle aggregatedCandle s)"

definition Process1mCandle ::
  "'d decimal_ops \<Rightarrow> gotime \<Rightarrow> 'd candle \<Rightarrow> 'd interval_aggregator \<Rightarrow> 'd interval_aggregator outcome" where
  "Process1mCandle D now candle s =
     obind (closeExpiredIntervals D now (c_Symbol candle) (c_OpenTime candle) s)
       (\<lambda>s. Inr (fold (updateIntervalCandle D now candle) (ia_intervals s) s))"

section \<open>Queries\<close>

text \<open>
  \<open>repository.GetCandles\<close> as its callers see it: symbol, interval, source, contract type, start,
  end, limit; \<^const>\<open>None\<close> is an error.
\<close>

type_synonym 'd get_candles =
  "string \<Rightarrow> string \<Rightarrow> string \<Rightarrow> string \<Rightarrow> gotime \<Rightarrow> gotime \<Rightarrow> int \<Rightarrow> 'd candle list option"

definition GetLastCompletedCandle ::
  "'d get_candles \<Rightarrow> gotime \<Rightarrow> string \<Rightarrow> string \<Rightarrow> 'd interval_aggregator \<Rightarrow>
   'd candle option \<times> 'd interval_aggregator" where
  "GetLastCompletedCandle getc now symbol interval s =
     (let key = latest_key symbol interval in
      case map_of (ia_lastCompletedCandles s) key of
        Some candle \<Rightarrow> (Some candle, s)
      | None \<Rightarrow>
          (let startTime = t_Add now (- 30 * 24 * Hour_d) in
           case getc symbol interval ''aggregated'' ''spot'' startTime now 1 of
             None \<Rightarrow> (None, s)
           | Some [] \<Rightarrow> (None, s)
           | Some (lastCandle # _) \<Rightarrow>
               (Some lastCandle,
                s\<lparr>ia_lastCompletedCandles := store key lastCandle (ia_lastCompletedCandles s)\<rparr>)))"

text \<open>The \<open>Range\<close> of \<open>GetLatestCandle\<close>: the latest building candle with data.\<close>

definition latest_building ::
  "'d decimal_ops \<Rightarrow> gotime \<Rightarrow> string \<Rightarrow> (string, 'd building_candle) gomap \<Rightarrow> int \<times> 'd candle option" where
  "latest_building D now pfx m =
     foldl (\<lambda>(latestTimestamp, best) (keyStr, building).
         if key_matches keyStr pfx \<and> t_Unix (b_OpenTime building) > latestTimestamp \<and>
            length (b_candles1m building) > 0
         then (t_Unix (b_OpenTime building), Some (buildCurrentCandle D building now))
         else (latestTimestamp, best))
       (0, None) m"

definition ia_GetLatestCandle ::
  "'d decimal_ops \<Rightarrow> 'd get_candles \<Rightarrow> gotime \<Rightarrow> string \<Rightarrow> string \<Rightarrow> 'd interval_aggregator \<Rightarrow>
   'd candle option \<times> 'd interval_aggregator" where
  "ia_GetLatestCandle D getc now symbol interval s =
     (let buildingCandle = snd (latest_building D now (building_prefix symbol interval) (ia_buildingCandles s));
          (lastCompleted, s) = GetLastCompletedCandle getc now symbol interval s
      in case buildingCandle of Some c \<Rightarrow> (Some c, s) | None \<Rightarrow> (lastCompleted, s))"

section \<open>Historical aggregation\<close>

text \<open>
  \<open>ord\<close> is the order in which Go ranges over the map of groups; it is a rearrangement of the list.
  \<open>lz\<close> is the offset of \<open>time.Local\<close>.
\<close>

definition group_by_interval :: "string \<Rightarrow> 'd candle list \<Rightarrow> (int, 'd candle list) gomap" where
  "group_by_interval interval cs =
     foldl (\<lambda>groups c.
         let key = t_Unix (getIntervalOpenTime (c_OpenTime c) interval);
             old = (case map_of groups key of None \<Rightarrow> [] | Some g \<Rightarrow> g)
         in store key (old @ [c]) groups)
       [] cs"

text \<open>The loop over one group; it has no \<open>low.IsZero()\<close> test and no separate first-candle flag.\<close>

definition group_step :: "'d decimal_ops \<Rightarrow> 'd ohlc \<Rightarrow> 'd candle \<Rightarrow> 'd ohlc" where
  "group_step D a c =
     (let a = (if o_firstCandle a then
                 a\<lparr>o_open := c_Open c, o_high := c_High c, o_low := c_Low c, o_firstCandle := False\<rparr>
               else
                 (let a = (if d_GreaterThan D (c_High c) (o_high a) then a\<lparr>o_high := c_High c\<rparr> else a)
                  in if d_LessThan D (c_Low c) (o_low a) then a\<lparr>o_low := c_Low c\<rparr> else a))
      in a\<lparr>o_close := c_Close c, o_volume := d_Add D (o_volume a) (c_Volume c),
           o_quoteVolume := d_Add D (o_quoteVolume a) (c_QuoteVolume c),
           o_tradeCount := o_tradeCount a + c_TradeCount c\<rparr>)"

definition group_candle ::
  "'d decimal_ops \<Rightarrow> int \<Rightarrow> gotime \<Rightarrow> string \<Rightarrow> int \<Rightarrow> 'd candle list \<Rightarrow> 'd candle" where
  "group_candle D lz now interval openTimeUnix grp =
     (let openTime = time_Unix lz openTimeUnix 0;
          a = foldl (group_step D) (ohlc_start D) grp;
          b = \<lparr>b_Symbol = c_Symbol (hd grp), b_Interval = interval, b_OpenTime = openTime,
               b_CloseTime = t_Add openTime (intervalToDuration interval), b_candles1m = [],
               b_expected1mCount = 0\<rparr>
      in agg_candle D b a True now)"

definition group1mCandlesByInterval ::
  "'d decimal_ops \<Rightarrow> int \<Rightarrow> ((int, 'd candle list) gomap \<Rightarrow> (int, 'd candle list) gomap) \<Rightarrow> gotime \<Rightarrow>
   'd candle list \<Rightarrow> string \<Rightarrow> 'd candle list" where
  "group1mCandlesByInterval D lz ord now candles1m interval =
     (if candles1m = [] then []
      else map (\<lambda>(openTimeUnix, grp). group_candle D lz now interval openTimeUnix grp)
        (filter (\<lambda>(_, grp). length grp \<noteq> 0) (ord (group_by_interval interval candles1m))))"

text \<open>
  \<open>save\<close> is \<open>repository.BatchCreateCandles\<close>: whether the write succeeded. The candles written are
  the first component of the result.
\<close>

definition buildHistoricalInterval ::
  "'d decimal_ops \<Rightarrow> int \<Rightarrow> ((int, 'd candle list) gomap \<Rightarrow> (int, 'd candle list) gomap) \<Rightarrow> 'd get_candles \<Rightarrow>
   ('d candle list \<Rightarrow> bool) \<Rightarrow> gotime \<Rightarrow> string \<Rightarrow> string \<Rightarrow> 'd interval_aggregator \<Rightarrow>
   'd candle list \<times> 'd interval_aggregator" where
  "buildHistoricalInterval D lz ord getc save now symbol interval s =
     (let startTime = t_Add now (- 7 * 24 * Hour_d) in
      case getc symbol ''1m'' '''' ''spot'' startTime now 100000 of
        None \<Rightarrow> ([], s)
      | Some candles1m \<Rightarrow>
          if candles1m = [] then ([], s)
          else
            (let intervalCandles = group1mCandlesByInterval D lz ord now candles1m interval in
             if intervalCandles = [] then ([], s)
             else if save intervalCandles then
               (intervalCandles,
                s\<lparr>ia_lastCompletedCandles :=
                    store (latest_key symbol interval) (last intervalCandles) (ia_lastCompletedCandles s)\<rparr>)
             else ([], s)))"

text \<open>The goroutines \<open>aggregateHistoricalCandles\<close> starts: one per symbol and interval.\<close>

definition aggregateHistoricalCandles :: "string list option \<Rightarrow> 'd interval_aggregator \<Rightarrow> (string \<times> string) list" where
  "aggregateHistoricalCandles symbols s =
     (case symbols of None \<Rightarrow> []
      | Some syms \<Rightarrow> concat (map (\<lambda>symbol. map (\<lambda>interval. (symbol, interval)) (ia_intervals s)) syms))"

text \<open>
  The goroutine \<open>periodicAggregation\<close>: once at its start and then at every tick it asks the repository for
  the symbols (\<open>first\<close> and the tick's value are the answers) and starts these goroutines.
\<close>

definition periodicAggregation ::
  "string list option \<Rightarrow> string list option loop_event list \<Rightarrow> 'd interval_aggregator \<Rightarrow> bool \<times> (string \<times> string) list" where
  "periodicAggregation first evs s =
     ticker_loop (\<lambda>symbols gos. gos @ aggregateHistoricalCandles symbols s) evs (aggregateHistoricalCandles first s)"

section \<open>The batch writer\<close>

text \<open>The goroutine \<open>batchWriter\<close>: its local batch, the batches given to the database, whether it returned.\<close>

record 'd batch_writer =
  bw_batch :: "'d candle list"
  bw_writes :: "'d candle list list"
  bw_returned :: bool

datatype 'd bw_event = CtxDone | Received "'d candle" | ChanClosed | Tick

definition bw_flush :: "'d batch_writer \<Rightarrow> 'd batch_writer" where
  "bw_flush w = (if bw_batch w = [] then w
     else w\<lparr>bw_writes := bw_writes w @ [bw_batch w], bw_batch := []\<rparr>)"

definition batchWriter_step :: "'d batch_writer \<Rightarrow> 'd bw_event \<Rightarrow> 'd batch_writer" where
  "batchWriter_step w e =
     (if bw_returned w then w
      else case e of
        CtxDone \<Rightarrow> (bw_flush w)\<lparr>bw_returned := True\<rparr>
      | ChanClosed \<Rightarrow> (bw_flush w)\<lparr>bw_returned := True\<rparr>
      | Received c \<Rightarrow>
          (let w = w\<lparr>bw_batch := bw_batch w @ [c]\<rparr>
           in if length (bw_batch w) \<ge> 50 then bw_flush w else w)
      | Tick \<Rightarrow> bw_flush w)"

definition bw_start :: "'d batch_writer" where
  "bw_start = \<lparr>bw_batch = [], bw_writes = [], bw_returned = False\<rparr>"

text \<open>\<open>Start\<close> starts the batch writer and the periodic aggregation.\<close>

definition ia_Start ::
  "string list option \<Rightarrow> 'd interval_aggregator \<Rightarrow> 'd batch_writer \<times> bool \<times> (string \<times> string) list" where
  "ia_Start first s = (bw_start, periodicAggregation first [] s)"

section \<open>The sort is a sort\<close>

lemma insort_below: "key < y \<Longrightarrow> insort key (zs @ [y]) = insort key zs @ [y :: int]"
  by (induction zs) auto

lemma insert_loop_correct:
  assumes "k < length xs" "sorted (take k xs)"
  shows "length (insert_loop xs key k) = length xs \<and>
    take (Suc k) (insert_loop xs key k) = insort key (take k xs) \<and>
    drop (Suc k) (insert_loop xs key k) = drop (Suc k) xs"
  using assms
proof (induction k arbitrary: xs)
  case 0
  then show ?case by (cases xs) auto
next
  case (Suc j)
  have tk: "take (Suc j) xs = take j xs @ [xs ! j]"
    using Suc.prems(1) by (simp add: take_Suc_conv_app_nth)
  have srt: "sorted (take j xs)" and le: "\<forall>y\<in>set (take j xs). y \<le> xs ! j"
    using Suc.prems(2) by (simp_all add: tk sorted_append)
  show ?case
  proof (cases "xs ! j > key")
    case True
    define ys where "ys = xs[Suc j := xs ! j]"
    have ys: "length ys = length xs" "take j ys = take j xs" "drop (Suc j) ys = xs ! j # drop (Suc (Suc j)) xs"
      using Suc.prems(1) by (simp_all add: ys_def drop_update_swap Cons_nth_drop_Suc [symmetric])
    have IH: "length (insert_loop ys key j) = length ys" "take (Suc j) (insert_loop ys key j) = insort key (take j ys)"
      "drop (Suc j) (insert_loop ys key j) = drop (Suc j) ys"
      using Suc.IH [of ys] Suc.prems(1) srt ys by simp_all
    have step: "insert_loop xs key (Suc j) = insert_loop ys key j"
      using True by (simp add: ys_def)
    have "insert_loop ys key j = insort key (take j xs) @ xs ! j # drop (Suc (Suc j)) xs"
      by (metis IH(2,3) append_take_drop_id ys(2,3))
    moreover have "insort key (take j xs @ [xs ! j]) = insort key (take j xs) @ [xs ! j]"
      using True by (rule insort_below)
    ultimately show ?thesis
      using IH(1) ys(1) Suc.prems(1) by (simp add: step tk del: insert_loop.simps)
  next
    case False
    then have "\<forall>y\<in>set (take (Suc j) xs). y \<le> key"
      using le tk by fastforce
    then have "insort key (take (Suc j) xs) = take (Suc j) xs @ [key]"
      using Suc.prems(2) by (simp add: sorted_insort_is_snoc)
    then show ?thesis
      using False Suc.prems(1) by (simp add: take_Suc_conv_app_nth [of "Suc j"] del: take_Suc_Cons)
  qed
qed

lemma sort_times_sort: "sort_times xs = sort xs"
proof -
  have step: "length (foldl (\<lambda>ys i. insert_loop ys (ys ! i) i) xs [1..<n]) = length xs \<and>
      take n (foldl (\<lambda>ys i. insert_loop ys (ys ! i) i) xs [1..<n]) = sort (take n xs) \<and>
      drop n (foldl (\<lambda>ys i. insert_loop ys (ys ! i) i) xs [1..<n]) = drop n xs"
    if "1 \<le> n" "n \<le> length xs" for n
    using that
  proof (induction n rule: dec_induct)
    case base
    then show ?case by (cases xs) auto
  next
    case (step n)
    define ys where "ys = foldl (\<lambda>ys i. insert_loop ys (ys ! i) i) xs [1..<n]"
    have IH: "length ys = length xs" "take n ys = sort (take n xs)" "drop n ys = drop n xs"
      using step by (simp_all add: ys_def)
    have "ys ! n = xs ! n"
      using IH(1,3) step.prems by (metis Cons_nth_drop_Suc Suc_le_lessD list.inject)
    moreover have "drop (Suc n) ys = drop (Suc n) xs"
      using IH(3) by (metis drop_Suc tl_drop)
    moreover have "sort (take (Suc n) xs) = insort (xs ! n) (sort (take n xs))"
      using step.prems by (intro properties_for_sort) (simp_all add: sorted_insort take_Suc_conv_app_nth)
    ultimately show ?case
      using insert_loop_correct [of n ys "ys ! n"] IH step.hyps step.prems
      by (simp add: ys_def [symmetric, unfolded One_nat_def])
  qed
  show ?thesis
  proof (cases "xs = []")
    case False
    then show ?thesis using step [of "length xs"] by (auto simp: sort_times_def Suc_le_eq)
  qed (simp add: sort_times_def)
qed

section \<open>What a candle built from one-minute candles holds\<close>

text \<open>The one-minute candles of a map, earliest first.\<close>

definition in_order :: "(int, 'd candle) gomap \<Rightarrow> 'd candle list" where
  "in_order m = map (\<lambda>t. the (map_of m t)) (sort (map fst m))"

lemma aggregate_1m_in_order: "aggregate_1m D m = foldl (ohlc_step D) (ohlc_start D) (in_order m)"
proof -
  have "foldl (\<lambda>a t. case map_of m t of None \<Rightarrow> a | Some c \<Rightarrow> ohlc_step D a c) a ts =
      foldl (ohlc_step D) a (map (\<lambda>t. the (map_of m t)) ts)" if "set ts \<subseteq> fst ` set m" for ts a
    using that
  proof (induction ts arbitrary: a)
    case (Cons t ts)
    then obtain c where "map_of m t = Some c"
      using weak_map_of_SomeI by fastforce
    with Cons show ?case by simp
  qed simp
  from this [of "sort (map fst m)"] show ?thesis
    by (simp add: aggregate_1m_def sort_times_sort in_order_def)
qed

lemma mset_in_order:
  assumes "wf_map m"
  shows "mset (in_order m) = mset (map snd m)"
proof -
  have "map (\<lambda>t. the (map_of m t)) (map fst m) = map snd m"
    using assms by (auto simp: wf_map_def)
  moreover have "mset (in_order m) = mset (map (\<lambda>t. the (map_of m t)) (map fst m))"
    by (simp add: in_order_def multiset.map_comp)
  ultimately show ?thesis by (simp only:)
qed

lemma set_in_order: "wf_map m \<Longrightarrow> set (in_order m) = snd ` set m"
  using mset_in_order [of m] by (metis set_mset_mset list.set_map)

lemma in_order_Nil [simp]: "in_order m = [] \<longleftrightarrow> m = []"
proof -
  have "length (in_order m) = length m" by (simp add: in_order_def)
  then show ?thesis by (metis length_0_conv)
qed

text \<open>The order of the map does not matter.\<close>

lemma in_order_cong:
  assumes "wf_map m" "wf_map m'" "map_of m = map_of m'"
  shows "in_order m = in_order m'"
proof -
  have "set (map fst m) = set (map fst m')"
    using assms(3) by (metis dom_map_of_conv_image_fst list.set_map)
  then have "sort (map fst m) = sort (map fst m')"
    using assms(1,2) unfolding wf_map_def by (metis sorted_list_of_set_sort_remdups distinct_remdups_id)
  then show ?thesis by (simp add: in_order_def assms(3))
qed

lemma hd_in_order:
  assumes "wf_map m" "(t, c) \<in> set m" "\<forall>t'\<in>fst ` set m. t \<le> t'"
  shows "hd (in_order m) = c"
proof -
  have ne: "sort (map fst m) \<noteq> []"
    using assms(2) in_order_Nil [of m] by (auto simp: in_order_def)
  have "hd (sort (map fst m)) = t"
  proof (rule antisym)
    have "hd (sort (map fst m)) \<in> set (sort (map fst m))" using ne by (rule hd_in_set)
    then show "t \<le> hd (sort (map fst m))" using assms(3) by auto
    have "t \<in> set (sort (map fst m))" using assms(2) by force
    then show "hd (sort (map fst m)) \<le> t"
      using ne sorted_sort [of "map fst m"] by (cases "sort (map fst m)") auto
  qed
  moreover have "map_of m t = Some c" using assms(1,2) by (simp add: wf_map_in_set [symmetric])
  ultimately show ?thesis using ne by (simp add: in_order_def hd_map)
qed

lemma last_in_order:
  assumes "wf_map m" "(t, c) \<in> set m" "\<forall>t'\<in>fst ` set m. t' \<le> t"
  shows "last (in_order m) = c"
proof -
  have ne: "sort (map fst m) \<noteq> []"
    using assms(2) in_order_Nil [of m] by (auto simp: in_order_def)
  have "last (sort (map fst m)) = t"
  proof (rule antisym)
    have "last (sort (map fst m)) \<in> set (sort (map fst m))" using ne by (rule last_in_set)
    then show "last (sort (map fst m)) \<le> t" using assms(3) by auto
    have "t \<in> set (sort (map fst m))" using assms(2) by force
    then show "t \<le> last (sort (map fst m))"
      using ne sorted_sort [of "map fst m"] by (cases "sort (map fst m)" rule: rev_cases) (auto simp: sorted_append)
  qed
  moreover have "map_of m t = Some c" using assms(1,2) by (simp add: wf_map_in_set [symmetric])
  ultimately show ?thesis using ne by (simp add: in_order_def last_map)
qed

lemma ohlc_step_sel [simp]:
  "o_firstCandle (ohlc_step D a c) = False"
  "o_open (ohlc_step D a c) = (if o_firstCandle a then c_Open c else o_open a)"
  "o_close (ohlc_step D a c) = c_Close c"
  "o_high (ohlc_step D a c) =
     (if o_firstCandle a \<or> d_GreaterThan D (c_High c) (o_high a) then c_High c else o_high a)"
  "o_low (ohlc_step D a c) =
     (if o_firstCandle a \<or> d_LessThan D (c_Low c) (o_low a) \<or> d_IsZero D (o_low a) then c_Low c else o_low a)"
  "o_volume (ohlc_step D a c) = d_Add D (o_volume a) (c_Volume c)"
  "o_quoteVolume (ohlc_step D a c) = d_Add D (o_quoteVolume a) (c_QuoteVolume c)"
  "o_tradeCount (ohlc_step D a c) = o_tradeCount a + c_TradeCount c"
  by (auto simp: ohlc_step_def Let_def)

context decimal_api
begin

lemma ohlc_fold_rest:
  assumes "\<not> o_firstCandle a"
  shows "o_open (foldl (ohlc_step D) a cs) = o_open a"
    "o_close (foldl (ohlc_step D) a cs) = (if cs = [] then o_close a else c_Close (last cs))"
    "v (o_high (foldl (ohlc_step D) a cs)) = foldl max (v (o_high a)) (map (v \<circ> c_High) cs)"
    "v (o_low a) \<noteq> 0 \<Longrightarrow> \<forall>c\<in>set cs. v (c_Low c) \<noteq> 0 \<Longrightarrow>
      v (o_low (foldl (ohlc_step D) a cs)) = foldl min (v (o_low a)) (map (v \<circ> c_Low) cs)"
  using assms
proof (induction cs arbitrary: a)
  case (Cons c cs)
  {
    case 1
    then show ?case using Cons.IH(1) [of "ohlc_step D a c"] by simp
  next
    case 2
    then show ?case using Cons.IH(2) [of "ohlc_step D a c"] by simp
  next
    case 3
    then show ?case using Cons.IH(3) [of "ohlc_step D a c"] by (simp add: v_simps max_def)
  next
    case 4
    then show ?case using Cons.IH(4) [of "ohlc_step D a c"] by (simp add: v_simps min_def)
  }
qed simp_all

lemma ohlc_fold_sums:
  "v (o_volume (foldl (ohlc_step D) a cs)) = v (o_volume a) + (\<Sum>c\<leftarrow>cs. v (c_Volume c))"
  "v (o_quoteVolume (foldl (ohlc_step D) a cs)) = v (o_quoteVolume a) + (\<Sum>c\<leftarrow>cs. v (c_QuoteVolume c))"
  "o_tradeCount (foldl (ohlc_step D) a cs) = o_tradeCount a + (\<Sum>c\<leftarrow>cs. c_TradeCount c)"
  by (induction cs arbitrary: a) (simp_all add: v_simps add.assoc)

lemma ohlc_fold_all:
  assumes "cs \<noteq> []" and "a = foldl (ohlc_step D) (ohlc_start D) cs"
  shows "o_open a = c_Open (hd cs)" "o_close a = c_Close (last cs)"
    "v (o_high a) = Max ((\<lambda>c. v (c_High c)) ` set cs)"
    "\<forall>c\<in>set cs. v (c_Low c) \<noteq> 0 \<Longrightarrow> v (o_low a) = Min ((\<lambda>c. v (c_Low c)) ` set cs)"
    "v (o_volume a) = (\<Sum>c\<leftarrow>cs. v (c_Volume c))" "v (o_quoteVolume a) = (\<Sum>c\<leftarrow>cs. v (c_QuoteVolume c))"
    "o_tradeCount a = (\<Sum>c\<leftarrow>cs. c_TradeCount c)"
proof -
  obtain c r where cs: "cs = c # r" using assms(1) by (cases cs) auto
  note a = assms(2) [unfolded cs foldl_Cons]
  have st: "o_firstCandle (ohlc_start D)" "v (o_volume (ohlc_start D)) = 0"
    "v (o_quoteVolume (ohlc_start D)) = 0" "o_tradeCount (ohlc_start D) = 0"
    by (simp_all add: ohlc_start_def v_simps)
  note rest = ohlc_fold_rest [of "ohlc_step D (ohlc_start D) c" r]
  show "o_open a = c_Open (hd cs)" "o_close a = c_Close (last cs)"
    using rest(1,2) st by (simp_all add: a cs)
  show "v (o_high a) = Max ((\<lambda>c. v (c_High c)) ` set cs)"
    using rest(3) st by (simp add: a cs Max_insert_fold image_image)
  show "v (o_low a) = Min ((\<lambda>c. v (c_Low c)) ` set cs)" if "\<forall>c\<in>set cs. v (c_Low c) \<noteq> 0"
    using rest(4) st that by (simp add: a cs Min_insert_fold image_image)
  show "v (o_volume a) = (\<Sum>c\<leftarrow>cs. v (c_Volume c))" "v (o_quoteVolume a) = (\<Sum>c\<leftarrow>cs. v (c_QuoteVolume c))"
    "o_tradeCount a = (\<Sum>c\<leftarrow>cs. c_TradeCount c)"
    using ohlc_fold_sums [of "ohlc_start D" cs] st by (simp_all add: assms(2))
qed

end

lemma agg_candle_sel [simp]:
  "c_Symbol (agg_candle D b a f now) = b_Symbol b" "c_Interval (agg_candle D b a f now) = b_Interval b"
  "c_OpenTime (agg_candle D b a f now) = b_OpenTime b" "c_CloseTime (agg_candle D b a f now) = b_CloseTime b"
  "c_Open (agg_candle D b a f now) = o_open a" "c_High (agg_candle D b a f now) = o_high a"
  "c_Low (agg_candle D b a f now) = o_low a" "c_Close (agg_candle D b a f now) = o_close a"
  "c_Volume (agg_candle D b a f now) = o_volume a" "c_QuoteVolume (agg_candle D b a f now) = o_quoteVolume a"
  "c_TradeCount (agg_candle D b a f now) = o_tradeCount a" "c_IsClosed (agg_candle D b a f now) = f"
  by (simp_all add: agg_candle_def)

lemma sum_list_in_order:
  fixes f :: "'d candle \<Rightarrow> 'b::comm_monoid_add"
  assumes "wf_map m"
  shows "(\<Sum>c\<leftarrow>in_order m. f c) = (\<Sum>(t, c)\<leftarrow>m. f c)"
proof -
  have "mset (map f (in_order m)) = mset (map f (map snd m))"
    using mset_in_order [OF assms] by (simp only: mset_map)
  then have "sum_list (map f (in_order m)) = sum_list (map f (map snd m))"
    by (metis sum_mset_sum_list)
  then show ?thesis by (simp add: case_prod_unfold comp_def)
qed

text \<open>
  C7. A candle built from a non-empty set of one-minute candles is their OHLCV aggregate: it opens
  with the earliest of them and closes with the latest, its high is the highest high, its low the
  lowest low (no low being zero), volume, quote volume and trade count are the sums; it carries the
  symbol, interval and times of its bucket; and it does not depend on the order in which the map of
  one-minute candles is ranged over.
\<close>

theorem buildCurrentCandle_ohlcv:
  assumes "decimal_api D v" "wf_map (b_candles1m b)" "b_candles1m b \<noteq> []"
    and "\<forall>(t, c)\<in>set (b_candles1m b). v (c_Low c) \<noteq> 0"
    and "(t0, c0) \<in> set (b_candles1m b)" "\<forall>t\<in>fst ` set (b_candles1m b). t0 \<le> t"
    and "(t1, c1) \<in> set (b_candles1m b)" "\<forall>t\<in>fst ` set (b_candles1m b). t \<le> t1"
  shows "let r = buildCurrentCandle D b now; cs = snd ` set (b_candles1m b) in
    c_Open r = c_Open c0 \<and> c_Close r = c_Close c1 \<and>
    v (c_High r) = Max ((\<lambda>c. v (c_High c)) ` cs) \<and> v (c_Low r) = Min ((\<lambda>c. v (c_Low c)) ` cs) \<and>
    v (c_Volume r) = (\<Sum>(t, c)\<leftarrow>b_candles1m b. v (c_Volume c)) \<and>
    v (c_QuoteVolume r) = (\<Sum>(t, c)\<leftarrow>b_candles1m b. v (c_QuoteVolume c)) \<and>
    c_TradeCount r = (\<Sum>(t, c)\<leftarrow>b_candles1m b. c_TradeCount c) \<and>
    c_Symbol r = b_Symbol b \<and> c_Interval r = b_Interval b \<and>
    c_OpenTime r = b_OpenTime b \<and> c_CloseTime r = b_CloseTime b \<and> \<not> c_IsClosed r \<and>
    (\<forall>m'. mset m' = mset (b_candles1m b) \<longrightarrow> buildCurrentCandle D (b\<lparr>b_candles1m := m'\<rparr>) now = r)"
proof -
  let ?m = "b_candles1m b"
  have ne: "in_order ?m \<noteq> []" using assms(3) by simp
  note f = decimal_api.ohlc_fold_all [OF assms(1) ne refl]
  have lows: "\<forall>c\<in>set (in_order ?m). v (c_Low c) \<noteq> 0"
    using assms(2,4) by (auto simp: set_in_order)
  have "buildCurrentCandle D (b\<lparr>b_candles1m := m'\<rparr>) now = buildCurrentCandle D b now"
    if m': "mset m' = mset ?m" for m'
  proof -
    have "mset (map fst m') = mset (map fst ?m)" using m' by simp
    then have w: "wf_map m'"
      using assms(2) unfolding wf_map_def by (metis mset_eq_imp_distinct_iff)
    moreover have "map_of m' = map_of ?m"
      using m' w assms(2) by (intro map_of_eqI) (auto simp: wf_map_def wf_map_in_set [symmetric] dest: mset_eq_setD)
    ultimately have "in_order m' = in_order ?m"
      using assms(2) by (intro in_order_cong) simp_all
    then show ?thesis by (simp add: buildCurrentCandle_def aggregate_1m_in_order agg_candle_def)
  qed
  then show ?thesis
    using f(1,2,3,5-7) f(4) [OF lows] hd_in_order [OF assms(2,5,6)] last_in_order [OF assms(2,7,8)]
    by (simp add: buildCurrentCandle_def aggregate_1m_in_order Let_def sum_list_in_order assms(2) set_in_order)
qed

section \<open>Keys identify a bucket\<close>

lemma building_key_inj:
  assumes "CHR '':'' \<notin> set sy" "CHR '':'' \<notin> set sy'" "CHR '':'' \<notin> set i" "CHR '':'' \<notin> set i'"
    and "building_key sy i u = building_key sy' i' u'"
  shows "sy = sy' \<and> i = i' \<and> u = u'"
proof -
  have "sy @ CHR '':'' # (i @ CHR '':'' # show_int u) = sy' @ CHR '':'' # (i' @ CHR '':'' # show_int u')"
    using assms(5) by (simp add: building_key_def)
  then have 1: "sy = sy'" "i @ CHR '':'' # show_int u = i' @ CHR '':'' # show_int u'"
    using sep_inj [OF assms(1,2)] by blast+
  then have "i = i'" "show_int u = show_int u'" using sep_inj [OF assms(3,4)] by blast+
  with 1(1) show ?thesis by simp
qed

lemma key_matches_building:
  assumes "CHR '':'' \<notin> set sy" "CHR '':'' \<notin> set sy'" "CHR '':'' \<notin> set i" "CHR '':'' \<notin> set i'"
  shows "key_matches (building_key sy i u) (building_prefix sy' i') \<longleftrightarrow> sy = sy' \<and> i = i'"
proof
  assume "key_matches (building_key sy i u) (building_prefix sy' i')"
  then obtain rest where "building_key sy i u = building_prefix sy' i' @ rest"
    unfolding key_matches_def by (metis append_take_drop_id)
  then have e: "sy @ CHR '':'' # (i @ CHR '':'' # show_int u) = sy' @ CHR '':'' # (i' @ CHR '':'' # rest)"
    by (simp add: building_key_def building_prefix_def)
  then have "sy = sy'" "i @ CHR '':'' # show_int u = i' @ CHR '':'' # rest"
    using sep_inj [OF assms(1,2)] by blast+
  then show "sy = sy' \<and> i = i'" using sep_inj [OF assms(3,4)] by blast
qed (simp add: key_matches_def building_key_def building_prefix_def)

lemma agg_intervals_no_colon: "i \<in> set agg_intervals \<Longrightarrow> CHR '':'' \<notin> set i"
  unfolding agg_intervals_def by auto

lemma agg_intervals_distinct: "distinct agg_intervals"
  by (simp add: agg_intervals_def)

section \<open>The invariant\<close>

text \<open>
  A candle under construction is stored under its own key, closes one interval after it opens,
  holds at least one one-minute candle, and every candle it holds is of its symbol, is stored under
  its own open time and lies in its bucket.
\<close>

definition building_ok :: "string \<Rightarrow> 'd building_candle \<Rightarrow> bool" where
  "building_ok k b \<longleftrightarrow>
     k = building_key (b_Symbol b) (b_Interval b) (t_Unix (b_OpenTime b)) \<and>
     CHR '':'' \<notin> set (b_Symbol b) \<and> b_Interval b \<in> set agg_intervals \<and>
     t_ns (b_OpenTime b) = t_Unix (b_OpenTime b) * Second \<and>
     b_CloseTime b = t_Add (b_OpenTime b) (intervalToDuration (b_Interval b)) \<and>
     b_expected1mCount b = getExpected1mCount (b_Interval b) \<and>
     wf_map (b_candles1m b) \<and> b_candles1m b \<noteq> [] \<and>
     list_all (\<lambda>(t, c). c_Symbol c = b_Symbol b \<and> t = t_Unix (c_OpenTime c) \<and>
       t_Unix (getIntervalOpenTime (c_OpenTime c) (b_Interval b)) = t_Unix (b_OpenTime b)) (b_candles1m b)"

definition ia_ok :: "'d interval_aggregator \<Rightarrow> bool" where
  "ia_ok s \<longleftrightarrow> wf_map (ia_buildingCandles s) \<and> wf_map (ia_lastCompletedCandles s) \<and>
     length (ia_batchChan s) \<le> batchChanCap \<and> ia_intervals s = agg_intervals \<and>
     list_all (\<lambda>(k, b). building_ok k b) (ia_buildingCandles s)"

lemma ia_okD:
  assumes "ia_ok s"
  shows "wf_map (ia_buildingCandles s)" "wf_map (ia_lastCompletedCandles s)"
    "length (ia_batchChan s) \<le> batchChanCap" "ia_intervals s = agg_intervals"
    "(k, b) \<in> set (ia_buildingCandles s) \<Longrightarrow> building_ok k b"
  using assms by (auto simp: ia_ok_def list_all_iff)

lemma ia_ok_New: "ia_ok NewIntervalAggregator"
  by (simp add: ia_ok_def NewIntervalAggregator_def batchChanCap_def)

section \<open>Closing expired intervals\<close>

definition expired :: "gotime \<Rightarrow> 'd building_candle \<Rightarrow> bool" where
  "expired currentTime b = (t_After currentTime (b_CloseTime b) \<or> t_Equal currentTime (b_CloseTime b))"

lemma expired_iff: "expired ct b \<longleftrightarrow> t_ns (b_CloseTime b) \<le> t_ns ct"
  by (auto simp: expired_def t_After_def t_Equal_def)

text \<open>The closed candle of a bucket, and what completing a bucket does when the channel is open.\<close>

definition completed :: "'d decimal_ops \<Rightarrow> gotime \<Rightarrow> 'd building_candle \<Rightarrow> 'd candle" where
  "completed D now b = agg_candle D b (aggregate_1m D (b_candles1m b)) True now"

definition complete_one ::
  "'d decimal_ops \<Rightarrow> gotime \<Rightarrow> string \<times> 'd building_candle \<Rightarrow> 'd interval_aggregator \<Rightarrow> 'd interval_aggregator" where
  "complete_one D now kb s =
     (let b = snd kb; c = completed D now b in
      s\<lparr>ia_lastCompletedCandles := store (latest_key (b_Symbol b) (b_Interval b)) c (ia_lastCompletedCandles s),
        ia_published := ia_published s @ [(candle_channel (b_Symbol b) (b_Interval b), c)],
        ia_batchChan := (if length (ia_batchChan s) < batchChanCap then ia_batchChan s @ [c] else ia_batchChan s),
        ia_buildingCandles := remove (fst kb) (ia_buildingCandles s)\<rparr>)"

lemma complete_one_sel [simp]:
  "ia_buildingCandles (complete_one D now kb s) = remove (fst kb) (ia_buildingCandles s)"
  "ia_chanClosed (complete_one D now kb s) = ia_chanClosed s"
  "ia_intervals (complete_one D now kb s) = ia_intervals s"
  "ia_published (complete_one D now kb s) = ia_published s @
     [(candle_channel (b_Symbol (snd kb)) (b_Interval (snd kb)), completed D now (snd kb))]"
  "ia_batchChan (complete_one D now kb s) =
     (if length (ia_batchChan s) < batchChanCap then ia_batchChan s @ [completed D now (snd kb)] else ia_batchChan s)"
  "ia_lastCompletedCandles (complete_one D now kb s) =
     store (latest_key (b_Symbol (snd kb)) (b_Interval (snd kb))) (completed D now (snd kb)) (ia_lastCompletedCandles s)"
  by (simp_all add: complete_one_def Let_def)

lemma completeIntervalNow_open:
  assumes "\<not> ia_chanClosed s" "interval = b_Interval b"
  shows "completeIntervalNow D now b interval k s = Inr (complete_one D now (k, b) s)"
  using assms
  by (simp add: completeIntervalNow_def complete_one_def ia_publishCandle_def ia_send_def completed_def Let_def
      obind.simps)

lemma completeIntervalNow_closed:
  "ia_chanClosed s \<Longrightarrow> completeIntervalNow D now b interval k s = Inl SendOnClosedChannel"
  by (simp add: completeIntervalNow_def ia_publishCandle_def ia_send_def Let_def)

text \<open>The buckets of one interval a call closes, and those of every interval.\<close>

definition to_close :: "string \<Rightarrow> gotime \<Rightarrow> string \<Rightarrow> string \<times> 'd building_candle \<Rightarrow> bool" where
  "to_close symbol ct interval kb =
     (b_Symbol (snd kb) = symbol \<and> b_Interval (snd kb) = interval \<and> expired ct (snd kb))"

definition expired_of :: "string \<Rightarrow> gotime \<Rightarrow> 'd interval_aggregator \<Rightarrow> (string \<times> 'd building_candle) list" where
  "expired_of symbol ct s = concat (map (\<lambda>i. filter (to_close symbol ct i) (ia_buildingCandles s)) agg_intervals)"

lemma close_if_expired_eq:
  assumes "building_ok k b" "CHR '':'' \<notin> set symbol" "interval \<in> set agg_intervals"
  shows "close_if_expired D now symbol ct interval (k, b) s =
    (if to_close symbol ct interval (k, b) then completeIntervalNow D now b interval k s else Inr s)"
proof -
  have "key_matches k (building_prefix symbol interval) \<longleftrightarrow> b_Symbol b = symbol \<and> b_Interval b = interval"
    using assms by (auto simp: building_ok_def key_matches_building agg_intervals_no_colon)
  moreover have "b_candles1m b \<noteq> []" using assms(1) by (simp add: building_ok_def)
  ultimately show ?thesis
    by (auto simp: close_if_expired_def to_close_def expired_def Let_def)
qed

lemma close_interval_open:
  assumes "\<forall>(k, b)\<in>set kbs. building_ok k b" "CHR '':'' \<notin> set symbol" "interval \<in> set agg_intervals"
    and "\<not> ia_chanClosed s"
  shows "ofold (close_if_expired D now symbol ct interval) kbs s =
    Inr (fold (complete_one D now) (filter (to_close symbol ct interval) kbs) s)"
  using assms(1,4)
proof (induction kbs arbitrary: s)
  case (Cons kb kbs)
  obtain k b where kb: "kb = (k, b)" by (cases kb)
  have "close_if_expired D now symbol ct interval kb s =
      Inr (if to_close symbol ct interval kb then complete_one D now kb s else s)"
    using Cons.prems assms(2,3) by (auto simp: kb close_if_expired_eq completeIntervalNow_open to_close_def)
  with Cons show ?case by auto
qed simp

lemma fold_complete_sel:
  "ia_chanClosed (fold (complete_one D now) kbs s) = ia_chanClosed s"
  "ia_intervals (fold (complete_one D now) kbs s) = ia_intervals s"
  "ia_buildingCandles (fold (complete_one D now) kbs s) = filter (\<lambda>kb. fst kb \<notin> fst ` set kbs) (ia_buildingCandles s)"
  "ia_published (fold (complete_one D now) kbs s) = ia_published s @
     map (\<lambda>(k, b). (candle_channel (b_Symbol b) (b_Interval b), completed D now b)) kbs"
  by (induction kbs arbitrary: s) (auto simp: AList.delete_eq case_prod_unfold intro!: filter_cong)

lemma fold_complete_chan:
  "length (ia_batchChan s) \<le> batchChanCap \<Longrightarrow>
   ia_batchChan (fold (complete_one D now) kbs s) =
     take batchChanCap (ia_batchChan s @ map (\<lambda>(k, b). completed D now b) kbs)"
  by (induction kbs arbitrary: s) (auto simp: case_prod_unfold Suc_le_eq not_less take_Cons')

lemma wf_map_filter [simp, intro]: "wf_map m \<Longrightarrow> wf_map (filter P m)"
  by (simp add: wf_map_def distinct_map_filter)

lemma wf_map_unique: "wf_map m \<Longrightarrow> p \<in> set m \<Longrightarrow> q \<in> set m \<Longrightarrow> fst p = fst q \<Longrightarrow> p = q"
  unfolding wf_map_def by (metis distinct_map inj_onD)

lemma closeExpired_fold:
  assumes "ia_ok s" "\<not> ia_chanClosed s" "CHR '':'' \<notin> set symbol"
  shows "closeExpiredIntervals D now symbol ct s = Inr (fold (complete_one D now) (expired_of symbol ct s) s)"
proof -
  have "ofold (\<lambda>i s. ofold (close_if_expired D now symbol ct i) (ia_buildingCandles s) s) is s =
      Inr (fold (complete_one D now) (concat (map (\<lambda>i. filter (to_close symbol ct i) (ia_buildingCandles s)) is)) s)"
    if "wf_map (ia_buildingCandles s)" "\<forall>(k, b)\<in>set (ia_buildingCandles s). building_ok k b"
      "\<not> ia_chanClosed s" "distinct is" "set is \<subseteq> set agg_intervals" for "is" s
    using that
  proof (induction "is" arbitrary: s)
    case (Cons i "is")
    let ?B = "ia_buildingCandles s" and ?d = "filter (to_close symbol ct i) (ia_buildingCandles s)"
    define s1 where "s1 = fold (complete_one D now) ?d s"
    have B1: "ia_buildingCandles s1 = filter (\<lambda>kb. fst kb \<notin> fst ` set ?d) ?B" "\<not> ia_chanClosed s1"
      using Cons.prems(3) by (simp_all add: s1_def fold_complete_sel)
    have "filter (to_close symbol ct j) (ia_buildingCandles s1) = filter (to_close symbol ct j) ?B"
      if "j \<in> set is" for j
    proof -
      have "fst kb \<notin> fst ` set ?d" if kb: "kb \<in> set ?B" "to_close symbol ct j kb" for kb
        using wf_map_unique [OF Cons.prems(1) kb(1)] kb(2) \<open>j \<in> set is\<close> Cons.prems(4)
        by (auto simp: to_close_def)
      then show ?thesis by (auto simp: B1 filter_filter intro!: filter_cong)
    qed
    then have "map (\<lambda>j. filter (to_close symbol ct j) (ia_buildingCandles s1)) is =
        map (\<lambda>j. filter (to_close symbol ct j) ?B) is" by simp
    moreover have "ofold (\<lambda>i s. ofold (close_if_expired D now symbol ct i) (ia_buildingCandles s) s) is s1 =
      Inr (fold (complete_one D now) (concat (map (\<lambda>i. filter (to_close symbol ct i) (ia_buildingCandles s1)) is)) s1)"
      using Cons.prems B1 by (intro Cons.IH) auto
    ultimately have "ofold (\<lambda>i s. ofold (close_if_expired D now symbol ct i) (ia_buildingCandles s) s) is s1 =
      Inr (fold (complete_one D now) (concat (map (\<lambda>i. filter (to_close symbol ct i) ?B) is)) s1)"
      by (simp only:)
    moreover have "ofold (close_if_expired D now symbol ct i) ?B s = Inr s1"
      unfolding s1_def using Cons.prems assms(3) by (intro close_interval_open) auto
    ultimately show ?case by (simp add: s1_def)
  qed simp
  from this [of s agg_intervals] show ?thesis
    using ia_okD [OF assms(1)] assms(2) by (auto simp: closeExpiredIntervals_def expired_of_def agg_intervals_distinct)
qed

lemma set_expired_of:
  assumes "ia_ok s"
  shows "set (expired_of symbol ct s) =
    {(k, b) \<in> set (ia_buildingCandles s). b_Symbol b = symbol \<and> expired ct b}"
  using ia_okD(5) [OF assms] by (auto simp: expired_of_def to_close_def building_ok_def)

lemma building_after_close:
  assumes "ia_ok s"
  shows "filter (\<lambda>kb. fst kb \<notin> fst ` set (expired_of symbol ct s)) (ia_buildingCandles s) =
    filter (\<lambda>(k, b). \<not> (b_Symbol b = symbol \<and> expired ct b)) (ia_buildingCandles s)"
proof (rule filter_cong [OF refl])
  fix kb assume kb: "kb \<in> set (ia_buildingCandles s)"
  have "fst kb \<in> fst ` set (expired_of symbol ct s) \<longleftrightarrow> kb \<in> set (expired_of symbol ct s)"
    using wf_map_unique [OF ia_okD(1) [OF assms] kb] by (auto simp: set_expired_of [OF assms])
  then show "(fst kb \<notin> fst ` set (expired_of symbol ct s)) =
      (case kb of (k, b) \<Rightarrow> \<not> (b_Symbol b = symbol \<and> expired ct b))"
    using kb by (auto simp: set_expired_of [OF assms])
qed

lemma fold_complete_last:
  "map_of (ia_lastCompletedCandles (fold (complete_one D now) kbs s)) key =
     (case filter (\<lambda>(k, b). latest_key (b_Symbol b) (b_Interval b) = key) kbs of
        [] \<Rightarrow> map_of (ia_lastCompletedCandles s) key
      | ds \<Rightarrow> Some (completed D now (snd (last ds))))"
proof (induction kbs arbitrary: s)
  case (Cons kb kbs)
  then show ?case by (cases kb) (auto split: list.splits)
qed simp

lemma fold_complete_wf: "wf_map (ia_lastCompletedCandles s) \<Longrightarrow>
    wf_map (ia_lastCompletedCandles (fold (complete_one D now) kbs s))"
  by (induction kbs arbitrary: s) auto

lemma ia_ok_complete:
  assumes "ia_ok s"
  shows "ia_ok (fold (complete_one D now) kbs s)"
  using ia_okD [OF assms]
  by (auto simp: ia_ok_def fold_complete_sel fold_complete_chan fold_complete_wf list_all_iff)

text \<open>
  C4. Closing expired intervals, with the channel to the batch writer open. A one-minute candle of
  a symbol that opens at \<open>ct\<close> closes exactly the candles of that symbol whose close time is not
  after \<open>ct\<close>, for every interval: they leave the map, every one of them is published as a closed
  candle and queued for the database in the same order (up to the capacity of the channel), and the
  last one of a symbol and interval becomes its last completed candle. Nothing else changes.
\<close>

theorem closeExpiredIntervals_exact:
  assumes "ia_ok s" "\<not> ia_chanClosed s" "CHR '':'' \<notin> set symbol"
  shows "\<exists>s' gone. closeExpiredIntervals D now symbol ct s = Inr s' \<and>
    set gone = {(k, b) \<in> set (ia_buildingCandles s). b_Symbol b = symbol \<and> t_ns (b_CloseTime b) \<le> t_ns ct} \<and>
    ia_buildingCandles s' =
      filter (\<lambda>(k, b). \<not> (b_Symbol b = symbol \<and> t_ns (b_CloseTime b) \<le> t_ns ct)) (ia_buildingCandles s) \<and>
    ia_published s' = ia_published s @
      map (\<lambda>(k, b). (candle_channel symbol (b_Interval b), (buildCurrentCandle D b now)\<lparr>c_IsClosed := True\<rparr>)) gone \<and>
    ia_batchChan s' = take batchChanCap (ia_batchChan s @
      map (\<lambda>(k, b). (buildCurrentCandle D b now)\<lparr>c_IsClosed := True\<rparr>) gone) \<and>
    (\<forall>i. map_of (ia_lastCompletedCandles s') (latest_key symbol i) =
      (case filter (\<lambda>(k, b). b_Interval b = i) gone of
         [] \<Rightarrow> map_of (ia_lastCompletedCandles s) (latest_key symbol i)
       | ds \<Rightarrow> Some ((buildCurrentCandle D (snd (last ds)) now)\<lparr>c_IsClosed := True\<rparr>))) \<and>
    ia_intervals s' = ia_intervals s \<and> ia_chanClosed s' = ia_chanClosed s"
proof -
  let ?g = "expired_of symbol ct s"
  let ?s = "fold (complete_one D now) ?g s"
  have cmp: "completed D now b = (buildCurrentCandle D b now)\<lparr>c_IsClosed := True\<rparr>" for b
    by (simp add: completed_def buildCurrentCandle_def agg_candle_def)
  have sym: "b_Symbol (snd kb) = symbol" if "kb \<in> set ?g" for kb
    using that by (auto simp: set_expired_of [OF assms(1)])
  have pub: "map (\<lambda>(k, b). (candle_channel (b_Symbol b) (b_Interval b), completed D now b)) ?g =
      map (\<lambda>(k, b). (candle_channel symbol (b_Interval b), completed D now b)) ?g"
    using sym by auto
  have lst: "filter (\<lambda>(k, b). latest_key (b_Symbol b) (b_Interval b) = key) ?g =
      filter (\<lambda>(k, b). latest_key symbol (b_Interval b) = key) ?g" for key
    using sym by (auto intro!: filter_cong)
  have "closeExpiredIntervals D now symbol ct s = Inr ?s"
    by (rule closeExpired_fold [OF assms])
  then show ?thesis
    using set_expired_of [OF assms(1), of symbol ct] building_after_close [OF assms(1), of symbol ct]
      fold_complete_chan [OF ia_okD(3) [OF assms(1)], of D now ?g]
      fold_complete_last [of D now ?g s] pub lst
    by (intro exI [of _ ?s] exI [of _ ?g]) (simp add: expired_iff cmp fold_complete_sel latest_key_def cong: list.case_cong)
qed

section \<open>Updating the candles under construction\<close>

definition bucket_key :: "'d candle \<Rightarrow> string \<Rightarrow> string" where
  "bucket_key c i = building_key (c_Symbol c) i (t_Unix (getIntervalOpenTime (c_OpenTime c) i))"

definition bucket_add :: "'d candle \<Rightarrow> string \<Rightarrow> 'd building_candle option \<Rightarrow> 'd building_candle" where
  "bucket_add c i old =
     (let b = (case old of
         None \<Rightarrow> \<lparr>b_Symbol = c_Symbol c, b_Interval = i, b_OpenTime = getIntervalOpenTime (c_OpenTime c) i,
                  b_CloseTime = t_Add (getIntervalOpenTime (c_OpenTime c) i) (intervalToDuration i),
                  b_candles1m = [], b_expected1mCount = getExpected1mCount i\<rparr>
       | Some b \<Rightarrow> b)
      in b\<lparr>b_candles1m := store (t_Unix (c_OpenTime c)) c (b_candles1m b)\<rparr>)"

lemma updateIntervalCandle_sel [simp]:
  "ia_buildingCandles (updateIntervalCandle D now c i s) =
     store (bucket_key c i) (bucket_add c i (map_of (ia_buildingCandles s) (bucket_key c i))) (ia_buildingCandles s)"
  "ia_lastCompletedCandles (updateIntervalCandle D now c i s) = ia_lastCompletedCandles s"
  "ia_batchChan (updateIntervalCandle D now c i s) = ia_batchChan s"
  "ia_chanClosed (updateIntervalCandle D now c i s) = ia_chanClosed s"
  "ia_intervals (updateIntervalCandle D now c i s) = ia_intervals s"
  by (simp_all add: updateIntervalCandle_def ia_publishCandle_def bucket_key_def bucket_add_def Let_def)

lemma fold_update_sel [simp]:
  "ia_lastCompletedCandles (fold (updateIntervalCandle D now c) is s) = ia_lastCompletedCandles s"
  "ia_batchChan (fold (updateIntervalCandle D now c) is s) = ia_batchChan s"
  "ia_chanClosed (fold (updateIntervalCandle D now c) is s) = ia_chanClosed s"
  "ia_intervals (fold (updateIntervalCandle D now c) is s) = ia_intervals s"
  by (induction "is" arbitrary: s) simp_all

lemma bucket_key_inj:
  assumes "CHR '':'' \<notin> set (c_Symbol c)" "i \<in> set agg_intervals" "j \<in> set agg_intervals"
  shows "bucket_key c i = bucket_key c j \<longleftrightarrow> i = j"
  using building_key_inj [OF assms(1,1) agg_intervals_no_colon [OF assms(2)] agg_intervals_no_colon [OF assms(3)]]
  by (auto simp: bucket_key_def)

lemma fold_update_other:
  "k \<notin> bucket_key c ` set is \<Longrightarrow>
   map_of (ia_buildingCandles (fold (updateIntervalCandle D now c) is s)) k = map_of (ia_buildingCandles s) k"
  by (induction "is" arbitrary: s) auto

lemma fold_update_bucket:
  assumes "CHR '':'' \<notin> set (c_Symbol c)" "distinct is" "set is \<subseteq> set agg_intervals" "i \<in> set is"
  shows "map_of (ia_buildingCandles (fold (updateIntervalCandle D now c) is s)) (bucket_key c i) =
    Some (bucket_add c i (map_of (ia_buildingCandles s) (bucket_key c i)))"
  using assms(2-4)
proof (induction "is" arbitrary: s)
  case (Cons j "is")
  show ?case
  proof (cases "i = j")
    case True
    have "bucket_key c i \<notin> bucket_key c ` set is"
      using Cons.prems True assms(1) bucket_key_inj [OF assms(1)] by auto
    then show ?thesis using True by (simp add: fold_update_other)
  next
    case False
    then have "bucket_key c j \<noteq> bucket_key c i"
      using Cons.prems bucket_key_inj [OF assms(1)] by auto
    then show ?thesis using Cons False by simp
  qed
qed simp

lemma whole_seconds:
  "Second dvd t_ns (time_Date y m d h mi s 0 off)" "Second dvd t_ns (t_UTC (time_Unix 0 n 0))"
  by (simp_all add: time_Date_def time_Unix_def t_UTC_def Let_def)

lemma open_whole_seconds:
  assumes "i \<in> set agg_intervals"
  shows "t_ns (getIntervalOpenTime t i) = t_Unix (getIntervalOpenTime t i) * Second"
proof -
  have "list_all (\<lambda>i. Second dvd t_ns (getIntervalOpenTime t i)) agg_intervals"
    by (simp add: agg_intervals_def getIntervalOpenTime_def Let_def whole_seconds)
  then have "Second dvd t_ns (getIntervalOpenTime t i)"
    using assms by (simp add: list_all_iff)
  then show ?thesis unfolding t_Unix_def by (rule dvd_div_mult_self [symmetric])
qed

lemma bucket_same:
  assumes "building_ok (bucket_key c i) b" "CHR '':'' \<notin> set (c_Symbol c)" "i \<in> set agg_intervals"
  shows "b_Symbol b = c_Symbol c" "b_Interval b = i"
    "t_ns (b_OpenTime b) = t_ns (getIntervalOpenTime (c_OpenTime c) i)"
proof -
  have e: "building_key (b_Symbol b) (b_Interval b) (t_Unix (b_OpenTime b)) =
      building_key (c_Symbol c) i (t_Unix (getIntervalOpenTime (c_OpenTime c) i))"
    and b: "CHR '':'' \<notin> set (b_Symbol b)" "b_Interval b \<in> set agg_intervals"
      "t_ns (b_OpenTime b) = t_Unix (b_OpenTime b) * Second"
    using assms(1) by (simp_all add: building_ok_def bucket_key_def)
  note k = building_key_inj [OF b(1) assms(2) agg_intervals_no_colon [OF b(2)] agg_intervals_no_colon [OF assms(3)] e]
  then show "b_Symbol b = c_Symbol c" "b_Interval b = i"
    "t_ns (b_OpenTime b) = t_ns (getIntervalOpenTime (c_OpenTime c) i)"
    using b(3) open_whole_seconds [OF assms(3), of "c_OpenTime c"] by simp_all
qed

lemma bucket_add_ok:
  assumes "CHR '':'' \<notin> set (c_Symbol c)" "i \<in> set agg_intervals"
    and "\<And>b. old = Some b \<Longrightarrow> building_ok (bucket_key c i) b"
  shows "building_ok (bucket_key c i) (bucket_add c i old)"
proof (cases old)
  case None
  then show ?thesis
    using assms(1,2) by (auto simp: bucket_add_def building_ok_def bucket_key_def open_whole_seconds wf_map_def)
next
  case (Some b)
  then have ok: "building_ok (bucket_key c i) b" by (rule assms(3))
  note same = bucket_same [OF ok assms(1,2)]
  moreover from same(3) have "t_Unix (getIntervalOpenTime (c_OpenTime c) i) = t_Unix (b_OpenTime b)"
    by (simp add: t_Unix_def)
  ultimately show ?thesis
    using ok by (auto simp: building_ok_def Some bucket_add_def list_all_iff set_store_wf)
qed

lemma ia_ok_update:
  assumes "ia_ok s" "CHR '':'' \<notin> set (c_Symbol c)" "i \<in> set agg_intervals"
  shows "ia_ok (updateIntervalCandle D now c i s)"
proof -
  note ok = ia_okD [OF assms(1)]
  have "building_ok (bucket_key c i) (bucket_add c i (map_of (ia_buildingCandles s) (bucket_key c i)))"
    using assms(2,3) by (rule bucket_add_ok) (auto intro: ok(5) map_of_SomeD)
  then show ?thesis
    using ok by (auto simp: ia_ok_def list_all_iff set_store_wf)
qed

lemma ia_ok_updates:
  "ia_ok s \<Longrightarrow> CHR '':'' \<notin> set (c_Symbol c) \<Longrightarrow> set is \<subseteq> set agg_intervals \<Longrightarrow>
   ia_ok (fold (updateIntervalCandle D now c) is s)"
  by (induction "is" arbitrary: s) (auto intro: ia_ok_update)

lemma ofold_close_none:
  assumes "\<forall>(k, b)\<in>set kbs. building_ok k b" "CHR '':'' \<notin> set symbol" "interval \<in> set agg_intervals"
    and "filter (to_close symbol ct interval) kbs = []"
  shows "ofold (close_if_expired D now symbol ct interval) kbs s = Inr s"
  using assms(1,4)
proof (induction kbs)
  case (Cons kb kbs)
  then show ?case
    using assms(2,3) by (cases kb) (auto simp: close_if_expired_eq split: if_splits)
qed simp

lemma ofold_close_panics:
  assumes "\<forall>(k, b)\<in>set kbs. building_ok k b" "CHR '':'' \<notin> set symbol" "interval \<in> set agg_intervals"
    and "filter (to_close symbol ct interval) kbs \<noteq> []" "ia_chanClosed s"
  shows "ofold (close_if_expired D now symbol ct interval) kbs s = Inl SendOnClosedChannel"
  using assms(1,4)
proof (induction kbs)
  case (Cons kb kbs)
  then show ?case
    using assms(2,3,5) by (cases kb) (auto simp: close_if_expired_eq completeIntervalNow_closed split: if_splits)
qed simp

text \<open>With the channel closed, closing an interval panics; with nothing to close, nothing happens.\<close>

lemma closeExpired_closed:
  assumes "ia_ok s" "ia_chanClosed s" "CHR '':'' \<notin> set symbol"
  shows "closeExpiredIntervals D now symbol ct s =
    (if expired_of symbol ct s = [] then Inr s else Inl SendOnClosedChannel)"
proof -
  have ok: "\<forall>(k, b)\<in>set (ia_buildingCandles s). building_ok k b"
    using ia_okD(5) [OF assms(1)] by auto
  have "ofold (\<lambda>i s. ofold (close_if_expired D now symbol ct i) (ia_buildingCandles s) s) is s =
      (if concat (map (\<lambda>i. filter (to_close symbol ct i) (ia_buildingCandles s)) is) = [] then Inr s
       else Inl SendOnClosedChannel)" if "set is \<subseteq> set agg_intervals" for "is"
    using that
  proof (induction "is")
    case (Cons i "is")
    then have i: "i \<in> set agg_intervals" by simp
    show ?case
    proof (cases "filter (to_close symbol ct i) (ia_buildingCandles s) = []")
      case True
      then show ?thesis using Cons ofold_close_none [OF ok assms(3) i True] by simp
    next
      case False
      then show ?thesis using ofold_close_panics [OF ok assms(3) i False assms(2)] by simp
    qed
  qed simp
  from this [of agg_intervals] show ?thesis
    using ia_okD(4) [OF assms(1)] by (simp add: closeExpiredIntervals_def expired_of_def)
qed

text \<open>What one call computes, with the channel open and with it closed.\<close>

definition after_close :: "'d decimal_ops \<Rightarrow> gotime \<Rightarrow> 'd candle \<Rightarrow> 'd interval_aggregator \<Rightarrow> 'd interval_aggregator" where
  "after_close D now c s = fold (complete_one D now) (expired_of (c_Symbol c) (c_OpenTime c) s) s"

lemma Process1mCandle_eq:
  assumes "ia_ok s" "CHR '':'' \<notin> set (c_Symbol c)"
  shows "Process1mCandle D now c s =
    (if ia_chanClosed s \<and> expired_of (c_Symbol c) (c_OpenTime c) s \<noteq> [] then Inl SendOnClosedChannel
     else Inr (fold (updateIntervalCandle D now c) agg_intervals (after_close D now c s)))"
proof (cases "ia_chanClosed s")
  case True
  then show ?thesis
    using closeExpired_closed [OF assms(1) True assms(2), of D now "c_OpenTime c"] ia_okD(4) [OF assms(1)]
    by (simp add: Process1mCandle_def after_close_def)
next
  case False
  then show ?thesis
    using closeExpired_fold [OF assms(1) False assms(2), of D now "c_OpenTime c"] ia_okD(4) [OF assms(1)]
    by (simp add: Process1mCandle_def after_close_def fold_complete_sel)
qed

lemma ia_ok_Process1mCandle:
  assumes "ia_ok s" "CHR '':'' \<notin> set (c_Symbol c)" "Process1mCandle D now c s = Inr s'"
  shows "ia_ok s'"
  using assms(3) Process1mCandle_eq [OF assms(1,2), of D now] assms(1,2)
  by (auto simp: after_close_def intro!: ia_ok_updates ia_ok_complete split: if_splits)

lemma ia_ok_GetLastCompleted: "ia_ok s \<Longrightarrow> ia_ok (snd (GetLastCompletedCandle getc now sy i s))"
  by (auto simp: GetLastCompletedCandle_def Let_def ia_ok_def split: option.split list.split)

lemma ia_GetLatestCandle_state:
  "snd (ia_GetLatestCandle D getc now sy i s) = snd (GetLastCompletedCandle getc now sy i s)"
  by (auto simp: ia_GetLatestCandle_def Let_def split: prod.split option.split)

lemma ia_ok_buildHistorical: "ia_ok s \<Longrightarrow> ia_ok (snd (buildHistoricalInterval D lz ord getc save now sy i s))"
  by (auto simp: buildHistoricalInterval_def Let_def ia_ok_def split: option.split)

section \<open>The component as a state machine\<close>

text \<open>
  Every operation that touches the state, in any interleaving: a one-minute candle, the batch writer
  taking a candle from the channel, the two queries, the historical rebuild, and the shutdown.
\<close>

inductive ia_step :: "'d decimal_ops \<Rightarrow> 'd interval_aggregator \<Rightarrow> 'd interval_aggregator \<Rightarrow> bool" for D where
  process: "CHR '':'' \<notin> set (c_Symbol c) \<Longrightarrow> Process1mCandle D now c s = Inr s' \<Longrightarrow> ia_step D s s'"
| receive: "ia_batchChan s = c # q \<Longrightarrow> ia_step D s (s\<lparr>ia_batchChan := q\<rparr>)"
| query_last: "ia_step D s (snd (GetLastCompletedCandle getc now sy i s))"
| query_latest: "ia_step D s (snd (ia_GetLatestCandle D getc now sy i s))"
| historical: "ia_step D s (snd (buildHistoricalInterval D lz ord getc save now sy i s))"
| stop: "ia_Stop s = Inr s' \<Longrightarrow> ia_step D s s'"

inductive ia_reachable :: "'d decimal_ops \<Rightarrow> 'd interval_aggregator \<Rightarrow> bool" for D where
  start: "ia_reachable D NewIntervalAggregator"
| step: "ia_reachable D s \<Longrightarrow> ia_step D s s' \<Longrightarrow> ia_reachable D s'"

inductive_cases ia_stepE: "ia_step D s s'"

lemma ia_ok_step: "ia_step D s s' \<Longrightarrow> ia_ok s \<Longrightarrow> ia_ok s'"
proof (induction rule: ia_step.induct)
  case (process c now s s')
  then show ?case using ia_ok_Process1mCandle by blast
next
  case (receive s c q)
  then show ?case by (auto simp: ia_ok_def)
next
  case (stop s s')
  then show ?case by (auto simp: ia_Stop_def ia_ok_def split: if_splits)
qed (auto simp: ia_GetLatestCandle_state intro: ia_ok_GetLastCompleted ia_ok_buildHistorical)

text \<open>
  C17. In every state the aggregator can reach, each candle under construction is stored under its
  own key, closes one interval duration after it opens, and holds a non-empty set of one-minute
  candles that all are of its symbol and lie in its bucket, each under its own open time; the
  channel never holds more than its capacity.
\<close>

theorem ia_reachable_invariant:
  assumes "ia_reachable D s"
  shows "ia_ok s"
  using assms by (induction rule: ia_reachable.induct) (auto intro: ia_ok_New ia_ok_step)

definition sample_candle :: "fixdec candle" where
  "sample_candle = \<lparr>c_Symbol = ''BTCUSDT'', c_Interval = ''1m'', c_OpenTime = \<lparr>t_ns = 1699999980 * Second, t_off = 0\<rparr>,
     c_CloseTime = \<lparr>t_ns = 1700000040 * Second, t_off = 0\<rparr>, c_Open = FD 365 1, c_High = FD 367 1, c_Low = FD 364 1,
     c_Close = FD 366 1, c_Volume = FD 12 0, c_QuoteVolume = FD 438 0, c_TradeCount = 5, c_Source = ''aggregated'',
     c_IsClosed = True, c_ContractType = ''spot'', c_CreatedAt = sample_time, c_UpdatedAt = sample_time,
     c_TakerBuyBaseVolume = FD 0 0, c_TakerBuyQuoteVolume = FD 0 0\<rparr>"

lemma sample_process:
  "Process1mCandle fd_ops sample_time sample_candle NewIntervalAggregator =
     Inr (fold (updateIntervalCandle fd_ops sample_time sample_candle) agg_intervals NewIntervalAggregator)"
  using Process1mCandle_eq [OF ia_ok_New, of sample_candle fd_ops sample_time]
  by (simp add: sample_candle_def NewIntervalAggregator_def after_close_def expired_of_def agg_intervals_def)

lemma sample_no_colon: "CHR '':'' \<notin> set (c_Symbol sample_candle)"
  by (simp add: sample_candle_def)

abbreviation sample_state :: "fixdec interval_aggregator" where
  "sample_state \<equiv> fold (updateIntervalCandle fd_ops sample_time sample_candle) agg_intervals NewIntervalAggregator"

theorem ia_reachable_invariant_witness:
  "ia_reachable fd_ops sample_state \<and> ia_ok sample_state \<and>
   map_of (ia_buildingCandles sample_state) (bucket_key sample_candle ''1h'') \<noteq> None"
proof -
  have r: "ia_reachable fd_ops sample_state"
    by (rule ia_reachable.step [OF ia_reachable.start]) (rule ia_step.process [OF sample_no_colon sample_process])
  moreover have h: "''1h'' \<in> set agg_intervals" by (simp add: agg_intervals_def)
  have "map_of (ia_buildingCandles sample_state) (bucket_key sample_candle ''1h'') \<noteq> None"
    using fold_update_bucket [OF sample_no_colon agg_intervals_distinct subset_refl h] by simp
  ultimately show ?thesis using ia_reachable_invariant [OF r] by blast
qed

text \<open>The bucket a candle belongs to, before and after the expired ones were closed.\<close>

lemma map_of_filter_wf:
  assumes "wf_map m"
  shows "map_of (filter P m) k = (case map_of m k of None \<Rightarrow> None | Some x \<Rightarrow> if P (k, x) then Some x else None)"
  using assms
proof (induction m)
  case (Cons p m)
  have "map_of m (fst p) = None" using Cons.prems by (simp add: wf_map_def map_of_eq_None_iff)
  with Cons show ?case by (cases p) (auto simp: wf_map_def split: option.split)
qed simp

lemma after_close_bucket:
  assumes "ia_ok s"
  shows "map_of (ia_buildingCandles (after_close D now c s)) k =
    (case map_of (ia_buildingCandles s) k of
       None \<Rightarrow> None
     | Some b \<Rightarrow> if b_Symbol b = c_Symbol c \<and> expired (c_OpenTime c) b then None else Some b)"
  using map_of_filter_wf [OF ia_okD(1) [OF assms]]
  by (auto simp: after_close_def fold_complete_sel building_after_close [OF assms] split: option.split)

lemma expired_bucket:
  assumes "building_ok (bucket_key c i) b" "CHR '':'' \<notin> set (c_Symbol c)" "i \<in> set agg_intervals"
  shows "expired (c_OpenTime c) b \<longleftrightarrow>
    t_ns (getIntervalOpenTime (c_OpenTime c) i) + intervalToDuration i \<le> t_ns (c_OpenTime c)"
proof -
  have "b_CloseTime b = t_Add (b_OpenTime b) (intervalToDuration (b_Interval b))"
    using assms(1) by (simp add: building_ok_def)
  then show ?thesis
    using bucket_same [OF assms] by (simp add: expired_iff t_Add_def)
qed

lemma Process1mCandle_bucket:
  assumes "ia_ok s" "CHR '':'' \<notin> set (c_Symbol c)" "Process1mCandle D now c s = Inr s'" "i \<in> set agg_intervals"
  shows "map_of (ia_buildingCandles s') (bucket_key c i) =
    Some (bucket_add c i
      (if t_ns (getIntervalOpenTime (c_OpenTime c) i) + intervalToDuration i \<le> t_ns (c_OpenTime c) then None
       else map_of (ia_buildingCandles s) (bucket_key c i)))"
proof -
  have s': "s' = fold (updateIntervalCandle D now c) agg_intervals (after_close D now c s)"
    using assms(3) Process1mCandle_eq [OF assms(1,2), of D now] by (simp split: if_splits)
  have "map_of (ia_buildingCandles (after_close D now c s)) (bucket_key c i) =
      (if t_ns (getIntervalOpenTime (c_OpenTime c) i) + intervalToDuration i \<le> t_ns (c_OpenTime c) then None
       else map_of (ia_buildingCandles s) (bucket_key c i))"
  proof (cases "map_of (ia_buildingCandles s) (bucket_key c i)")
    case (Some b)
    then have ok: "building_ok (bucket_key c i) b" by (auto intro: ia_okD(5) [OF assms(1)] dest: map_of_SomeD)
    show ?thesis
      using bucket_same [OF ok assms(2,4)] expired_bucket [OF ok assms(2,4)]
      by (simp add: after_close_bucket [OF assms(1)] Some)
  qed (simp add: after_close_bucket [OF assms(1)])
  then show ?thesis
    unfolding s' by (simp add: fold_update_bucket [OF assms(2) agg_intervals_distinct subset_refl assms(4)])
qed

text \<open>
  C3. No update is lost. After a one-minute candle was processed, the candle under construction of
  every interval of fixed length that it belongs to holds it under its open time (replacing an
  earlier version of the same minute) beside everything it held before; if there was none, it
  holds just this candle.
\<close>

theorem Process1mCandle_accumulates:
  assumes "ia_reachable D s" "CHR '':'' \<notin> set (c_Symbol c)" "Process1mCandle D now c s = Inr s'"
    and "i \<in> set agg_intervals" "i \<noteq> ''1M''" "0 \<le> t_Unix (c_OpenTime c)"
  shows "let key = building_key (c_Symbol c) i (t_Unix (getIntervalOpenTime (c_OpenTime c) i));
      old = (case map_of (ia_buildingCandles s) key of None \<Rightarrow> [] | Some b \<Rightarrow> b_candles1m b)
    in \<exists>b. map_of (ia_buildingCandles s') key = Some b \<and> b_Symbol b = c_Symbol c \<and> b_Interval b = i \<and>
      t_ns (b_OpenTime b) = t_ns (getIntervalOpenTime (c_OpenTime c) i) \<and>
      b_candles1m b = store (t_Unix (c_OpenTime c)) c old"
proof -
  have ok: "ia_ok s" using assms(1) by (induction rule: ia_reachable.induct) (auto intro: ia_ok_New ia_ok_step)
  obtain a P where p: "period_of i = Some (a, P)"
    using assms(4,5) unfolding agg_intervals_def by (auto simp: period_of_def)
  have "t_ns (c_OpenTime c) < t_ns (getIntervalOpenTime (c_OpenTime c) i) + intervalToDuration i"
    using floor_from_bounds(2) [OF period_of_open(3) [OF p assms(6)], where s = a and t = "home_zone i (c_OpenTime c)"]
      period_of_open(1,2) [OF p assms(6)] by (simp add: home_zone_def t_UTC_def split: if_splits)
  then have b: "map_of (ia_buildingCandles s') (bucket_key c i) =
      Some (bucket_add c i (map_of (ia_buildingCandles s) (bucket_key c i)))"
    using Process1mCandle_bucket [OF ok assms(2,3,4)] by simp
  have "building_ok (bucket_key c i) (bucket_add c i (map_of (ia_buildingCandles s) (bucket_key c i)))"
    using assms(2,4) by (rule bucket_add_ok) (auto intro: ia_okD(5) [OF ok] map_of_SomeD)
  note same = bucket_same [OF this assms(2,4)]
  show ?thesis
    using b same unfolding Let_def bucket_key_def [symmetric]
    by (auto simp: bucket_add_def split: option.split)
qed

lemma sample_bucket:
  assumes "i \<in> set agg_intervals"
  shows "map_of (ia_buildingCandles sample_state) (bucket_key sample_candle i) = Some (bucket_add sample_candle i None)"
  using fold_update_bucket [OF sample_no_colon agg_intervals_distinct subset_refl assms, of fd_ops sample_time NewIntervalAggregator]
  by (simp add: NewIntervalAggregator_def)

lemma sample_reachable: "ia_reachable fd_ops sample_state"
  by (rule ia_reachable.step [OF ia_reachable.start]) (rule ia_step.process [OF sample_no_colon sample_process])

lemma sample_ok: "ia_ok sample_state" "\<not> ia_chanClosed sample_state"
  by (simp_all add: ia_ok_updates ia_ok_New sample_no_colon) (simp add: NewIntervalAggregator_def)

text \<open>The same minute one hour later, and a later version of the first minute.\<close>

definition later_candle :: "fixdec candle" where
  "later_candle = sample_candle\<lparr>c_OpenTime := \<lparr>t_ns = 1700003580 * Second, t_off = 0\<rparr>\<rparr>"

theorem closeExpiredIntervals_exact_witness:
  "\<exists>s' gone. closeExpiredIntervals fd_ops sample_time ''BTCUSDT'' (c_OpenTime later_candle) sample_state = Inr s' \<and>
     (bucket_key sample_candle ''1h'', bucket_add sample_candle ''1h'' None) \<in> set gone \<and>
     length (ia_published s') = length (ia_published sample_state) + length gone"
proof -
  have h: "''1h'' \<in> set agg_intervals" by (simp add: agg_intervals_def)
  have "(bucket_key sample_candle ''1h'', bucket_add sample_candle ''1h'' None) \<in> set (ia_buildingCandles sample_state)"
    using sample_bucket [OF h] by (rule map_of_SomeD)
  moreover have "b_Symbol (bucket_add sample_candle ''1h'' None) = ''BTCUSDT''"
    "t_ns (b_CloseTime (bucket_add sample_candle ''1h'' None)) \<le> t_ns (c_OpenTime later_candle)"
    by code_simp+
  ultimately show ?thesis
    using closeExpiredIntervals_exact [OF sample_ok, where symbol = "''BTCUSDT''" and D = fd_ops and
      now = sample_time and ct = "c_OpenTime later_candle"] by fastforce
qed

lemma updated_sample:
  "\<exists>s'. Process1mCandle fd_ops sample_time later_candle sample_state = Inr s'"
  using Process1mCandle_eq [OF sample_ok(1), of later_candle fd_ops sample_time] sample_ok(2)
  by (simp add: later_candle_def sample_no_colon)

theorem Process1mCandle_accumulates_witness:
  "\<exists>s' b. Process1mCandle fd_ops sample_time later_candle sample_state = Inr s' \<and>
     map_of (ia_buildingCandles s') (bucket_key later_candle ''1d'') = Some b \<and>
     b_candles1m b = [(1699999980, sample_candle), (1700003580, later_candle)]"
proof -
  obtain s' where s': "Process1mCandle fd_ops sample_time later_candle sample_state = Inr s'"
    using updated_sample by blast
  have h: "''1d'' \<in> set agg_intervals" "''1d'' \<noteq> ''1M''" "0 \<le> t_Unix (c_OpenTime later_candle)"
    "CHR '':'' \<notin> set (c_Symbol later_candle)"
    by (simp_all add: agg_intervals_def later_candle_def t_Unix_def sample_no_colon)
  have "t_Unix (getIntervalOpenTime (c_OpenTime later_candle) ''1d'') =
      t_Unix (getIntervalOpenTime (c_OpenTime sample_candle) ''1d'')"
    by code_simp
  then have k: "building_key (c_Symbol later_candle) ''1d'' (t_Unix (getIntervalOpenTime (c_OpenTime later_candle) ''1d'')) =
      bucket_key sample_candle ''1d''"
    by (simp add: bucket_key_def) (simp add: later_candle_def)
  have "bucket_key later_candle ''1d'' = bucket_key sample_candle ''1d''"
    by (simp add: bucket_key_def [of later_candle] k)
  moreover have "store (t_Unix (c_OpenTime later_candle)) later_candle (b_candles1m (bucket_add sample_candle ''1d'' None)) =
      [(1699999980, sample_candle), (1700003580, later_candle)]"
    by (simp add: bucket_add_def t_Unix_def sample_candle_def later_candle_def)
  ultimately show ?thesis
    using Process1mCandle_accumulates [OF sample_reachable h(4) s' h(1,2,3)] s'
    unfolding Let_def k sample_bucket [OF h(1)] option.case by metis
qed

text \<open>
  The monthly candle is not accumulated on the 31st of a month: the interval is 30 days long, so
  the first candle of that day closes the month's candle, and every further candle of the day
  closes the one before it. After a candle that opens on a 31st the monthly candle under
  construction holds that candle only. On every other day it keeps what it held.
\<close>

theorem month_restarts_on_31st:
  assumes "ia_reachable D s" "CHR '':'' \<notin> set (c_Symbol c)" "Process1mCandle D now c s = Inr s'"
  shows "let key = building_key (c_Symbol c) ''1M'' (t_Unix (getIntervalOpenTime (c_OpenTime c) ''1M''));
      old = (case map_of (ia_buildingCandles s) key of None \<Rightarrow> [] | Some b \<Rightarrow> b_candles1m b)
    in \<exists>b. map_of (ia_buildingCandles s') key = Some b \<and>
      b_candles1m b = (if t_Day (c_OpenTime c) = 31 then [(t_Unix (c_OpenTime c), c)]
                       else store (t_Unix (c_OpenTime c)) c old)"
proof -
  have ok: "ia_ok s" using assms(1) by (induction rule: ia_reachable.induct) (auto intro: ia_ok_New ia_ok_step)
  have m: "''1M'' \<in> set agg_intervals" by (simp add: agg_intervals_def)
  have "map_of (ia_buildingCandles s') (bucket_key c ''1M'') = Some (bucket_add c ''1M''
      (if t_Day (c_OpenTime c) = 31 then None else map_of (ia_buildingCandles s) (bucket_key c ''1M'')))"
    using Process1mCandle_bucket [OF ok assms(2,3) m] month_day_31 [of "c_OpenTime c"] by simp
  then show ?thesis
    unfolding Let_def bucket_key_def [symmetric] by (auto simp: bucket_add_def split: option.split)
qed

definition month_candle :: "fixdec candle" where
  "month_candle = sample_candle\<lparr>c_OpenTime := \<lparr>t_ns = 1698710400 * Second, t_off = 0\<rparr>\<rparr>"

theorem month_restarts_on_31st_witness:
  "t_Day (c_OpenTime month_candle) = 31 \<and>
   (\<exists>s' b. Process1mCandle fd_ops sample_time month_candle NewIntervalAggregator = Inr s' \<and>
     map_of (ia_buildingCandles s') (bucket_key month_candle ''1M'') = Some b \<and>
     b_candles1m b = [(1698710400, month_candle)])"
proof -
  have c: "CHR '':'' \<notin> set (c_Symbol month_candle)" by (simp add: month_candle_def sample_no_colon)
  obtain s' where s': "Process1mCandle fd_ops sample_time month_candle NewIntervalAggregator = Inr s'"
    using Process1mCandle_eq [OF ia_ok_New c, of fd_ops sample_time] by (simp add: NewIntervalAggregator_def)
  have d: "t_Day (c_OpenTime month_candle) = 31" by code_simp
  have u: "t_Unix (c_OpenTime month_candle) = 1698710400" by (simp add: month_candle_def t_Unix_def)
  show ?thesis
    using month_restarts_on_31st [OF ia_reachable.start c s'] d u s' by (auto simp: bucket_key_def)
qed

text \<open>
  With the channel open a call never panics. After \<open>Stop\<close> closed it, a call panics (send on a
  closed channel) exactly when some candle of the symbol is due to be closed.
\<close>

theorem Process1mCandle_panics_iff:
  assumes "ia_reachable D s" "CHR '':'' \<notin> set (c_Symbol c)"
  shows "Process1mCandle D now c s = Inl SendOnClosedChannel \<longleftrightarrow>
    ia_chanClosed s \<and> (\<exists>(k, b)\<in>set (ia_buildingCandles s). b_Symbol b = c_Symbol c \<and>
      t_ns (b_CloseTime b) \<le> t_ns (c_OpenTime c))"
proof -
  have ok: "ia_ok s" using assms(1) by (induction rule: ia_reachable.induct) (auto intro: ia_ok_New ia_ok_step)
  have "expired_of (c_Symbol c) (c_OpenTime c) s \<noteq> [] \<longleftrightarrow> set (expired_of (c_Symbol c) (c_OpenTime c) s) \<noteq> {}"
    by simp
  also have "\<dots> \<longleftrightarrow> (\<exists>(k, b)\<in>set (ia_buildingCandles s). b_Symbol b = c_Symbol c \<and> t_ns (b_CloseTime b) \<le> t_ns (c_OpenTime c))"
    unfolding set_expired_of [OF ok] by (auto simp: expired_iff)
  finally show ?thesis
    using Process1mCandle_eq [OF ok assms(2), of D now] by auto
qed

theorem Process1mCandle_panics_iff_witness:
  "\<exists>s. ia_reachable fd_ops s \<and> Process1mCandle fd_ops sample_time later_candle s = Inl SendOnClosedChannel"
proof -
  let ?s = "sample_state\<lparr>ia_cancelled := True, ia_chanClosed := True\<rparr>"
  have "ia_Stop sample_state = Inr ?s" using sample_ok(2) by (simp add: ia_Stop_def)
  then have r: "ia_reachable fd_ops ?s" using sample_reachable by (blast intro: ia_reachable.step ia_step.stop)
  have c: "CHR '':'' \<notin> set (c_Symbol later_candle)" by (simp add: later_candle_def sample_no_colon)
  have h: "''1h'' \<in> set agg_intervals" by (simp add: agg_intervals_def)
  have "(bucket_key sample_candle ''1h'', bucket_add sample_candle ''1h'' None) \<in> set (ia_buildingCandles ?s)"
    using sample_bucket [OF h] by (simp add: map_of_SomeD)
  moreover have "b_Symbol (bucket_add sample_candle ''1h'' None) = c_Symbol later_candle"
    "t_ns (b_CloseTime (bucket_add sample_candle ''1h'' None)) \<le> t_ns (c_OpenTime later_candle)"
    by code_simp+
  ultimately have "Process1mCandle fd_ops sample_time later_candle ?s = Inl SendOnClosedChannel"
    using Process1mCandle_panics_iff [OF r c, of sample_time] by auto
  with r show ?thesis by blast
qed

definition sample_building :: "fixdec building_candle" where
  "sample_building = \<lparr>b_Symbol = ''BTCUSDT'', b_Interval = ''1d'', b_OpenTime = getIntervalOpenTime sample_time ''1d'',
     b_CloseTime = t_Add (getIntervalOpenTime sample_time ''1d'') (24 * Hour_d),
     b_candles1m = [(1700003580, later_candle\<lparr>c_Close := FD 370 1, c_High := FD 371 1\<rparr>), (1699999980, sample_candle)],
     b_expected1mCount = 1440\<rparr>"

theorem buildCurrentCandle_ohlcv_witness:
  "c_Open (buildCurrentCandle fd_ops sample_building sample_time) = FD 365 1 \<and>
   c_Close (buildCurrentCandle fd_ops sample_building sample_time) = FD 370 1 \<and>
   fd_val (c_High (buildCurrentCandle fd_ops sample_building sample_time)) = 371 / 10 \<and>
   fd_val (c_Volume (buildCurrentCandle fd_ops sample_building sample_time)) = 24"
proof -
  have h: "wf_map (b_candles1m sample_building)" "b_candles1m sample_building \<noteq> []"
    "\<forall>(t, c)\<in>set (b_candles1m sample_building). fd_val (c_Low c) \<noteq> 0"
    "(1699999980, sample_candle) \<in> set (b_candles1m sample_building)"
    "\<forall>t\<in>fst ` set (b_candles1m sample_building). 1699999980 \<le> t"
    "(1700003580, later_candle\<lparr>c_Close := FD 370 1, c_High := FD 371 1\<rparr>) \<in> set (b_candles1m sample_building)"
    "\<forall>t\<in>fst ` set (b_candles1m sample_building). t \<le> 1700003580"
    by (simp_all add: sample_building_def wf_map_def later_candle_def sample_candle_def)
  let ?r = "buildCurrentCandle fd_ops sample_building sample_time"
  have r: "c_Open ?r = c_Open sample_candle" "c_Close ?r = c_Close (later_candle\<lparr>c_Close := FD 370 1, c_High := FD 371 1\<rparr>)"
    "fd_val (c_High ?r) = Max ((\<lambda>c. fd_val (c_High c)) ` snd ` set (b_candles1m sample_building))"
    "fd_val (c_Volume ?r) = (\<Sum>(t, c)\<leftarrow>b_candles1m sample_building. fd_val (c_Volume c))"
    using buildCurrentCandle_ohlcv [OF fd_api h, of sample_time] unfolding Let_def by blast+
  show ?thesis
    unfolding r by (simp add: sample_building_def later_candle_def sample_candle_def)
qed

section \<open>The latest candle\<close>

definition candidate :: "string \<Rightarrow> string \<times> 'd building_candle \<Rightarrow> bool" where
  "candidate pfx kb = (key_matches (fst kb) pfx \<and> b_candles1m (snd kb) \<noteq> [])"

lemma latest_building_spec:
  fixes D now pfx m
  defines "r \<equiv> latest_building D now pfx m"
  shows "(\<forall>kb\<in>set m. candidate pfx kb \<longrightarrow> t_Unix (b_OpenTime (snd kb)) \<le> fst r) \<and> 0 \<le> fst r \<and>
    (case snd r of
       None \<Rightarrow> fst r = 0
     | Some c \<Rightarrow> \<exists>kb\<in>set m. candidate pfx kb \<and> 0 < t_Unix (b_OpenTime (snd kb)) \<and>
         fst r = t_Unix (b_OpenTime (snd kb)) \<and> c = buildCurrentCandle D (snd kb) now)"
  unfolding r_def
proof (induction m rule: rev_induct)
  case Nil
  then show ?case by (simp add: latest_building_def)
next
  case (snoc kb m)
  obtain ts best where r: "latest_building D now pfx m = (ts, best)" by (cases "latest_building D now pfx m")
  obtain k b where kb: "kb = (k, b)" by (cases kb)
  have "latest_building D now pfx (m @ [kb]) =
      (if candidate pfx kb \<and> ts < t_Unix (b_OpenTime b) then (t_Unix (b_OpenTime b), Some (buildCurrentCandle D b now))
       else (ts, best))"
    using r by (auto simp: latest_building_def kb candidate_def)
  with snoc show ?case
    by (auto simp: r kb split: option.splits if_splits)
qed

text \<open>
  The latest candle of a symbol and interval. If some candle under construction opens after
  1970, the query returns the current state of the one that opens last; otherwise the last
  completed candle, from memory if there is one and else the newest aggregated one the database
  returns for the last thirty days.
\<close>

theorem GetLatestCandle_priority:
  assumes "ia_reachable D s" "CHR '':'' \<notin> set symbol" "interval \<in> set agg_intervals"
  shows "let r = fst (ia_GetLatestCandle D getc now symbol interval s);
      own = {b. \<exists>k. (k, b) \<in> set (ia_buildingCandles s) \<and> b_Symbol b = symbol \<and> b_Interval b = interval}
    in (if \<exists>b\<in>own. 0 < t_Unix (b_OpenTime b)
        then \<exists>b\<in>own. (\<forall>b'\<in>own. t_Unix (b_OpenTime b') \<le> t_Unix (b_OpenTime b)) \<and>
               r = Some (buildCurrentCandle D b now)
        else r = (case map_of (ia_lastCompletedCandles s) (latest_key symbol interval) of
            Some c \<Rightarrow> Some c
          | None \<Rightarrow> (case getc symbol interval ''aggregated'' ''spot'' (t_Add now (- 30 * 24 * Hour_d)) now 1 of
              Some (c # _) \<Rightarrow> Some c | _ \<Rightarrow> None)))"
proof -
  have ok: "ia_ok s" using assms(1) by (induction rule: ia_reachable.induct) (auto intro: ia_ok_New ia_ok_step)
  let ?r = "latest_building D now (building_prefix symbol interval) (ia_buildingCandles s)"
  have cand: "candidate (building_prefix symbol interval) (k, b) \<longleftrightarrow> b_Symbol b = symbol \<and> b_Interval b = interval"
    if "(k, b) \<in> set (ia_buildingCandles s)" for k b
    using ia_okD(5) [OF ok that] assms(2,3)
    by (auto simp: candidate_def building_ok_def key_matches_building agg_intervals_no_colon)
  note spec = latest_building_spec [of "ia_buildingCandles s" "building_prefix symbol interval" D now]
  have last: "fst (GetLastCompletedCandle getc now symbol interval s) =
      (case map_of (ia_lastCompletedCandles s) (latest_key symbol interval) of
         Some c \<Rightarrow> Some c
       | None \<Rightarrow> (case getc symbol interval ''aggregated'' ''spot'' (t_Add now (- 30 * 24 * Hour_d)) now 1 of
           Some (c # _) \<Rightarrow> Some c | _ \<Rightarrow> None))"
    by (auto simp: GetLastCompletedCandle_def Let_def split: option.split list.split)
  show ?thesis
  proof (cases "snd ?r")
    case None
    with spec cand have "\<not> (\<exists>b k. (k, b) \<in> set (ia_buildingCandles s) \<and> b_Symbol b = symbol \<and>
        b_Interval b = interval \<and> 0 < t_Unix (b_OpenTime b))"
      by fastforce
    then show ?thesis
      using None last by (auto simp: ia_GetLatestCandle_def Let_def split: prod.split)
  next
    case (Some c)
    then obtain k b where b: "(k, b) \<in> set (ia_buildingCandles s)" "b_Symbol b = symbol" "b_Interval b = interval"
        "0 < t_Unix (b_OpenTime b)" "fst ?r = t_Unix (b_OpenTime b)" "c = buildCurrentCandle D b now"
      using spec cand by auto
    moreover have "t_Unix (b_OpenTime b') \<le> t_Unix (b_OpenTime b)"
      if "(k', b') \<in> set (ia_buildingCandles s)" "b_Symbol b' = symbol" "b_Interval b' = interval" for k' b'
      using spec cand [OF that(1)] that b(5) by fastforce
    moreover have "fst (ia_GetLatestCandle D getc now symbol interval s) = Some c"
      using Some by (simp add: ia_GetLatestCandle_def Let_def split: prod.split)
    ultimately show ?thesis unfolding Let_def by auto
  qed
qed

theorem GetLatestCandle_priority_witness:
  "fst (ia_GetLatestCandle fd_ops (\<lambda>_ _ _ _ _ _ _. None) sample_time ''BTCUSDT'' ''1h'' sample_state) \<noteq> None"
proof -
  have h: "''1h'' \<in> set agg_intervals" "CHR '':'' \<notin> set ''BTCUSDT''" by (simp_all add: agg_intervals_def)
  have "(bucket_key sample_candle ''1h'', bucket_add sample_candle ''1h'' None) \<in> set (ia_buildingCandles sample_state)"
    using sample_bucket [OF h(1)] by (rule map_of_SomeD)
  moreover have "b_Symbol (bucket_add sample_candle ''1h'' None) = ''BTCUSDT''"
    "b_Interval (bucket_add sample_candle ''1h'' None) = ''1h''"
    "0 < t_Unix (b_OpenTime (bucket_add sample_candle ''1h'' None))"
    by code_simp+
  ultimately have "\<exists>b\<in>{b. \<exists>k. (k, b) \<in> set (ia_buildingCandles sample_state) \<and> b_Symbol b = ''BTCUSDT'' \<and>
      b_Interval b = ''1h''}. 0 < t_Unix (b_OpenTime b)" by blast
  then show ?thesis
    using GetLatestCandle_priority [OF sample_reachable h(2,1), of "\<lambda>_ _ _ _ _ _ _. None" sample_time]
    unfolding Let_def by auto
qed

end
