(* ===== verification/Interval_History.thy ===== *)
theory Interval_History
  imports Interval_Aggregator
begin

text \<open>
  The second half of \<open>internal/services/aggregator/interval_aggregator.go\<close>: what the historical rebuild of the
  higher intervals gives, that it agrees with the candles built live, and that the batch writer hands
  every candle it receives to the database.
\<close>

section \<open>The historical rebuild\<close>

text \<open>A candle is the OHLCV aggregate of a list of candles, in that order.\<close>

definition ohlcv_of :: "('d \<Rightarrow> rat) \<Rightarrow> 'd candle list \<Rightarrow> 'd candle \<Rightarrow> bool" where
  "ohlcv_of v g r \<longleftrightarrow>
     c_Open r = c_Open (hd g) \<and> c_Close r = c_Close (last g) \<and>
     v (c_High r) = Max ((\<lambda>c. v (c_High c)) ` set g) \<and> v (c_Low r) = Min ((\<lambda>c. v (c_Low c)) ` set g) \<and>
     v (c_Volume r) = (\<Sum>c\<leftarrow>g. v (c_Volume c)) \<and> v (c_QuoteVolume r) = (\<Sum>c\<leftarrow>g. v (c_QuoteVolume c)) \<and>
     c_TradeCount r = (\<Sum>c\<leftarrow>g. c_TradeCount c)"

abbreviation bucket_of :: "string \<Rightarrow> 'd candle \<Rightarrow> int" where
  "bucket_of interval c \<equiv> t_Unix (getIntervalOpenTime (c_OpenTime c) interval)"

lemma group_by_interval_spec:
  "wf_map (group_by_interval interval cs) \<and>
   map_of (group_by_interval interval cs) u =
     (let f = filter (\<lambda>c. bucket_of interval c = u) cs in if f = [] then None else Some f)"
proof (induction cs arbitrary: u rule: rev_induct)
  case (snoc c cs)
  have "group_by_interval interval (cs @ [c]) =
      (let g = group_by_interval interval cs; k = bucket_of interval c
       in store k ((case map_of g k of None \<Rightarrow> [] | Some x \<Rightarrow> x) @ [c]) g)"
    by (simp add: group_by_interval_def Let_def)
  moreover have "(case map_of (group_by_interval interval cs) (bucket_of interval c) of None \<Rightarrow> [] | Some x \<Rightarrow> x) =
      filter (\<lambda>d. bucket_of interval d = bucket_of interval c) cs"
    using snoc [of "bucket_of interval c"] by (simp add: Let_def split: option.split if_splits)
  ultimately show ?case
    using snoc by (auto simp: Let_def)
qed (simp add: group_by_interval_def)

lemma group_members:
  "(u, g) \<in> set (group_by_interval interval cs) \<longleftrightarrow>
   g = filter (\<lambda>c. bucket_of interval c = u) cs \<and> g \<noteq> []"
  using group_by_interval_spec [of interval cs u]
  by (auto simp: wf_map_in_set Let_def split: if_splits)

lemma group_keys: "fst ` set (group_by_interval interval cs) = bucket_of interval ` set cs"
proof -
  have "u \<in> dom (map_of (group_by_interval interval cs)) \<longleftrightarrow> u \<in> bucket_of interval ` set cs" for u
    using group_by_interval_spec [of interval cs u] by (auto simp: Let_def filter_empty_conv split: if_splits)
  then show ?thesis unfolding dom_map_of_conv_image_fst by blast
qed

lemma group_step_sel [simp]:
  "o_firstCandle (group_step D a c) = False"
  "o_open (group_step D a c) = (if o_firstCandle a then c_Open c else o_open a)"
  "o_close (group_step D a c) = c_Close c"
  "o_high (group_step D a c) =
     (if o_firstCandle a \<or> d_GreaterThan D (c_High c) (o_high a) then c_High c else o_high a)"
  "o_low (group_step D a c) =
     (if o_firstCandle a \<or> d_LessThan D (c_Low c) (o_low a) then c_Low c else o_low a)"
  "o_volume (group_step D a c) = d_Add D (o_volume a) (c_Volume c)"
  "o_quoteVolume (group_step D a c) = d_Add D (o_quoteVolume a) (c_QuoteVolume c)"
  "o_tradeCount (group_step D a c) = o_tradeCount a + c_TradeCount c"
  by (auto simp: group_step_def Let_def)

context decimal_api
begin

lemma group_fold_rest:
  assumes "\<not> o_firstCandle a"
  shows "o_open (foldl (group_step D) a cs) = o_open a"
    "o_close (foldl (group_step D) a cs) = (if cs = [] then o_close a else c_Close (last cs))"
    "v (o_high (foldl (group_step D) a cs)) = foldl max (v (o_high a)) (map (v \<circ> c_High) cs)"
    "v (o_low (foldl (group_step D) a cs)) = foldl min (v (o_low a)) (map (v \<circ> c_Low) cs)"
  using assms by (induction cs arbitrary: a) (simp_all add: v_simps max_def min_def)

lemma group_fold_sums:
  "v (o_volume (foldl (group_step D) a cs)) = v (o_volume a) + (\<Sum>c\<leftarrow>cs. v (c_Volume c))"
  "v (o_quoteVolume (foldl (group_step D) a cs)) = v (o_quoteVolume a) + (\<Sum>c\<leftarrow>cs. v (c_QuoteVolume c))"
  "o_tradeCount (foldl (group_step D) a cs) = o_tradeCount a + (\<Sum>c\<leftarrow>cs. c_TradeCount c)"
  by (induction cs arbitrary: a) (simp_all add: v_simps add.assoc)

lemma group_candle_ohlcv:
  assumes "g \<noteq> []"
  shows "ohlcv_of v g (group_candle D lz now interval u g)"
proof -
  obtain c cs where g: "g = c # cs" using assms by (cases g) auto
  have st: "o_firstCandle (ohlc_start D)" "v (o_volume (ohlc_start D)) = 0"
    "v (o_quoteVolume (ohlc_start D)) = 0" "o_tradeCount (ohlc_start D) = 0"
    by (simp_all add: ohlc_start_def v_simps)
  then show ?thesis
    using group_fold_rest [of "group_step D (ohlc_start D) c" cs] group_fold_sums [of "group_step D (ohlc_start D) c" cs]
    by (simp add: ohlcv_of_def group_candle_def Let_def g Max_insert_fold Min_insert_fold image_image v_simps)
qed

end

lemma group_candle_time [simp]: "t_Unix (c_OpenTime (group_candle D lz now interval u g)) = u"
  by (simp add: group_candle_def Let_def time_Unix_def t_Unix_def)

lemma sum_over_groups:
  fixes f :: "'d candle \<Rightarrow> rat"
  shows "(\<Sum>(u, g)\<leftarrow>group_by_interval interval cs. \<Sum>c\<leftarrow>g. f c) = (\<Sum>c\<leftarrow>cs. f c)"
proof (induction cs rule: rev_induct)
  case (snoc c cs)
  let ?g = "group_by_interval interval cs" and ?k = "bucket_of interval c" and ?F = "\<lambda>(u :: int, g). \<Sum>c\<leftarrow>g. f c"
  have step: "group_by_interval interval (cs @ [c]) =
      store ?k ((case map_of ?g ?k of None \<Rightarrow> [] | Some x \<Rightarrow> x) @ [c]) ?g"
    by (simp add: group_by_interval_def Let_def)
  have wf: "wf_map ?g" using group_by_interval_spec by blast
  have sm: "sum_list (map ?F m) = (\<Sum>p\<in>#mset m. ?F p)" for m
    by (metis sum_mset_sum_list mset_map)
  have "sum_list (map ?F (group_by_interval interval (cs @ [c]))) = sum_list (map ?F ?g) + f c"
  proof (cases "map_of ?g ?k")
    case None
    then show ?thesis unfolding step sm by (simp add: mset_store_new)
  next
    case (Some x)
    have "(?k, x) \<in># mset ?g" using Some by (simp add: map_of_SomeD)
    then have "(\<Sum>p\<in>#mset ?g. ?F p) = ?F (?k, x) + (\<Sum>p\<in>#mset ?g - {#(?k, x)#}. ?F p)"
      by (metis (no_types, lifting) image_mset_add_mset insert_DiffM sum_mset.add_mset)
    then show ?thesis unfolding step sm by (simp add: mset_store_old [OF wf Some] Some)
  qed
  then show ?case using snoc by simp
qed (simp add: group_by_interval_def)

lemma group1m_map:
  assumes "\<And>g. mset (ord g) = mset g"
  shows "group1mCandlesByInterval D lz ord now cs interval =
    map (\<lambda>(u, g). group_candle D lz now interval u g) (ord (group_by_interval interval cs))"
proof -
  let ?g = "group_by_interval interval cs"
  have set_ord: "set (ord ?g) = set ?g" using assms by (metis set_mset_mset)
  have "filter (\<lambda>(_, g). length g \<noteq> 0) (ord ?g) = ord ?g"
    using group_members [of _ _ interval cs] set_ord by (auto simp: filter_id_conv)
  moreover have "cs = [] \<Longrightarrow> ord ?g = []" using set_ord by (simp add: group_by_interval_def)
  ultimately show ?thesis by (simp add: group1mCandlesByInterval_def)
qed

text \<open>
  C21. The historical rebuild partitions the one-minute candles into the buckets of the interval,
  whatever order the map of groups is ranged over: one closed candle per bucket that has data,
  opening at the start of its bucket, the OHLCV aggregate of the candles of that bucket in the
  order the database returned them; the volumes of the result add up to those of the input.
\<close>

theorem group1mCandlesByInterval_partition:
  assumes "decimal_api D v" "\<And>g. mset (ord g) = mset g"
  shows "let rs = group1mCandlesByInterval D lz ord now cs interval;
      key = (\<lambda>c. t_Unix (getIntervalOpenTime (c_OpenTime c) interval))
    in distinct (map (\<lambda>r. t_Unix (c_OpenTime r)) rs) \<and>
      set (map (\<lambda>r. t_Unix (c_OpenTime r)) rs) = key ` set cs \<and>
      (\<forall>r\<in>set rs. ohlcv_of v (filter (\<lambda>c. key c = t_Unix (c_OpenTime r)) cs) r) \<and>
      (\<Sum>r\<leftarrow>rs. v (c_Volume r)) = (\<Sum>c\<leftarrow>cs. v (c_Volume c))"
proof -
  let ?g = "group_by_interval interval cs" and ?mk = "\<lambda>(u, g). group_candle D lz now interval u g"
  have set_ord: "set (ord ?g) = set ?g" using assms(2) by (metis set_mset_mset)
  have "mset (map fst (ord ?g)) = mset (map fst ?g)" using assms(2) by simp
  moreover have "distinct (map fst ?g)" using group_by_interval_spec wf_map_def by blast
  ultimately have d: "distinct (map fst (ord ?g))" by (metis mset_eq_imp_distinct_iff)
  have times: "map (\<lambda>r. t_Unix (c_OpenTime r)) (map ?mk (ord ?g)) = map fst (ord ?g)"
    by (auto simp: case_prod_unfold)
  have keys: "fst ` set (ord ?g) = bucket_of interval ` set cs"
    unfolding set_ord by (rule group_keys)
  have each: "ohlcv_of v (filter (\<lambda>c. bucket_of interval c = u) cs) (?mk (u, g))"
    and members: "g = filter (\<lambda>c. bucket_of interval c = u) cs" if "(u, g) \<in> set (ord ?g)" for u g
    using decimal_api.group_candle_ohlcv [OF assms(1), of g lz now interval u] that set_ord
      group_members [of u g interval cs] by auto
  have vol: "v (c_Volume (?mk p)) = (\<Sum>c\<leftarrow>snd p. v (c_Volume c))" if p: "p \<in> set (ord ?g)" for p
    using each [of "fst p" "snd p"] members [of "fst p" "snd p"] p by (simp add: ohlcv_of_def case_prod_unfold)
  have "\<forall>r\<in>set (map ?mk (ord ?g)). ohlcv_of v (filter (\<lambda>c. bucket_of interval c = t_Unix (c_OpenTime r)) cs) r"
    using each by auto
  moreover have "(\<Sum>r\<leftarrow>map ?mk (ord ?g). v (c_Volume r)) = (\<Sum>p\<leftarrow>ord ?g. \<Sum>c\<leftarrow>snd p. v (c_Volume c))"
    by (simp add: comp_def vol cong: map_cong)
  moreover have "(\<Sum>p\<leftarrow>ord ?g. \<Sum>c\<leftarrow>snd p. v (c_Volume c)) = (\<Sum>p\<leftarrow>?g. \<Sum>c\<leftarrow>snd p. v (c_Volume c))"
    using assms(2) by (rule sum_list_mset_cong)
  moreover have "(\<Sum>p\<leftarrow>?g. \<Sum>c\<leftarrow>snd p. v (c_Volume c)) = (\<Sum>c\<leftarrow>cs. v (c_Volume c))"
    using sum_over_groups [of "\<lambda>c. v (c_Volume c)" interval cs] by (simp add: case_prod_unfold)
  ultimately show ?thesis
    unfolding Let_def group1m_map [OF assms(2)] times using d keys by simp
qed

theorem group1mCandlesByInterval_partition_witness:
  "(\<Sum>r\<leftarrow>group1mCandlesByInterval fd_ops 0 rev sample_time [sample_candle, later_candle, month_candle] ''1h''.
     fd_val (c_Volume r)) = 36"
proof -
  have "(\<Sum>r\<leftarrow>group1mCandlesByInterval fd_ops 0 rev sample_time [sample_candle, later_candle, month_candle] ''1h''.
     fd_val (c_Volume r)) = (\<Sum>c\<leftarrow>[sample_candle, later_candle, month_candle]. fd_val (c_Volume c))"
    using group1mCandlesByInterval_partition [OF fd_api mset_rev, of 0 sample_time "[sample_candle, later_candle, month_candle]" "''1h''"]
    unfolding Let_def by blast
  then show ?thesis by (simp add: sample_candle_def later_candle_def month_candle_def)
qed

section \<open>The rebuild agrees with the live candles\<close>

text \<open>The two loops differ only in the test for a low of zero.\<close>

lemma group_fold_eq_ohlc:
  "\<forall>c\<in>set cs. \<not> d_IsZero D (c_Low c) \<Longrightarrow> o_firstCandle a \<or> \<not> d_IsZero D (o_low a) \<Longrightarrow>
   foldl (group_step D) a cs = foldl (ohlc_step D) a cs"
proof (induction cs arbitrary: a)
  case (Cons c cs)
  have "group_step D a c = ohlc_step D a c"
    using Cons.prems by (auto simp: group_step_def ohlc_step_def Let_def)
  moreover have "\<not> d_IsZero D (o_low (ohlc_step D a c))" using Cons.prems by auto
  ultimately show ?case using Cons by simp
qed simp

lemma group_of_one_bucket:
  assumes "cs \<noteq> []" "\<forall>c\<in>set cs. bucket_of interval c = u"
  shows "group_by_interval interval cs = [(u, cs)]"
proof -
  have all: "filter (\<lambda>c. bucket_of interval c = u) cs = cs" using assms(2) by (simp add: filter_id_conv)
  have "set (group_by_interval interval cs) = {(u, cs)}"
    using assms group_members [of _ _ interval cs] group_keys [of interval cs] all by (auto simp: filter_empty_conv)
  moreover have "distinct (group_by_interval interval cs)"
    using group_by_interval_spec [of interval cs] by (auto simp: wf_map_def distinct_map)
  ultimately obtain g where "group_by_interval interval cs = [g]"
    using distinct_card [of "group_by_interval interval cs"] by (metis One_nat_def card.empty card_insert_disjoint empty_iff finite.emptyI length_0_conv length_Suc_conv)
  then show ?thesis using \<open>set (group_by_interval interval cs) = {(u, cs)}\<close> by simp
qed

text \<open>
  C8. The two ways to a higher interval agree. Take any reachable state with its channel open, and a candle under
  construction whose minutes have lows that are not zero. The candle that closing it stores, and the one that
  the historical rebuild makes from the same minutes in chronological order, as the repository returns
  them, are the same: one candle, of the same opening and closing instants, equal in every other field.
\<close>

theorem historical_rebuild_equals_live:
  assumes "ia_reachable D s" "\<not> ia_chanClosed s" "(k, b) \<in> set (ia_buildingCandles s)"
    and "\<forall>c\<in>snd ` set (b_candles1m b). \<not> d_IsZero D (c_Low c)" "\<And>g. mset (ord g) = mset g"
  shows "\<exists>s' c r. completeIntervalNow D now b (b_Interval b) k s = Inr s' \<and>
    map_of (ia_lastCompletedCandles s') (latest_key (b_Symbol b) (b_Interval b)) = Some c \<and>
    group1mCandlesByInterval D lz ord now (in_order (b_candles1m b)) (b_Interval b) = [r] \<and>
    t_ns (c_OpenTime r) = t_ns (c_OpenTime c) \<and> t_ns (c_CloseTime r) = t_ns (c_CloseTime c) \<and>
    r\<lparr>c_OpenTime := c_OpenTime c, c_CloseTime := c_CloseTime c\<rparr> = c"
proof -
  let ?cs = "in_order (b_candles1m b)" and ?i = "b_Interval b" and ?u = "t_Unix (b_OpenTime b)"
  have "ia_ok s" using assms(1) by (induction rule: ia_reachable.induct) (auto intro: ia_ok_New ia_ok_step)
  then have ok: "building_ok k b" using ia_okD(5) assms(3) by blast
  then have wf: "wf_map (b_candles1m b)" and ne: "?cs \<noteq> []" by (simp_all add: building_ok_def)
  then have set: "set ?cs = snd ` set (b_candles1m b)" by (simp add: set_in_order)
  have sy: "c_Symbol c = b_Symbol b" and u: "bucket_of ?i c = ?u" if "c \<in> set ?cs" for c
    using ok that unfolding set building_ok_def list_all_iff by auto
  have one: "ord [(?u, ?cs)] = [(?u, ?cs)]" using assms(5) [of "[(?u, ?cs)]"] by (metis mset_single_iff_right mset.simps)
  have "foldl (group_step D) (ohlc_start D) ?cs = aggregate_1m D (b_candles1m b)"
    unfolding aggregate_1m_in_order using assms(4) set by (intro group_fold_eq_ohlc) (auto simp: ohlc_start_def)
  moreover have "c_Symbol (hd ?cs) = b_Symbol b" using ne by (intro sy) simp
  moreover have "group1mCandlesByInterval D lz ord now ?cs ?i = [group_candle D lz now ?i ?u ?cs]"
    unfolding group1m_map [OF assms(5)] using ne u by (simp add: group_of_one_bucket [of ?cs ?i ?u] one)
  ultimately show ?thesis
    using ok completeIntervalNow_open [OF assms(2) refl [of ?i], of D now k]
    by (auto simp: group_candle_def Let_def completed_def agg_candle_def time_Unix_def t_Add_def building_ok_def complete_one_def)
qed

theorem historical_rebuild_equals_live_witness:
  "\<exists>s' c r. completeIntervalNow fd_ops sample_time (bucket_add sample_candle ''1h'' None) ''1h'' (bucket_key sample_candle ''1h'') sample_state = Inr s' \<and>
    map_of (ia_lastCompletedCandles s') ''BTCUSDT:1h'' = Some c \<and>
    group1mCandlesByInterval fd_ops 0 rev sample_time [sample_candle] ''1h'' = [r] \<and>
    r\<lparr>c_OpenTime := c_OpenTime c, c_CloseTime := c_CloseTime c\<rparr> = c"
proof -
  let ?b = "bucket_add sample_candle ''1h'' None" and ?k = "bucket_key sample_candle ''1h''"
  have "map_of (ia_buildingCandles sample_state) ?k = Some ?b" by (rule sample_bucket) (simp add: agg_intervals_def)
  then have mem: "(?k, ?b) \<in> set (ia_buildingCandles sample_state)" by (rule map_of_SomeD)
  have sel: "b_Interval ?b = ''1h''" "b_Symbol ?b = ''BTCUSDT''" "in_order (b_candles1m ?b) = [sample_candle]"
    by (simp_all add: bucket_add_def in_order_def) (simp add: sample_candle_def)
  have low: "\<forall>c\<in>snd ` set (b_candles1m ?b). \<not> d_IsZero fd_ops (c_Low c)"
    by (simp add: bucket_add_def sample_candle_def fd_ops_def)
  show ?thesis
    using historical_rebuild_equals_live [OF sample_reachable sample_ok(2) mem low mset_rev, of sample_time 0]
    unfolding sel by (auto simp: latest_key_def)
qed

section \<open>The batch writer loses nothing\<close>

primrec received :: "'d bw_event list \<Rightarrow> 'd candle list" where
  "received [] = []"
| "received (e # es) = (case e of Received c \<Rightarrow> c # received es | Tick \<Rightarrow> received es | _ \<Rightarrow> [])"

lemma bw_flush_sel [simp]:
  "bw_batch (bw_flush w) = []" "concat (bw_writes (bw_flush w)) = concat (bw_writes w) @ bw_batch w"
  "bw_returned (bw_flush w) = bw_returned w"
  "set (bw_writes (bw_flush w)) = set (bw_writes w) \<union> (if bw_batch w = [] then {} else {bw_batch w})"
  by (simp_all add: bw_flush_def)

definition bw_ok :: "'d batch_writer \<Rightarrow> bool" where
  "bw_ok w \<longleftrightarrow> length (bw_batch w) < 50 \<and> (bw_returned w \<longrightarrow> bw_batch w = []) \<and>
     list_all (\<lambda>b. b \<noteq> [] \<and> length b \<le> 50) (bw_writes w)"

lemma bw_ok_step: "bw_ok w \<Longrightarrow> bw_ok (batchWriter_step w e)"
  by (cases e) (auto simp: bw_ok_def batchWriter_step_def Let_def list_all_iff)

lemma bw_returned_stays: "bw_returned w \<Longrightarrow> foldl batchWriter_step w es = w"
  by (induction es) (simp_all add: batchWriter_step_def)

lemma bw_conserves:
  "\<not> bw_returned w \<Longrightarrow>
   concat (bw_writes (foldl batchWriter_step w es)) @ bw_batch (foldl batchWriter_step w es) =
     concat (bw_writes w) @ bw_batch w @ received es"
proof (induction es arbitrary: w)
  case (Cons e es)
  show ?case
  proof (cases "bw_returned (batchWriter_step w e)")
    case True
    then have "e = CtxDone \<or> e = ChanClosed"
      using Cons.prems by (cases e) (auto simp: batchWriter_step_def Let_def split: if_splits)
    then show ?thesis
      using True Cons.prems by (auto simp: bw_returned_stays) (auto simp: batchWriter_step_def)
  next
    case False
    with Cons show ?thesis
      by (cases e) (simp_all, simp_all add: batchWriter_step_def Let_def)
  qed
qed simp

text \<open>
  C22. The batch writer conserves candles: whatever sequence of receives, ticks and shutdown signals
  it sees, the candles written followed by those still in the batch are exactly the candles it
  received before it returned, in order; no write is empty or larger than 50, the pending batch is
  smaller than 50, and nothing is pending after it returned.
\<close>

theorem batchWriter_conserves:
  "let w = foldl batchWriter_step bw_start es in
    concat (bw_writes w) @ bw_batch w = received es \<and> length (bw_batch w) < 50 \<and>
    list_all (\<lambda>b. b \<noteq> [] \<and> length b \<le> 50) (bw_writes w) \<and>
    (bw_returned w \<longrightarrow> bw_batch w = [])"
proof -
  have "bw_ok (foldl batchWriter_step w es)" if "bw_ok w" for w
    using that by (induction es arbitrary: w) (simp_all add: bw_ok_step)
  moreover have "bw_ok bw_start" by (simp add: bw_ok_def bw_start_def)
  ultimately show ?thesis
    using bw_conserves [of bw_start es] by (auto simp: Let_def bw_ok_def bw_start_def)
qed

theorem batchWriter_conserves_witness:
  "let w = foldl batchWriter_step bw_start [Received sample_candle, Received later_candle, ChanClosed] in
    bw_returned w \<and> bw_batch w = [] \<and> concat (bw_writes w) = [sample_candle, later_candle]"
proof -
  let ?es = "[Received sample_candle, Received later_candle, ChanClosed]"
  have "bw_returned (foldl batchWriter_step bw_start ?es)"
    by (simp add: batchWriter_step_def bw_start_def Let_def)
  then show ?thesis
    using batchWriter_conserves [of ?es] unfolding Let_def by auto
qed

end
