(* ===== verification/Config.thy ===== *)
theory Config
  imports GoTime "HOL-Library.Log_Nat"
begin

text \<open>
  \<open>internal/config/config.go\<close>: the configuration read from the environment. An environment is a function
  from names to values, empty for a variable that is not set, as \<open>os.Getenv\<close> reports it; it is the one
  after \<open>godotenv.Load\<close>, which is not part of the repository, has added the variables of a \<open>.env\<close> file.

  Of the standard library the file uses \<open>strconv.Atoi\<close>, \<open>strconv.ParseBool\<close> and \<open>time.ParseDuration\<close>,
  which are modelled, and \<open>strconv.ParseFloat\<close>, an argument \<open>parseFloat\<close>: its value only reaches the answer
  of one HTTP endpoint. An \<open>int\<close> is an integer of 64 bits; the products with \<open>time.Second\<close> wrap around.
\<close>

section \<open>Parsers of the standard library\<close>

definition in_int64 :: "int \<Rightarrow> bool" where
  "in_int64 n \<longleftrightarrow> - (2 ^ 63) \<le> n \<and> n < 2 ^ 63"

text \<open>\<open>strconv.Atoi\<close>: \<open>None\<close> is a syntax or range error.\<close>

definition Atoi :: "string \<Rightarrow> int option" where
  "Atoi s = (case parse_syntax s of None \<Rightarrow> None | Some n \<Rightarrow> if in_int64 n then Some n else None)"

definition ParseBool :: "string \<Rightarrow> bool option" where
  "ParseBool s =
     (if s \<in> set [''1'', ''t'', ''T'', ''true'', ''TRUE'', ''True''] then Some True
      else if s \<in> set [''0'', ''f'', ''F'', ''false'', ''FALSE'', ''False''] then Some False
      else None)"

text \<open>
  A positive rational rounded to a \<open>float64\<close>: 53 binary digits, ties to even. The exponent is not
  bounded; where \<open>ParseDuration\<close> leaves the range of \<open>float64\<close>, it truncates to 0 both ways.
\<close>

definition round_even :: "rat \<Rightarrow> int" where
  "round_even x =
     (let n = \<lfloor>x\<rfloor>; r = x - of_int n in
      if r < 1 / 2 then n else if r > 1 / 2 then n + 1 else if even n then n else n + 1)"

definition f64 :: "rat \<Rightarrow> rat" where
  "f64 x =
     (if x \<le> 0 then 0
      else
        (let (a, b) = quotient_of x;
             k = bitlen a - bitlen b - 53;
             scaled = (\<lambda>k. if k \<ge> 0 then x / 2 ^ nat k else x * 2 ^ nat (- k));
             k = (if scaled k < 2 ^ 53 then k else k + 1);
             m = of_int (round_even (scaled k))
         in if k \<ge> 0 then m * 2 ^ nat k else m / 2 ^ nat (- k)))"

text \<open>\<open>leadingInt\<close> of package \<open>time\<close>: the number in front, \<open>None\<close> when it exceeds \<open>2^63\<close>.\<close>

fun leadingInt :: "nat \<Rightarrow> string \<Rightarrow> (nat \<times> string) option" where
  "leadingInt x [] = Some (x, [])"
| "leadingInt x (c # cs) =
     (if \<not> is_digit c then Some (x, c # cs)
      else if x > 2 ^ 63 div 10 then None
      else (let x = x * 10 + digit_val c in if x > 2 ^ 63 then None else leadingInt x cs))"

text \<open>\<open>leadingFraction\<close>: the digits after the point and the power of ten they are divided by; further digits are dropped.\<close>

fun leadingFraction :: "nat \<Rightarrow> rat \<Rightarrow> bool \<Rightarrow> string \<Rightarrow> nat \<times> rat \<times> string" where
  "leadingFraction x scale overflow [] = (x, scale, [])"
| "leadingFraction x scale overflow (c # cs) =
     (if \<not> is_digit c then (x, scale, c # cs)
      else if overflow then leadingFraction x scale True cs
      else if x > (2 ^ 63 - 1) div 10 then leadingFraction x scale True cs
      else (let y = x * 10 + digit_val c in
            if y > 2 ^ 63 then leadingFraction x scale True cs
            else leadingFraction y (f64 (scale * 10)) False cs))"

text \<open>The units; both spellings of the micro sign are in UTF-8.\<close>

definition unitMap :: "string \<Rightarrow> nat option" where
  "unitMap u =
     (if u = ''ns'' then Some 1
      else if u = ''us'' \<or> u = [CHR 0xC2, CHR 0xB5, CHR ''s''] \<or> u = [CHR 0xCE, CHR 0xBC, CHR ''s''] then Some 1000
      else if u = ''ms'' then Some 1000000
      else if u = ''s'' then Some 1000000000
      else if u = ''m'' then Some 60000000000
      else if u = ''h'' then Some 3600000000000
      else None)"

definition unit_char :: "char \<Rightarrow> bool" where
  "unit_char c \<longleftrightarrow> \<not> (c = CHR ''.'' \<or> is_digit c)"

text \<open>One turn of the loop: a number with its unit.\<close>

definition duration_part :: "string \<Rightarrow> (nat \<times> string) option" where
  "duration_part s =
     (if s = [] \<or> unit_char (hd s) then None
      else case leadingInt 0 s of
        None \<Rightarrow> None
      | Some (v, s1) \<Rightarrow>
          let pre = (length s \<noteq> length s1);
              (f, scale, s2, post) =
                (if s1 \<noteq> [] \<and> hd s1 = CHR ''.'' then
                   (let (f, scale, s2) = leadingFraction 0 1 False (tl s1) in (f, scale, s2, length (tl s1) \<noteq> length s2))
                 else (0, 1, s1, False));
              u = takeWhile unit_char s2; s3 = dropWhile unit_char s2
          in if \<not> pre \<and> \<not> post then None
             else if u = [] then None
             else case unitMap u of
               None \<Rightarrow> None
             | Some unit \<Rightarrow>
                 if v > 2 ^ 63 div unit then None
                 else
                   (let v = v * unit;
                        v = (if f > 0 then v + nat \<lfloor>f64 (f64 (of_nat f) * f64 (of_nat unit / scale))\<rfloor> else v)
                    in if v > 2 ^ 63 then None else Some (v, s3)))"

lemma leadingInt_length: "leadingInt x s = Some (v, s') \<Longrightarrow> length s' \<le> length s"
  by (induction x s rule: leadingInt.induct) (fastforce simp: Let_def split: if_splits)+

lemma leadingFraction_length: "leadingFraction x scale ov s = (f, sc, s') \<Longrightarrow> length s' \<le> length s"
  by (induction x scale ov s rule: leadingFraction.induct) (fastforce simp: Let_def split: if_splits)+

lemma duration_part_shorter:
  assumes "duration_part s = Some (v, s')"
  shows "length s' < length s"
proof -
  have *: "length (dropWhile unit_char t) < length t" if "takeWhile unit_char t \<noteq> []" for t
    using that by (metis add_less_same_cancel2 length_append length_greater_0_conv less_add_same_cancel2 takeWhile_dropWhile_id)
  obtain w s1 where w: "leadingInt 0 s = Some (w, s1)"
    using assms by (auto simp: duration_part_def split: if_splits option.splits)
  obtain f scale s2 where f: "leadingFraction 0 1 False (tl s1) = (f, scale, s2)" by (cases "leadingFraction 0 1 False (tl s1)")
  have "length s1 \<le> length s" by (rule leadingInt_length [OF w])
  moreover have "length s2 \<le> length s1" using leadingFraction_length [OF f] by simp
  ultimately show ?thesis
    using assms * [of s1] * [of s2]
    by (auto simp: duration_part_def w f Let_def split: if_splits option.splits)
qed

function duration_parts :: "nat \<Rightarrow> string \<Rightarrow> nat option" where
  "duration_parts d s =
     (if s = [] then Some d
      else case duration_part s of
        None \<Rightarrow> None
      | Some (v, s) \<Rightarrow> if d + v > 2 ^ 63 then None else duration_parts (d + v) s)"
  by pat_completeness auto
termination
  by (relation "measure (\<lambda>(d, s). length s)") (auto intro: duration_part_shorter)

declare duration_parts.simps [simp del]

definition ParseDuration :: "string \<Rightarrow> int option" where
  "ParseDuration s =
     (let signed = (s \<noteq> [] \<and> (hd s = CHR ''-'' \<or> hd s = CHR ''+''));
          neg = (signed \<and> hd s = CHR ''-'');
          s = (if signed then tl s else s)
      in if s = ''0'' then Some 0
         else if s = [] then None
         else case duration_parts 0 s of
           None \<Rightarrow> None
         | Some d \<Rightarrow> if neg then Some (- int d) else if d > 2 ^ 63 - 1 then None else Some (int d))"

section \<open>The structures\<close>

record server_config =
  cv_GRPCPort :: int
  cv_HTTPPort :: int
  cv_Environment :: string

record clickhouse_config =
  ch_Host :: string
  ch_Port :: int
  ch_Database :: string
  ch_Username :: string
  ch_Password :: string

record redis_config =
  rd_Host :: string
  rd_Port :: int
  rd_Password :: string
  rd_DB :: int
  rd_PubSubChannel :: string

record cache_config =
  cc_PriceTTL :: int
  cc_MarkPriceTTL :: int
  cc_CandleTTL :: int

record limits_config =
  cl_MaxCandlesLimit :: int
  cl_DefaultCandlesLimit :: int
  cl_BatchWriteSize :: int
  cl_BatchWriteInterval :: int

record 'f symbols_config =
  cs_SubscriptionStrategy :: string
  cs_MaxSymbols :: int
  cs_MinVolume :: 'f
  cs_RefreshInterval :: int
  cs_AutoSubscribe :: bool

record exchanges_config =
  cx_EnableBinance :: bool
  cx_EnableKraken :: bool
  cx_EnableCoinbase :: bool
  cx_EnableBybit :: bool
  cx_EnableOKX :: bool
  cx_EnableGateIO :: bool

record markprice_config =
  cm_UpdateInterval :: int
  cm_EMAPeriod :: int

record logging_config =
  lg_Level :: string
  lg_Format :: string

record 'f config =
  cf_Server :: server_config
  cf_ClickHouse :: clickhouse_config
  cf_Redis :: redis_config
  cf_Cache :: cache_config
  cf_Service :: limits_config
  cf_Symbol :: "'f symbols_config"
  cf_Exchange :: exchanges_config
  cf_MarkPrice :: markprice_config
  cf_Logging :: logging_config

section \<open>Reading the environment\<close>

type_synonym environ = "string \<Rightarrow> string"

definition getEnv :: "environ \<Rightarrow> string \<Rightarrow> string \<Rightarrow> string" where
  "getEnv env key defaultValue = (if env key \<noteq> '''' then env key else defaultValue)"

definition getEnvInt :: "environ \<Rightarrow> string \<Rightarrow> int \<Rightarrow> int" where
  "getEnvInt env key defaultValue =
     (if env key \<noteq> '''' then (case Atoi (env key) of Some intVal \<Rightarrow> intVal | None \<Rightarrow> defaultValue) else defaultValue)"

definition getEnvBool :: "environ \<Rightarrow> string \<Rightarrow> bool \<Rightarrow> bool" where
  "getEnvBool env key defaultValue =
     (if env key \<noteq> '''' then (case ParseBool (env key) of Some boolVal \<Rightarrow> boolVal | None \<Rightarrow> defaultValue) else defaultValue)"

definition getEnvFloat :: "(string \<Rightarrow> 'f option) \<Rightarrow> environ \<Rightarrow> string \<Rightarrow> 'f \<Rightarrow> 'f" where
  "getEnvFloat parseFloat env key defaultValue =
     (if env key \<noteq> '''' then (case parseFloat (env key) of Some floatVal \<Rightarrow> floatVal | None \<Rightarrow> defaultValue) else defaultValue)"

definition parseDuration :: "string \<Rightarrow> int \<Rightarrow> int" where
  "parseDuration s defaultValue = (case ParseDuration s of None \<Rightarrow> defaultValue | Some d \<Rightarrow> d)"

text \<open>\<open>time.Duration(n) * time.Second\<close>, at 64 bits.\<close>

definition seconds :: "int \<Rightarrow> int" where
  "seconds n = sint ((word_of_int n :: 64 word) * word_of_int Second)"

definition Load :: "(string \<Rightarrow> 'f option) \<Rightarrow> 'f \<Rightarrow> environ \<Rightarrow> 'f config" where
  "Load parseFloat zero env = \<lparr>
     cf_Server = \<lparr>
       cv_GRPCPort = getEnvInt env ''SERVER_PORT'' 50051,
       cv_HTTPPort = getEnvInt env ''HTTP_PORT'' 8080,
       cv_Environment = getEnv env ''ENVIRONMENT'' ''development''\<rparr>,
     cf_ClickHouse = \<lparr>
       ch_Host = getEnv env ''CLICKHOUSE_HOST'' ''localhost'',
       ch_Port = getEnvInt env ''CLICKHOUSE_PORT'' 9000,
       ch_Database = getEnv env ''CLICKHOUSE_DATABASE'' ''trade'',
       ch_Username = getEnv env ''CLICKHOUSE_USERNAME'' ''default'',
       ch_Password = getEnv env ''CLICKHOUSE_PASSWORD'' ''''\<rparr>,
     cf_Redis = \<lparr>
       rd_Host = getEnv env ''REDIS_HOST'' ''localhost'',
       rd_Port = getEnvInt env ''REDIS_PORT'' 6379,
       rd_Password = getEnv env ''REDIS_PASSWORD'' '''',
       rd_DB = getEnvInt env ''REDIS_DB'' 0,
       rd_PubSubChannel = getEnv env ''REDIS_PUBSUB_CHANNEL'' ''nyyu:market:updates''\<rparr>,
     cf_Cache = \<lparr>
       cc_PriceTTL = seconds (getEnvInt env ''CACHE_TTL_PRICE'' 60),
       cc_MarkPriceTTL = seconds (getEnvInt env ''CACHE_TTL_MARK_PRICE'' 3),
       cc_CandleTTL = seconds (getEnvInt env ''CACHE_TTL_CANDLE'' 5)\<rparr>,
     cf_Service = \<lparr>
       cl_MaxCandlesLimit = getEnvInt env ''MAX_CANDLES_LIMIT'' 1000,
       cl_DefaultCandlesLimit = getEnvInt env ''DEFAULT_CANDLES_LIMIT'' 100,
       cl_BatchWriteSize = getEnvInt env ''BATCH_WRITE_SIZE'' 100,
       cl_BatchWriteInterval = parseDuration (getEnv env ''BATCH_WRITE_INTERVAL'' ''1s'') (1 * Second)\<rparr>,
     cf_Symbol = \<lparr>
       cs_SubscriptionStrategy = getEnv env ''SYMBOL_SUBSCRIPTION_STRATEGY'' ''top_N'',
       cs_MaxSymbols = getEnvInt env ''SYMBOL_MAX_SYMBOLS'' 50,
       cs_MinVolume = getEnvFloat parseFloat env ''SYMBOL_MIN_VOLUME'' zero,
       cs_RefreshInterval = parseDuration (getEnv env ''SYMBOL_REFRESH_INTERVAL'' ''1h'') (1 * Hour_d),
       cs_AutoSubscribe = getEnvBool env ''SYMBOL_AUTO_SUBSCRIBE'' True\<rparr>,
     cf_Exchange = \<lparr>
       cx_EnableBinance = getEnvBool env ''ENABLE_BINANCE'' True,
       cx_EnableKraken = getEnvBool env ''ENABLE_KRAKEN'' True,
       cx_EnableCoinbase = getEnvBool env ''ENABLE_COINBASE'' True,
       cx_EnableBybit = getEnvBool env ''ENABLE_BYBIT'' True,
       cx_EnableOKX = getEnvBool env ''ENABLE_OKX'' True,
       cx_EnableGateIO = getEnvBool env ''ENABLE_GATEIO'' True\<rparr>,
     cf_MarkPrice = \<lparr>
       cm_UpdateInterval = parseDuration (getEnv env ''MARK_PRICE_UPDATE_INTERVAL'' ''100ms'') (100 * Millisecond),
       cm_EMAPeriod = getEnvInt env ''FUNDING_RATE_EMA_PERIOD'' 20\<rparr>,
     cf_Logging = \<lparr>
       lg_Level = getEnv env ''LOG_LEVEL'' ''info'',
       lg_Format = getEnv env ''LOG_FORMAT'' ''json''\<rparr>\<rparr>"

datatype config_error = ClickHouseHostRequired | RedisHostRequired

definition Validate :: "'f config \<Rightarrow> config_error option" where
  "Validate c =
     (if ch_Host (cf_ClickHouse c) = '''' then Some ClickHouseHostRequired
      else if rd_Host (cf_Redis c) = '''' then Some RedisHostRequired
      else None)"

definition DSN :: "clickhouse_config \<Rightarrow> string" where
  "DSN c = ''clickhouse://'' @ ch_Username c @ '':'' @ ch_Password c @ ''@'' @ ch_Host c @ '':'' @ show_int (ch_Port c) @
     ''/'' @ ch_Database c @ ''?dial_timeout=10s&max_execution_time=60''"

definition Addr :: "redis_config \<Rightarrow> string" where
  "Addr c = rd_Host c @ '':'' @ show_int (rd_Port c)"

section \<open>The values a configuration can have\<close>

text \<open>What the types of the fields and the defaults promise.\<close>

definition config_ok :: "'f config \<Rightarrow> bool" where
  "config_ok c \<longleftrightarrow> Validate c = None \<and>
     list_all in_int64 [cv_GRPCPort (cf_Server c), cv_HTTPPort (cf_Server c), ch_Port (cf_ClickHouse c), rd_Port (cf_Redis c), rd_DB (cf_Redis c),
       cc_PriceTTL (cf_Cache c), cc_MarkPriceTTL (cf_Cache c), cc_CandleTTL (cf_Cache c), cl_MaxCandlesLimit (cf_Service c),
       cl_DefaultCandlesLimit (cf_Service c), cl_BatchWriteSize (cf_Service c), cl_BatchWriteInterval (cf_Service c),
       cs_MaxSymbols (cf_Symbol c), cs_RefreshInterval (cf_Symbol c), cm_UpdateInterval (cf_MarkPrice c), cm_EMAPeriod (cf_MarkPrice c)] \<and>
     list_all (\<lambda>s. s \<noteq> '''') [cv_Environment (cf_Server c), ch_Database (cf_ClickHouse c), ch_Username (cf_ClickHouse c),
       rd_PubSubChannel (cf_Redis c), cs_SubscriptionStrategy (cf_Symbol c), lg_Level (cf_Logging c), lg_Format (cf_Logging c)]"

lemma in_int64_small: "\<bar>n\<bar> < 2 ^ 62 \<Longrightarrow> in_int64 n"
  by (simp add: in_int64_def abs_less_iff)

lemma Atoi_range: "Atoi s = Some n \<Longrightarrow> in_int64 n"
  by (auto simp: Atoi_def split: option.splits if_splits)

lemma getEnvInt_range: "in_int64 d \<Longrightarrow> in_int64 (getEnvInt env key d)"
  using Atoi_range by (auto simp: getEnvInt_def split: option.split)

lemma seconds_range: "in_int64 (seconds n)"
  using sint_range_size [of "(word_of_int n :: 64 word) * word_of_int Second"]
  by (simp add: seconds_def in_int64_def word_size)

text \<open>A time to live is exact up to 292 years; beyond it wraps around, and may become negative.\<close>

lemma seconds_exact: "\<bar>n\<bar> \<le> 9223372036 \<Longrightarrow> seconds n = n * Second"
  unfolding seconds_def wi_hom_mult sint_sbintrunc' by (rule signed_take_bit_int_eq_self) (simp_all add: abs_le_iff)

lemma seconds_wraps: "seconds 9223372037 < 0"
  by (simp add: seconds_def)

lemma duration_parts_bound: "duration_parts d s = Some n \<Longrightarrow> d \<le> 2 ^ 63 \<Longrightarrow> n \<le> 2 ^ 63"
proof (induction d s rule: duration_parts.induct)
  case (1 d s)
  then show ?case
    by (cases "s = []"; cases "duration_part s")
      (auto simp: duration_parts.simps [of d s] duration_parts.simps [of d "[]"] split: if_splits)
qed

lemma ParseDuration_range: "ParseDuration s = Some d \<Longrightarrow> in_int64 d"
  using duration_parts_bound [of 0]
  by (fastforce simp: ParseDuration_def in_int64_def Let_def split: if_splits option.splits)

lemma parseDuration_range: "in_int64 d \<Longrightarrow> in_int64 (parseDuration s d)"
  using ParseDuration_range by (auto simp: parseDuration_def split: option.split)

lemma getEnv_nonempty: "d \<noteq> '''' \<Longrightarrow> getEnv env key d \<noteq> ''''"
  by (simp add: getEnv_def)


section \<open>Showing a duration\<close>

text \<open>
  \<open>Duration.String\<close> of the standard library, by which the HTTP interface shows the refresh interval.
  \<open>fmtFrac\<close> prints the last digits of a number behind a point, without zeros at the end, from the last
  to the first.
\<close>

fun fmtFrac :: "nat \<Rightarrow> bool \<Rightarrow> nat \<Rightarrow> string \<Rightarrow> string \<times> nat" where
  "fmtFrac 0 prnt v buf = (if prnt then CHR ''.'' # buf else buf, v)"
| "fmtFrac (Suc i) prnt v buf =
     (let digit = v mod 10; prnt = (prnt \<or> digit \<noteq> 0)
      in fmtFrac i prnt (v div 10) (if prnt then digit_char digit # buf else buf))"

definition micro_sign :: string where
  "micro_sign = [CHR 0xC2, CHR 0xB5]"

definition dur_body :: "nat \<Rightarrow> string" where
  "dur_body u =
     (if u < 1000000000 then
        (if u = 0 then ''0s''
         else if u < 1000 then show_nat u @ ''ns''
         else if u < 1000000 then (let (fr, u) = fmtFrac 3 False u [] in show_nat u @ fr @ micro_sign @ ''s'')
         else (let (fr, u) = fmtFrac 6 False u [] in show_nat u @ fr @ ''ms''))
      else
        (let (fr, u) = fmtFrac 9 False u [];
             secs = show_nat (u mod 60) @ fr @ ''s''; u = u div 60
         in if u > 0 then
              (let mins = show_nat (u mod 60) @ ''m'' @ secs; u = u div 60
               in if u > 0 then show_nat u @ ''h'' @ mins else mins)
            else secs))"

definition dur_String :: "int \<Rightarrow> string" where
  "dur_String d = (let body = dur_body (nat \<bar>d\<bar>) in if d < 0 then CHR ''-'' # body else body)"

text \<open>\<open>Duration.Seconds\<close> of a duration that is not negative, as the \<open>float64\<close> it is.\<close>

definition dur_Seconds :: "int \<Rightarrow> rat" where
  "dur_Seconds d = f64 (of_int (d div Second) + f64 (f64 (of_int (d mod Second)) / 1000000000))"

lemma round_even_int: "round_even (of_int n) = n"
  by (simp add: round_even_def)

lemma f64_nat: "n < 2 ^ 53 \<Longrightarrow> f64 (of_nat n) = of_nat n"
proof (cases "n = 0")
  case False
  assume n: "n < 2 ^ 53"
  define l where "l = nat (bitlen (int n))"
  have len: "bitlen (int n) = int l" by (simp add: l_def bitlen_nonneg)
  have "int n < 2 ^ l" using bitlen_bounds [of "int n"] False by (simp add: l_def)
  have "nat (bitlen (int n) - 1) = l - 1" by (simp add: l_def nat_diff_distrib')
  then have low: "(2 :: nat) ^ (l - 1) \<le> n" using bitlen_bounds [of "int n"] False by simp
  have l1: "1 \<le> l" using False \<open>int n < 2 ^ l\<close> by (cases l) auto
  have l53: "l \<le> 53"
  proof (rule ccontr)
    assume "\<not> l \<le> 53"
    then have "(2 :: nat) ^ 53 \<le> 2 ^ (l - 1)" by (intro power_increasing) auto
    with low n show False by simp
  qed
  have quot: "quotient_of (of_nat n :: rat) = (int n, 1)" using quotient_of_int [of "int n"] by simp
  have big: "\<not> (of_nat n * 2 ^ (54 - l) :: rat) < 2 ^ 53"
  proof -
    have "(2 :: nat) ^ 53 = 2 ^ (l - 1) * 2 ^ (54 - l)" using l1 l53 by (simp flip: power_add)
    also have "\<dots> \<le> n * 2 ^ (54 - l)" using low by simp
    finally have "(of_nat (2 ^ 53) :: rat) \<le> of_nat (n * 2 ^ (54 - l))" by (simp only: of_nat_le_iff)
    then show ?thesis by simp
  qed
  have one: "bitlen 1 = 1" by (simp add: bitlen_def floorlog_def)
  have nats: "nat (54 - int l) = 54 - l" "nat (53 - int l) = 53 - l" by arith+
  have scaled: "round_even (of_nat n * 2 ^ (53 - l)) = int n * 2 ^ (53 - l)"
    using round_even_int [of "int n * 2 ^ (53 - l)"] by simp
  show ?thesis
    using False l53 big low round_even_int [of "int n"]
    by (cases "l = 53") (simp_all add: f64_def quot len one nats scaled Let_def)
qed (simp add: f64_def)

lemma leadingInt_digits:
  "list_all is_digit ds \<Longrightarrow> (rest = [] \<or> \<not> is_digit (hd rest)) \<Longrightarrow> foldl (\<lambda>a c. 10 * a + digit_val c) x ds \<le> 2 ^ 63 \<Longrightarrow>
   leadingInt x (ds @ rest) = Some (foldl (\<lambda>a c. 10 * a + digit_val c) x ds, rest)"
proof (induction ds arbitrary: x)
  case Nil
  then show ?case by (cases rest) auto
next
  case (Cons c ds)
  have mono: "y \<le> foldl (\<lambda>a c. 10 * a + digit_val c) y ds" for y
  proof (induction ds arbitrary: y)
    case (Cons c ds)
    from Cons [of "10 * y + digit_val c"] show ?case by simp
  qed simp
  have le: "10 * x + digit_val c \<le> 2 ^ 63" using mono [of "10 * x + digit_val c"] Cons.prems(3) by simp
  moreover have "x \<le> 2 ^ 63 div 10" using le by simp
  ultimately show ?case using Cons by (simp add: mult.commute)
qed

lemma leadingInt_show:
  "n \<le> 2 ^ 63 \<Longrightarrow> rest = [] \<or> \<not> is_digit (hd rest) \<Longrightarrow> leadingInt 0 (show_nat n @ rest) = Some (n, rest)"
  using leadingInt_digits [of "show_nat n" rest 0] show_nat_digits [of n] read_nat_show_nat [of n]
  by (simp add: all_digits_def read_nat_def)

lemma leadingFraction_digits:
  "list_all is_digit ds \<Longrightarrow> (rest = [] \<or> \<not> is_digit (hd rest)) \<Longrightarrow> k + length ds \<le> 15 \<Longrightarrow> x < 10 ^ k \<Longrightarrow>
   leadingFraction x (10 ^ k) False (ds @ rest) = (foldl (\<lambda>a c. 10 * a + digit_val c) x ds, 10 ^ (k + length ds), rest)"
proof (induction ds arbitrary: x k)
  case Nil
  then show ?case by (cases rest) auto
next
  case (Cons c ds)
  have c: "digit_val c \<le> 9" using Cons.prems(1) by (auto simp: is_digit_def digit_val_def Let_def)
  have "(10 :: nat) ^ k \<le> 10 ^ 14" using Cons.prems(3) by (intro power_increasing) auto
  then have x: "x < 10 ^ 14" using Cons.prems(4) by linarith
  have y: "10 * x + digit_val c < 10 ^ Suc k" using Cons.prems(4) c by simp
  have "(10 :: nat) ^ Suc k \<le> 10 ^ 15" using Cons.prems(3) by (intro power_increasing) auto
  then have "(10 :: nat) ^ Suc k < 2 ^ 53" by (rule le_less_trans) simp
  then have scale: "f64 (10 * 10 ^ k) = 10 * 10 ^ k" using f64_nat [of "10 ^ Suc k"] by simp
  have "leadingFraction x (10 ^ k) False ((c # ds) @ rest) = leadingFraction (10 * x + digit_val c) (10 ^ Suc k) False (ds @ rest)"
    using Cons.prems(1) x c by (simp add: scale Let_def mult.commute)
  also have "\<dots> = (foldl (\<lambda>a c. 10 * a + digit_val c) (10 * x + digit_val c) ds, 10 ^ (Suc k + length ds), rest)"
    using Cons.prems y by (intro Cons.IH) auto
  finally show ?case by simp
qed

text \<open>The part behind the point: it has the value of the digits cut off.\<close>

definition is_frac :: "nat \<Rightarrow> string \<Rightarrow> nat \<Rightarrow> bool" where
  "is_frac p fr v \<longleftrightarrow> (fr = [] \<and> v = 0) \<or>
     (\<exists>ds. fr = CHR ''.'' # ds \<and> all_digits ds \<and> length ds \<le> p \<and> read_nat ds * 10 ^ (p - length ds) = v \<and> 0 < read_nat ds)"

lemma read_nat_Cons: "read_nat (c # ds) = digit_val c * 10 ^ length ds + read_nat ds"
proof -
  have "foldl (\<lambda>a c. 10 * a + digit_val c) x ds = x * 10 ^ length ds + foldl (\<lambda>a c. 10 * a + digit_val c) 0 ds" for x
  proof (induction ds arbitrary: x)
    case (Cons d ds)
    show ?case unfolding foldl_Cons Cons [of "10 * x + digit_val d"] Cons [of "10 * 0 + digit_val d"] by (simp add: algebra_simps)
  qed simp
  from this [of "digit_val c"] show ?thesis by (simp add: read_nat_def)
qed

lemma fmtFrac_value:
  assumes "fmtFrac i prnt v buf = (fr, w)" "prnt \<longleftrightarrow> buf \<noteq> []" "prnt \<longrightarrow> all_digits buf \<and> 0 < read_nat buf"
  shows "w = v div 10 ^ i \<and>
    (if prnt then \<exists>ds. fr = CHR ''.'' # ds \<and> all_digits ds \<and> length ds = i + length buf \<and>
        read_nat ds = v mod 10 ^ i * 10 ^ length buf + read_nat buf \<and> 0 < read_nat ds
     else is_frac i fr (v mod 10 ^ i))"
  using assms
proof (induction i arbitrary: prnt v buf)
  case 0
  then show ?case by (auto simp: is_frac_def)
next
  case (Suc i)
  let ?d = "v mod 10" let ?p = "prnt \<or> ?d \<noteq> 0" let ?b = "if ?p then digit_char ?d # buf else buf"
  have run: "fmtFrac i ?p (v div 10) ?b = (fr, w)" using Suc.prems(1) by (simp add: Let_def)
  have nz: "buf = [] \<Longrightarrow> read_nat buf = 0" by (simp add: read_nat_def)
  have "?p \<longrightarrow> all_digits ?b \<and> 0 < read_nat ?b"
    using Suc.prems(2,3) by (auto simp: all_digits_def read_nat_Cons)
  note ih = Suc.IH [OF run _ this]
  have w: "w = v div 10 div 10 ^ i" using ih Suc.prems(2) by auto
  have m: "v mod (10 * 10 ^ i) = v div 10 mod 10 ^ i * 10 + ?d" using mod_mult2_eq [of v 10 "10 ^ i"] by simp
  consider "prnt" | "\<not> prnt" "?d \<noteq> 0" | "\<not> prnt" "?d = 0" by blast
  then show ?case
  proof cases
    case 1
    then obtain ds where "fr = CHR ''.'' # ds" "all_digits ds" "length ds = i + length ?b"
      "read_nat ds = v div 10 mod 10 ^ i * 10 ^ length ?b + read_nat ?b" "0 < read_nat ds"
      using ih Suc.prems(2) by auto
    with 1 w show ?thesis by (auto simp: read_nat_Cons m algebra_simps simp flip: div_mult2_eq)
  next
    case 2
    then obtain ds where ds: "fr = CHR ''.'' # ds" "all_digits ds" "length ds = i + length ?b"
      "read_nat ds = v div 10 mod 10 ^ i * 10 ^ length ?b + read_nat ?b" "0 < read_nat ds"
      using ih Suc.prems(2) by auto
    then have "read_nat ds = v mod 10 ^ Suc i" using 2 Suc.prems(2) nz by (simp add: read_nat_Cons m)
    with ds 2 w Suc.prems(2) show ?thesis by (auto simp: is_frac_def simp flip: div_mult2_eq)
  next
    case 3
    then have "is_frac i fr (v div 10 mod 10 ^ i)" using ih Suc.prems(2) by auto
    then have "is_frac (Suc i) fr (v div 10 mod 10 ^ i * 10)"
      unfolding is_frac_def by (auto simp: Suc_diff_le algebra_simps)
    with 3 w show ?thesis by (simp add: m flip: div_mult2_eq)
  qed
qed

lemma fmtFrac_split: "fmtFrac p False v [] = (fr, w) \<Longrightarrow> w = v div 10 ^ p \<and> is_frac p fr (v mod 10 ^ p)"
  using fmtFrac_value [of p False v "[]" fr w] by simp

text \<open>One part is read back: a number, digits behind a point, and a unit that is a multiple of the power of ten.\<close>

lemma duration_part_show:
  assumes "is_frac p fr v" "p \<le> 9" "unitMap u = Some (10 ^ p * q)" "u \<noteq> []" "list_all unit_char u" "10 ^ p * q < 2 ^ 53"
    and "rest = [] \<or> \<not> unit_char (hd rest)" "n \<le> 2 ^ 63 div (10 ^ p * q)" "n * (10 ^ p * q) + v * q \<le> 2 ^ 63" "v < 10 ^ p" "0 < q"
  shows "duration_part (show_nat n @ fr @ u @ rest) = Some (n * (10 ^ p * q) + v * q, rest)"
proof -
  let ?U = "10 ^ p * q"
  obtain c cs where u: "u = c # cs" "unit_char c" using assms(4,5) by (cases u) auto
  have nd: "\<not> is_digit c" "c \<noteq> CHR ''.''" using u(2) by (simp_all add: unit_char_def)
  have "n \<le> 2 ^ 63" using assms(8) by (rule le_trans) (rule div_le_dividend)
  have dig: "is_digit (hd (show_nat n @ x))" "show_nat n @ x \<noteq> []" for x
    using show_nat_digits [of n] by (cases "show_nat n"; simp add: all_digits_def)+
  have start: "\<not> unit_char (hd (show_nat n @ x))" for x using dig(1) by (simp add: unit_char_def)
  have unit: "takeWhile unit_char (u @ rest) = u" "dropWhile unit_char (u @ rest) = rest"
    using assms(5,7) by (cases rest; simp add: list_all_iff takeWhile_append dropWhile_append)+
  show ?thesis
  proof (cases "fr = []")
    case True
    then have "v = 0" using assms(1) by (simp add: is_frac_def)
    have "leadingInt 0 (show_nat n @ u @ rest) = Some (n, u @ rest)"
      using \<open>n \<le> 2 ^ 63\<close> nd u(1) by (intro leadingInt_show) auto
    then show ?thesis using True \<open>v = 0\<close> assms(3,4,8,9) nd u(1) start [of "u @ rest"] dig(2) [of "u @ rest"] unit
      by (simp add: duration_part_def)
  next
    case False
    then obtain ds where ds: "fr = CHR ''.'' # ds" "all_digits ds" "length ds \<le> p" "read_nat ds * 10 ^ (p - length ds) = v" "0 < read_nat ds"
      using assms(1) by (auto simp: is_frac_def)
    let ?k = "length ds"
    have "leadingInt 0 (show_nat n @ fr @ u @ rest) = Some (n, fr @ u @ rest)"
      using \<open>n \<le> 2 ^ 63\<close> ds(1) by (intro leadingInt_show) (auto simp: is_digit_def)
    moreover have "leadingFraction 0 (10 ^ 0) False (ds @ u @ rest) = (read_nat ds, 10 ^ (0 + ?k), u @ rest)"
      unfolding read_nat_def using ds(2,3) assms(2) nd u(1) by (intro leadingFraction_digits) (auto simp: all_digits_def)
    moreover have "\<lfloor>f64 (f64 (of_nat (read_nat ds)) * f64 (of_nat ?U / 10 ^ ?k))\<rfloor> = int (v * q)"
    proof -
      have e: "?U = 10 ^ ?k * (10 ^ (p - ?k) * q)" using ds(3) by (simp flip: power_add add: mult.assoc [symmetric])
      then have quot: "(of_nat ?U / 10 ^ ?k :: rat) = of_nat (10 ^ (p - ?k) * q)" unfolding e of_nat_mult by simp
      have le: "10 ^ (p - ?k) * q \<le> ?U" unfolding e by simp
      have vq: "read_nat ds * (10 ^ (p - ?k) * q) = v * q" using ds(4) by (simp add: mult.assoc)
      have "v * q \<le> ?U" using assms(10) by simp
      moreover have "read_nat ds \<le> v" using ds(4) by (metis le_add1 mult.right_neutral mult_le_mono2 one_le_numeral one_le_power)
      moreover have "v \<le> v * q" using assms(11) by simp
      ultimately have small: "v * q < 2 ^ 53" "read_nat ds < 2 ^ 53" "10 ^ (p - ?k) * q < 2 ^ 53" using le assms(6) by linarith+
      have "f64 (f64 (of_nat (read_nat ds)) * f64 (of_nat ?U / 10 ^ ?k)) = f64 (of_nat (v * q))"
        unfolding quot f64_nat [OF small(2)] f64_nat [OF small(3)] by (simp only: vq flip: of_nat_mult)
      also have "\<dots> = of_nat (v * q)" by (rule f64_nat [OF small(1)])
      finally show ?thesis by (simp only: floor_of_nat)
    qed
    moreover have "show_nat n @ fr @ u @ rest \<noteq> []" by simp
    ultimately show ?thesis
      using ds(1,5) assms(3,4,8,9) unit start [of "fr @ u @ rest"] by (simp add: duration_part_def Let_def nat_mult_distrib)
  qed
qed

lemma duration_parts_step:
  "duration_part s = Some (v, rest) \<Longrightarrow> d + v \<le> 2 ^ 63 \<Longrightarrow> duration_parts d s = duration_parts (d + v) rest"
  by (subst duration_parts.simps) (auto simp: duration_part_def)

lemma duration_parts_Nil [simp]: "duration_parts d [] = Some d"
  by (subst duration_parts.simps) simp

lemma unit_part:
  assumes "unitMap u = Some q" "u \<in> {''ns'', ''us'', ''ms'', ''s'', ''m'', ''h''}" "rest = [] \<or> \<not> unit_char (hd rest)" "n * q \<le> 2 ^ 63" "d + n * q \<le> 2 ^ 63"
  shows "duration_parts d (show_nat n @ u @ rest) = duration_parts (d + n * q) rest"
proof -
  have "0 < q" "q < 2 ^ 53" using assms(1,2) by (auto simp: unitMap_def)
  moreover have "n \<le> 2 ^ 63 div q" using assms(4) \<open>0 < q\<close> by (simp add: less_eq_div_iff_mult_less_eq)
  moreover have "u \<noteq> []" "list_all unit_char u" using assms(2) by (auto simp: unit_char_def is_digit_def)
  ultimately have "duration_part (show_nat n @ [] @ u @ rest) = Some (n * (10 ^ 0 * q) + 0 * q, rest)"
    using assms by (intro duration_part_show) (auto simp: is_frac_def)
  then show ?thesis using assms(5) by (intro duration_parts_step) simp_all
qed

lemma frac_part:
  assumes "fmtFrac p False v [] = (fr, w)" "unitMap u = Some (10 ^ p)" "0 < p" "p \<le> 9" "list_all unit_char u" "u \<noteq> []"
    and "rest = [] \<or> \<not> unit_char (hd rest)" "n * 10 ^ p + v mod 10 ^ p + d \<le> 2 ^ 63"
  shows "duration_parts d (show_nat n @ fr @ u @ rest) = duration_parts (d + (n * 10 ^ p + v mod 10 ^ p)) rest"
proof -
  have "(10 :: nat) ^ p \<le> 10 ^ 9" using assms(4) by (intro power_increasing) auto
  then have "(10 :: nat) ^ p * 1 < 2 ^ 53" by simp
  moreover have "n \<le> 2 ^ 63 div (10 ^ p * 1)" using assms(8) by (simp add: less_eq_div_iff_mult_less_eq)
  ultimately have "duration_part (show_nat n @ fr @ u @ rest) = Some (n * (10 ^ p * 1) + v mod 10 ^ p * 1, rest)"
    using assms fmtFrac_split [OF assms(1)] by (intro duration_part_show [of p]) auto
  then show ?thesis using assms(8) by (intro duration_parts_step) simp_all
qed

lemma hd_show_nat: "\<not> unit_char (hd (show_nat n @ x))"
  using show_nat_digits [of n] by (cases "show_nat n") (simp_all add: all_digits_def unit_char_def)

lemma duration_parts_body:
  assumes "u \<le> 2 ^ 63"
  shows "duration_parts 0 (dur_body u) = Some u"
proof -
  have sec: "duration_parts d (show_nat n @ fr @ ''s'') = Some (d + (n * 10 ^ 9 + u mod 10 ^ 9))"
    if "fmtFrac 9 False u [] = (fr, w)" "n * 10 ^ 9 + u mod 10 ^ 9 + d \<le> 2 ^ 63" for fr n d w
    using that by (subst frac_part [of 9 u fr w "''s''" "[]", simplified]) (simp_all add: unitMap_def unit_char_def is_digit_def)
  obtain fr w where fr: "fmtFrac 9 False u [] = (fr, w)" by fastforce
  then have w: "w = u div 10 ^ 9" using fmtFrac_split by blast
  define h m s where "h = w div 60 div 60" and "m = w div 60 mod 60" and "s = w mod 60"
  have hms: "u = h * 3600000000000 + (m * 60000000000 + (s * 10 ^ 9 + u mod 10 ^ 9))"
  proof -
    have "w = (h * 60 + m) * 60 + s" unfolding h_def m_def s_def div_mult_mod_eq ..
    then have "w * 10 ^ 9 = h * 3600000000000 + m * 60000000000 + s * 10 ^ 9" by (simp add: algebra_simps)
    then show ?thesis using div_mult_mod_eq [of u "10 ^ 9"] unfolding w by simp
  qed
  have small: "m * 60000000000 \<le> 2 ^ 63" "h * 3600000000000 \<le> 2 ^ 63" using hms assms by linarith+
  show ?thesis
  proof (cases "u < 1000000000")
    case True
    consider "u = 0" | "0 < u" "u < 1000" | "1000 \<le> u" "u < 1000000" | "1000000 \<le> u" by linarith
    then show ?thesis
    proof cases
      case 1
      then have "fr = []" using fmtFrac_split [OF fr] by (auto simp: is_frac_def)
      moreover have "show_nat 0 = ''0''" by code_simp
      ultimately show ?thesis using sec [OF fr, of 0 0] 1 by (simp add: dur_body_def)
    next
      case 2
      then show ?thesis using unit_part [of "''ns''" 1 "[]" u 0] by (simp add: dur_body_def unitMap_def)
    next
      case 3
      obtain g x where g: "fmtFrac 3 False u [] = (g, x)" by fastforce
      then have "x = u div 10 ^ 3" using fmtFrac_split by blast
      with g 3 True frac_part [of 3 u g x "micro_sign @ ''s''" "[]" x 0] show ?thesis
        by (simp add: dur_body_def unitMap_def micro_sign_def unit_char_def is_digit_def)
    next
      case 4
      obtain g x where g: "fmtFrac 6 False u [] = (g, x)" by fastforce
      then have "x = u div 10 ^ 6" using fmtFrac_split by blast
      with g 4 True frac_part [of 6 u g x "''ms''" "[]" x 0] show ?thesis
        by (simp add: dur_body_def unitMap_def unit_char_def is_digit_def)
    qed
  next
    case False
    have minute: "duration_parts d (show_nat m @ ''m'' @ show_nat s @ fr @ ''s'') = Some (d + m * 60000000000 + (s * 10 ^ 9 + u mod 10 ^ 9))"
      if "d = h * 3600000000000" for d
      using unit_part [of "''m''" 60000000000 "show_nat s @ fr @ ''s''" m d] sec [OF fr, of s "d + m * 60000000000"] hms assms small that
        hd_show_nat [of s "fr @ ''s''"] by (simp add: unitMap_def)
    have hour: "duration_parts 0 (show_nat h @ ''h'' @ show_nat m @ ''m'' @ show_nat s @ fr @ ''s'') = Some u"
      using unit_part [of "''h''" 3600000000000 "show_nat m @ ''m'' @ show_nat s @ fr @ ''s''" h 0] minute small hms
        hd_show_nat [of m "''m'' @ show_nat s @ fr @ ''s''"] by (simp add: unitMap_def)
    have "duration_parts 0 (dur_body u) = duration_parts 0
      (if w div 60 > 0 then if h > 0 then show_nat h @ ''h'' @ show_nat m @ ''m'' @ show_nat s @ fr @ ''s''
         else show_nat m @ ''m'' @ show_nat s @ fr @ ''s'' else show_nat s @ fr @ ''s'')"
      using False by (simp add: dur_body_def fr Let_def h_def m_def s_def)
    moreover have "w div 60 = 0 \<Longrightarrow> m = 0 \<and> h = 0" by (simp add: m_def h_def)
    ultimately show ?thesis using hour minute [of 0] sec [OF fr, of s 0] hms assms by (cases "w div 60 = 0"; cases "h = 0") simp_all
  qed
qed

lemma dur_body_shape: "\<exists>c cs. dur_body n = c # cs \<and> is_digit c \<and> cs \<noteq> []"
proof -
  have num: "\<exists>c cs. show_nat k @ x = c # cs \<and> is_digit c \<and> cs \<noteq> []" if "x \<noteq> []" for k x
    using show_nat_digits [of k] that by (cases "show_nat k") (auto simp: all_digits_def)
  have zero: "is_digit (CHR ''0'')" by (simp add: is_digit_def)
  show ?thesis
    unfolding dur_body_def by (auto simp: Let_def zero split: prod.split intro!: num)
qed

text \<open>What \<open>Duration.String\<close> shows, \<open>ParseDuration\<close> reads back, for every duration.\<close>

lemma ParseDuration_dur_String:
  assumes "in_int64 d"
  shows "ParseDuration (dur_String d) = Some d"
proof -
  have u: "nat \<bar>d\<bar> \<le> 2 ^ 63" using assms by (simp add: in_int64_def nat_le_iff abs_le_iff)
  have str: "dur_String d = (if d < 0 then CHR ''-'' # dur_body (nat \<bar>d\<bar>) else dur_body (nat \<bar>d\<bar>))"
    by (simp add: dur_String_def Let_def)
  note read = duration_parts_body [OF u]
  obtain c cs where body: "dur_body (nat \<bar>d\<bar>) = c # cs" "is_digit c" "cs \<noteq> []" using dur_body_shape by blast
  then have "c \<noteq> CHR ''-''" "c \<noteq> CHR ''+''" by (auto simp: is_digit_def)
  then show ?thesis
    using read body assms by (cases "d < 0") (simp_all add: str ParseDuration_def Let_def in_int64_def)
qed

text \<open>A whole number of one unit.\<close>

lemma ParseDuration_whole:
  assumes "unitMap u = Some q" "u \<in> {''ns'', ''us'', ''ms'', ''s'', ''m'', ''h''}" "n * q < 2 ^ 63"
  shows "ParseDuration (show_nat n @ u) = Some (int (n * q))"
proof -
  obtain c cs where s: "show_nat n = c # cs" "is_digit c" using show_nat_digits [of n] by (cases "show_nat n") (auto simp: all_digits_def)
  then have "c \<noteq> CHR ''-''" "c \<noteq> CHR ''+''" "show_nat n @ u \<noteq> ''0''" using assms(2) by (auto simp: is_digit_def)
  moreover have "duration_parts 0 (show_nat n @ u) = Some (n * q)" using unit_part [OF assms(1,2), of "[]" n 0] assms(3) by simp
  ultimately show ?thesis using s(1) assms(3) by (auto simp: ParseDuration_def Let_def)
qed

section \<open>Settings that are written back\<close>

lemma Atoi_show_int: "in_int64 n \<Longrightarrow> Atoi (show_int n) = Some n"
  by (simp add: Atoi_def parse_syntax_show_int)

text \<open>The four variables of the symbol settings, set to the values a configuration shows for them.\<close>

definition symbol_env :: "'f symbols_config \<Rightarrow> environ \<Rightarrow> environ" where
  "symbol_env c env = env(''SYMBOL_SUBSCRIPTION_STRATEGY'' := cs_SubscriptionStrategy c, ''SYMBOL_MAX_SYMBOLS'' := show_int (cs_MaxSymbols c),
     ''SYMBOL_REFRESH_INTERVAL'' := dur_String (cs_RefreshInterval c), ''SYMBOL_AUTO_SUBSCRIBE'' := (if cs_AutoSubscribe c then ''true'' else ''false''))"


end
