(* ===== verification/Price_Calculator.thy ===== *)
theory Price_Calculator
  imports Interval_Aggregator
begin

text \<open>
  \<open>internal/services/candle/streaming_price_calculator.go\<close>: the statistics of the last 24 hours of a
  symbol, kept in a ring buffer of 1440 one-minute candles and updated candle by candle. The
  refinement below reads the ring as the window of the last 1440 candles.
\<close>

definition ringSize :: nat where
  "ringSize = 1440"

record 'd symbol_stats =
  ss_Symbol :: string
  ss_candles :: "'d candle option list"
  ss_nextIndex :: nat
  ss_isFull :: bool
  ss_open24h :: 'd
  ss_high24h :: 'd
  ss_low24h :: 'd
  ss_volume24h :: 'd
  ss_quoteVolume24h :: 'd
  ss_lastUpdate :: gotime
  ss_isWarm :: bool

record 'd price_calculator =
  pc_stats :: "(string, 'd symbol_stats) gomap"
  pc_stopClosed :: bool

definition NewStreamingPriceCalculator :: "'d price_calculator" where
  "NewStreamingPriceCalculator = \<lparr>pc_stats = [], pc_stopClosed = False\<rparr>"

definition pc_Stop :: "'d price_calculator \<Rightarrow> 'd price_calculator outcome" where
  "pc_Stop c = (if pc_stopClosed c then Inl CloseOfClosedChannel else Inr (c\<lparr>pc_stopClosed := True\<rparr>))"

definition empty_stats :: "'d decimal_ops \<Rightarrow> gotime \<Rightarrow> string \<Rightarrow> 'd symbol_stats" where
  "empty_stats D now symbol = \<lparr>ss_Symbol = symbol, ss_candles = replicate ringSize None, ss_nextIndex = 0, ss_isFull = False,
     ss_open24h = d_Zero D, ss_high24h = d_Zero D, ss_low24h = d_Zero D, ss_volume24h = d_Zero D,
     ss_quoteVolume24h = d_Zero D, ss_lastUpdate = now, ss_isWarm = False\<rparr>"

text \<open>The scan: the running maximum and minimum and whether no candle was met yet.\<close>

definition high_low_step :: "'d decimal_ops \<Rightarrow> 'd \<times> 'd \<times> bool \<Rightarrow> 'd candle option \<Rightarrow> 'd \<times> 'd \<times> bool" where
  "high_low_step D acc entry =
     (case acc of (maxHigh, minLow, first) \<Rightarrow>
      case entry of
        None \<Rightarrow> (maxHigh, minLow, first)
      | Some candle \<Rightarrow>
          if first then (c_High candle, c_Low candle, False)
          else (if d_GreaterThan D (c_High candle) maxHigh then c_High candle else maxHigh,
                if d_LessThan D (c_Low candle) minLow then c_Low candle else minLow, first))"

definition recalculateHighLow :: "'d decimal_ops \<Rightarrow> 'd symbol_stats \<Rightarrow> 'd symbol_stats" where
  "recalculateHighLow D stats =
     (let (maxHigh, minLow, first) = foldl (high_low_step D) (d_Zero D, d_Zero D, True) (ss_candles stats)
      in stats\<lparr>ss_high24h := maxHigh, ss_low24h := minLow\<rparr>)"

definition process_stats :: "'d decimal_ops \<Rightarrow> gotime \<Rightarrow> 'd candle \<Rightarrow> 'd symbol_stats \<Rightarrow> 'd symbol_stats" where
  "process_stats D now candle stats =
     (let oldCandle = ss_candles stats ! ss_nextIndex stats;
          stats = stats\<lparr>ss_candles := (ss_candles stats)[ss_nextIndex stats := Some candle],
                        ss_nextIndex := (ss_nextIndex stats + 1) mod ringSize\<rparr>;
          stats = (if ss_nextIndex stats = 0 then stats\<lparr>ss_isFull := True\<rparr> else stats);
          stats = (case oldCandle of
                     None \<Rightarrow> stats
                   | Some old \<Rightarrow> stats\<lparr>ss_volume24h := d_Sub D (ss_volume24h stats) (c_Volume old),
                                      ss_quoteVolume24h := d_Sub D (ss_quoteVolume24h stats) (c_QuoteVolume old)\<rparr>);
          stats = stats\<lparr>ss_volume24h := d_Add D (ss_volume24h stats) (c_Volume candle),
                        ss_quoteVolume24h := d_Add D (ss_quoteVolume24h stats) (c_QuoteVolume candle)\<rparr>;
          stats = recalculateHighLow D stats;
          stats = (case ss_candles stats ! ss_nextIndex stats of
                     None \<Rightarrow> stats
                   | Some oldest \<Rightarrow> stats\<lparr>ss_open24h := c_Open oldest\<rparr>)
      in stats\<lparr>ss_lastUpdate := now, ss_isWarm := True\<rparr>)"

definition ProcessCandle :: "'d decimal_ops \<Rightarrow> gotime \<Rightarrow> 'd candle \<Rightarrow> 'd price_calculator \<Rightarrow> 'd price_calculator" where
  "ProcessCandle D now candle c =
     (if c_Interval candle \<noteq> ''1m'' then c
      else
        (let stats = (case map_of (pc_stats c) (c_Symbol candle) of
                        None \<Rightarrow> empty_stats D now (c_Symbol candle) | Some stats \<Rightarrow> stats)
         in c\<lparr>pc_stats := store (c_Symbol candle) (process_stats D now candle stats) (pc_stats c)\<rparr>))"

text \<open>The price of a symbol with its statistics, the common end of the warm and the cold path.\<close>

definition stats_price :: "'d decimal_ops \<Rightarrow> gotime \<Rightarrow> string \<Rightarrow> 'd \<Rightarrow> 'd symbol_stats \<Rightarrow> 'd price" where
  "stats_price D now symbol currentPrice stats =
     (let priceChange = d_Sub D currentPrice (ss_open24h stats);
          priceChangePercent =
            (if d_IsZero D (ss_open24h stats) then d_Zero D
             else d_Mul D (d_Div D priceChange (ss_open24h stats)) (d_NewFromInt D 100))
      in \<lparr>p_Symbol = symbol, p_LastPrice = currentPrice, p_PriceChange24h = priceChange,
          p_PriceChange24P = priceChangePercent, p_High24h = ss_high24h stats, p_Low24h = ss_low24h stats,
          p_Volume24h = ss_volume24h stats, p_QuoteVolume24h = ss_quoteVolume24h stats, p_UpdatedAt = now\<rparr>)"

definition fill_step :: "'d decimal_ops \<Rightarrow> nat \<times> 'd candle \<Rightarrow> 'd symbol_stats \<Rightarrow> 'd symbol_stats" where
  "fill_step D p stats =
     (case p of (i, candle) \<Rightarrow>
        stats\<lparr>ss_candles := (ss_candles stats)[i := Some candle],
              ss_volume24h := d_Add D (ss_volume24h stats) (c_Volume candle),
              ss_quoteVolume24h := d_Add D (ss_quoteVolume24h stats) (c_QuoteVolume candle)\<rparr>)"

definition warm_stats :: "'d decimal_ops \<Rightarrow> gotime \<Rightarrow> string \<Rightarrow> 'd candle list \<Rightarrow> 'd symbol_stats" where
  "warm_stats D now symbol candles =
     (let stats = (empty_stats D now symbol)\<lparr>ss_isWarm := True\<rparr>;
          stats = fold (fill_step D) (zip [0..<ringSize] candles) stats;
          stats = stats\<lparr>ss_nextIndex := length candles mod ringSize\<rparr>;
          stats = (if length candles \<ge> ringSize then stats\<lparr>ss_isFull := True\<rparr> else stats);
          stats = recalculateHighLow D stats
      in if length candles > 0 then stats\<lparr>ss_open24h := c_Open (candles ! 0)\<rparr> else stats)"

definition warmupSymbol ::
  "'d decimal_ops \<Rightarrow> 'd get_candles \<Rightarrow> gotime \<Rightarrow> string \<Rightarrow> 'd \<Rightarrow> 'd price_calculator \<Rightarrow>
   'd price option \<times> 'd price_calculator" where
  "warmupSymbol D getc now symbol currentPrice c =
     (let endTime = now; startTime = t_Add endTime (- 24 * Hour_d) in
      case getc symbol ''1m'' '''' ''spot'' startTime endTime 1440 of
        None \<Rightarrow> (None, c)
      | Some candles \<Rightarrow>
          if length candles = 0 then (Some (basic_price D symbol currentPrice now), c)
          else
            (let stats = warm_stats D now symbol candles
             in (Some (stats_price D now symbol currentPrice stats),
                 c\<lparr>pc_stats := store symbol stats (pc_stats c)\<rparr>)))"

definition Get24hStats ::
  "'d decimal_ops \<Rightarrow> 'd get_candles \<Rightarrow> gotime \<Rightarrow> string \<Rightarrow> 'd \<Rightarrow> 'd price_calculator \<Rightarrow>
   'd price option \<times> 'd price_calculator" where
  "Get24hStats D getc now symbol currentPrice c =
     (case map_of (pc_stats c) symbol of
        Some stats \<Rightarrow>
          if ss_isWarm stats then (Some (stats_price D now symbol currentPrice stats), c)
          else warmupSymbol D getc now symbol currentPrice c
      | None \<Rightarrow> warmupSymbol D getc now symbol currentPrice c)"

definition CleanupStaleSymbols :: "gotime \<Rightarrow> int \<Rightarrow> 'd price_calculator \<Rightarrow> 'd price_calculator" where
  "CleanupStaleSymbols now maxAge c =
     c\<lparr>pc_stats := filter (\<lambda>(_, stats). \<not> t_Sub now (ss_lastUpdate stats) > maxAge) (pc_stats c)\<rparr>"

text \<open>
  The goroutine that \<open>Start\<close> starts only counts the symbols at every tick, for the log: the result is the
  counts it logged.
\<close>

definition backgroundWarmup :: "'d price_calculator loop_event list \<Rightarrow> bool \<times> nat list" where
  "backgroundWarmup evs = ticker_loop (\<lambda>c logged. logged @ [length (pc_stats c)]) evs []"

section \<open>The ring as a window\<close>

text \<open>
  The window of the last \<open>ringSize\<close> entries of a history that starts with \<open>ringSize\<close> empty ones, and
  how it lies in the ring: rotated so that the oldest entry is at the next index.
\<close>

definition window :: "'d candle list \<Rightarrow> 'd candle option list" where
  "window cs = drop (length cs) (replicate ringSize None @ map Some cs)"

definition last24h :: "'d candle list \<Rightarrow> 'd candle list" where
  "last24h cs = drop (length cs - ringSize) cs"

definition in_ring :: "nat \<Rightarrow> 'a list \<Rightarrow> 'a list" where
  "in_ring k xs = drop (length xs - k) xs @ take (length xs - k) xs"

lemma window_length [simp]: "length (window cs) = ringSize"
  by (simp add: window_def)

lemma ringSize_pos [simp]: "0 < ringSize"
  by (simp add: ringSize_def)

lemma ringSize_1 [simp]: "Suc 0 - ringSize = 0"
  by (simp add: ringSize_def)

lemma window_step: "window (cs @ [c]) = tl (window cs) @ [Some c]"
proof -
  let ?xs = "replicate ringSize None @ map Some cs"
  have "window (cs @ [c]) = drop (Suc (length cs)) (?xs @ [Some c])" by (simp add: window_def)
  also have "\<dots> = drop (Suc (length cs)) ?xs @ [Some c]" by (subst drop_append) (simp add: Suc_le_eq)
  also have "drop (Suc (length cs)) ?xs = tl (drop (length cs) ?xs)" by (simp only: drop_Suc tl_drop)
  finally show ?thesis by (simp only: window_def)
qed

lemma window_eq: "window cs = replicate (ringSize - length cs) None @ map Some (last24h cs)"
  by (simp add: window_def last24h_def drop_map)

lemma last24h_step:
  "last24h (cs @ [c]) = (if length cs < ringSize then last24h cs else tl (last24h cs)) @ [c]"
  by (auto simp: last24h_def Suc_diff_le drop_Suc tl_drop not_less)

lemma last24h_nonempty: "cs \<noteq> [] \<Longrightarrow> last24h cs \<noteq> []"
proof -
  assume "cs \<noteq> []"
  then have "length cs - ringSize < length cs" using diff_less [OF ringSize_pos] by simp
  then show ?thesis by (simp add: last24h_def)
qed

lemma hd_window: "hd (window cs) = (if length cs < ringSize then None else Some (hd (last24h cs)))"
proof (cases "length cs < ringSize")
  case True
  then show ?thesis by (simp add: window_eq hd_append)
next
  case False
  then have "cs \<noteq> []" using ringSize_pos by (cases cs) (auto simp del: ringSize_pos)
  with False show ?thesis by (simp add: window_eq hd_map last24h_nonempty)
qed

lemma in_ring_step:
  assumes "xs \<noteq> []" "k < length xs"
  shows "(in_ring k xs)[k := y] = in_ring (Suc k mod length xs) (tl xs @ [y])" "in_ring k xs ! k = hd xs"
proof -
  obtain x xs' where xs: "xs = x # xs'" using assms(1) by (cases xs) auto
  let ?n = "length xs'"
  have k: "k \<le> ?n" using assms(2) xs by simp
  have ring: "in_ring k xs = drop (?n - k) xs' @ x # take (?n - k) xs'"
    using k by (simp add: in_ring_def xs Suc_diff_le)
  have len: "length (drop (?n - k) xs') = k" using k by simp
  show "in_ring k xs ! k = hd xs" unfolding ring by (simp add: nth_append xs k)
  have upd: "(in_ring k xs)[k := y] = drop (?n - k) xs' @ y # take (?n - k) xs'"
    using list_update_length [of "drop (?n - k) xs'" x "take (?n - k) xs'" y] by (simp only: ring len)
  show "(in_ring k xs)[k := y] = in_ring (Suc k mod length xs) (tl xs @ [y])"
  proof (cases "k = ?n")
    case True
    then show ?thesis unfolding upd by (simp add: in_ring_def xs)
  next
    case False
    then have "Suc k mod length xs = Suc k" "?n - k \<le> ?n" "Suc ?n - Suc k = ?n - k" using k by (simp_all add: xs)
    then show ?thesis unfolding upd using k False by (simp add: in_ring_def xs)
  qed
qed

lemma set_in_ring [simp]: "set (in_ring k xs) = set xs"
  unfolding in_ring_def by (metis append_take_drop_id set_append sup_commute)

text \<open>The candles of a ring, and the scan over them.\<close>

definition entries :: "'a option list \<Rightarrow> 'a list" where
  "entries xs = List.map_filter (\<lambda>x. x) xs"

lemma entries_simps [simp]: "entries [] = []" "entries (None # xs) = entries xs" "entries (Some x # xs) = x # entries xs"
  by (simp_all add: entries_def map_filter_def)

lemma set_entries: "set (entries xs) = {x. Some x \<in> set xs}"
  by (force simp: entries_def map_filter_def)

lemma scan_rest:
  "foldl (high_low_step D) (m, l, False) xs =
     (foldl (\<lambda>m c. if d_GreaterThan D (c_High c) m then c_High c else m) m (entries xs),
      foldl (\<lambda>l c. if d_LessThan D (c_Low c) l then c_Low c else l) l (entries xs), False)"
proof (induction xs arbitrary: m l)
  case (Cons x xs)
  then show ?case by (cases x) (simp_all add: high_low_step_def)
qed simp

lemma scan_first:
  "entries xs = c # cs \<Longrightarrow>
   foldl (high_low_step D) (z, z', True) xs =
     (foldl (\<lambda>m c. if d_GreaterThan D (c_High c) m then c_High c else m) (c_High c) cs,
      foldl (\<lambda>l c. if d_LessThan D (c_Low c) l then c_Low c else l) (c_Low c) cs, False)"
proof (induction xs)
  case (Cons x xs)
  then show ?case by (cases x) (simp_all add: high_low_step_def [of _ "(z, z', True)"] scan_rest)
qed simp

context decimal_api
begin

lemma v_scan:
  assumes "entries (ss_candles st) \<noteq> []"
  shows "v (ss_high24h (recalculateHighLow D st)) = Max ((\<lambda>c. v (c_High c)) ` set (entries (ss_candles st)))"
    "v (ss_low24h (recalculateHighLow D st)) = Min ((\<lambda>c. v (c_Low c)) ` set (entries (ss_candles st)))"
proof -
  obtain c cs where e: "entries (ss_candles st) = c # cs" using assms by (cases "entries (ss_candles st)") auto
  show "v (ss_high24h (recalculateHighLow D st)) = Max ((\<lambda>c. v (c_High c)) ` set (entries (ss_candles st)))"
    unfolding recalculateHighLow_def Let_def scan_first [OF e] by (simp add: e v_foldl_Max)
  show "v (ss_low24h (recalculateHighLow D st)) = Min ((\<lambda>c. v (c_Low c)) ` set (entries (ss_candles st)))"
    unfolding recalculateHighLow_def Let_def scan_first [OF e] by (simp add: e v_foldl_Min)
qed

end

lemma recalculate_keeps [simp]:
  "ss_candles (recalculateHighLow D st) = ss_candles st" "ss_nextIndex (recalculateHighLow D st) = ss_nextIndex st"
  "ss_volume24h (recalculateHighLow D st) = ss_volume24h st"
  "ss_quoteVolume24h (recalculateHighLow D st) = ss_quoteVolume24h st" "ss_open24h (recalculateHighLow D st) = ss_open24h st"
  by (simp_all add: recalculateHighLow_def split: prod.split)

lemma recalculate_cong:
  "ss_high24h (recalculateHighLow D st) = fst (foldl (high_low_step D) (d_Zero D, d_Zero D, True) (ss_candles st))"
  "ss_low24h (recalculateHighLow D st) = fst (snd (foldl (high_low_step D) (d_Zero D, d_Zero D, True) (ss_candles st)))"
  by (simp_all add: recalculateHighLow_def split: prod.split)

text \<open>
  The simulation relation: the statistics hold the window of the history \<open>cs\<close> and its aggregates. The
  open price is that of the oldest candle once the window is full, and \<open>open0\<close> before.
\<close>

definition holds :: "('d \<Rightarrow> rat) \<Rightarrow> 'd symbol_stats \<Rightarrow> 'd candle list \<Rightarrow> 'd \<Rightarrow> bool" where
  "holds v st cs open0 \<longleftrightarrow>
     ss_candles st = in_ring (length cs mod ringSize) (window cs) \<and> ss_nextIndex st = length cs mod ringSize \<and>
     v (ss_volume24h st) = (\<Sum>c\<leftarrow>last24h cs. v (c_Volume c)) \<and>
     v (ss_quoteVolume24h st) = (\<Sum>c\<leftarrow>last24h cs. v (c_QuoteVolume c)) \<and>
     ss_open24h st = (if length cs < ringSize then open0 else c_Open (hd (last24h cs))) \<and>
     (cs \<noteq> [] \<longrightarrow> v (ss_high24h st) = Max ((\<lambda>c. v (c_High c)) ` set (last24h cs)) \<and>
                 v (ss_low24h st) = Min ((\<lambda>c. v (c_Low c)) ` set (last24h cs)))"

lemma entries_ring: "set (entries (in_ring k (window cs))) = set (last24h cs)"
  by (auto simp: set_entries window_eq)

lemma in_ring_next: "in_ring (length cs mod ringSize) (window cs) ! (length cs mod ringSize) = hd (window cs)"
  using in_ring_step(2) [of "window cs" "length cs mod ringSize"] by (metis length_greater_0_conv mod_less_divisor ringSize_pos window_length)

lemma in_ring_insert:
  "(in_ring (length cs mod ringSize) (window cs))[length cs mod ringSize := Some c] =
     in_ring (length (cs @ [c]) mod ringSize) (window (cs @ [c]))"
  using in_ring_step(1) [of "window cs" "length cs mod ringSize" "Some c"]
  by (simp add: window_step mod_Suc_eq) (metis length_greater_0_conv mod_less_divisor ringSize_pos window_length)

lemma sum_list_tl: "xs \<noteq> [] \<Longrightarrow> (\<Sum>x\<leftarrow>tl xs. f x) = (\<Sum>x\<leftarrow>xs. f x) - (f (hd xs) :: rat)"
  by (cases xs) simp_all

context decimal_api
begin

lemma holds_step:
  assumes "holds v st cs open0"
  shows "holds v (process_stats D now c st) (cs @ [c]) open0"
proof -
  let ?st = "process_stats D now c st" and ?cs = "cs @ [c]"
  note h = assms [unfolded holds_def]
  have ring: "ss_candles ?st = in_ring (length ?cs mod ringSize) (window ?cs)"
    using h in_ring_insert [of cs c] by (simp add: process_stats_def Let_def split: option.split)
  have nxt: "ss_nextIndex ?st = length ?cs mod ringSize"
    using h by (simp add: process_stats_def Let_def mod_Suc_eq split: option.split)
  have old: "ss_candles st ! ss_nextIndex st = (if length cs < ringSize then None else Some (hd (last24h cs)))"
    using h in_ring_next [of cs] hd_window [of cs] by simp
  have full: "last24h cs \<noteq> []" if "\<not> length cs < ringSize"
    using that ringSize_pos by (intro last24h_nonempty) (auto simp del: ringSize_pos)
  have vol: "v (ss_volume24h ?st) = (\<Sum>c\<leftarrow>last24h ?cs. v (c_Volume c))"
    using h old full by (simp add: process_stats_def Let_def v_simps last24h_step sum_list_tl split: option.split)
  have quo: "v (ss_quoteVolume24h ?st) = (\<Sum>c\<leftarrow>last24h ?cs. v (c_QuoteVolume c))"
    using h old full by (simp add: process_stats_def Let_def v_simps last24h_step sum_list_tl split: option.split)
  have oldest: "ss_candles ?st ! ss_nextIndex ?st = (if length ?cs < ringSize then None else Some (hd (last24h ?cs)))"
    unfolding ring nxt in_ring_next hd_window ..
  have opn: "ss_open24h ?st = (if length ?cs < ringSize then open0 else c_Open (hd (last24h ?cs)))"
  proof -
    have "ss_open24h ?st = (case ss_candles ?st ! ss_nextIndex ?st of None \<Rightarrow> ss_open24h st | Some x \<Rightarrow> c_Open x)"
      by (simp add: process_stats_def Let_def split: option.split)
    then show ?thesis unfolding oldest using h by simp
  qed
  have set: "set (entries (ss_candles ?st)) = set (last24h ?cs)" unfolding ring by (rule entries_ring)
  obtain st' where st': "ss_high24h ?st = ss_high24h (recalculateHighLow D st')"
    "ss_low24h ?st = ss_low24h (recalculateHighLow D st')" "ss_candles st' = ss_candles ?st"
  proof
    let ?s = "st\<lparr>ss_candles := ss_candles ?st\<rparr>"
    show "ss_high24h ?st = ss_high24h (recalculateHighLow D ?s)" "ss_low24h ?st = ss_low24h (recalculateHighLow D ?s)"
      by (simp_all add: process_stats_def Let_def recalculate_cong split: option.split)
  qed simp
  have "entries (ss_candles st') \<noteq> []"
    using set last24h_nonempty [of ?cs] unfolding st'(3) by (metis append_is_Nil_conv not_Cons_self2 set_empty)
  note hl = v_scan [OF this, folded st'(1,2), unfolded st'(3) set]
  show ?thesis unfolding holds_def using ring nxt vol quo opn hl by simp
qed

lemma holds_empty: "holds v (empty_stats D now symbol) [] (d_Zero D)"
  by (simp add: holds_def empty_stats_def window_def in_ring_def last24h_def v_Zero)

lemma holds_run: "holds v st cs open0 \<Longrightarrow> holds v (fold (process_stats D now) ds st) (cs @ ds) open0"
proof (induction ds arbitrary: st cs)
  case (Cons d ds)
  then show ?case using Cons.IH [OF holds_step [OF Cons.prems, of now d]] by simp
qed simp

end

text \<open>Filling the ring from the database.\<close>

lemma fill_ring:
  assumes "k + length cs \<le> N" "length (ss_candles st) = N"
  shows "ss_candles (fold (fill_step D) (zip [k..<N] cs) st) =
    take k (ss_candles st) @ map Some cs @ drop (k + length cs) (ss_candles st)"
  using assms
proof (induction cs arbitrary: k st)
  case (Cons c cs)
  let ?st = "fill_step D (k, c) st"
  have k: "k < N" using Cons.prems by simp
  have ring: "ss_candles ?st = (ss_candles st)[k := Some c]" by (simp add: fill_step_def)
  have "ss_candles (fold (fill_step D) (zip [k..<N] (c # cs)) st) =
      ss_candles (fold (fill_step D) (zip [Suc k..<N] cs) ?st)"
    using k by (simp add: upt_conv_Cons)
  also have "\<dots> = take (Suc k) (ss_candles ?st) @ map Some cs @ drop (Suc k + length cs) (ss_candles ?st)"
    using Cons.prems by (intro Cons.IH) (simp_all add: ring)
  also have "take (Suc k) (ss_candles ?st) = take k (ss_candles st) @ [Some c]"
    using k Cons.prems(2) by (simp add: ring take_Suc_conv_app_nth)
  finally show ?case by (simp add: ring)
qed simp

lemma fill_keeps:
  "ss_open24h (fold (fill_step D) ps st) = ss_open24h st" "ss_nextIndex (fold (fill_step D) ps st) = ss_nextIndex st"
  "ss_isWarm (fold (fill_step D) ps st) = ss_isWarm st"
  by (induction ps arbitrary: st) (auto simp: fill_step_def)

lemma fill_volume:
  "ss_volume24h (fold (fill_step D) ps st) = foldl (\<lambda>s p. d_Add D s (c_Volume (snd p))) (ss_volume24h st) ps"
  "ss_quoteVolume24h (fold (fill_step D) ps st) = foldl (\<lambda>s p. d_Add D s (c_QuoteVolume (snd p))) (ss_quoteVolume24h st) ps"
  by (induction ps arbitrary: st) (auto simp: fill_step_def)

lemma map_snd_zip_upt: "length cs \<le> N \<Longrightarrow> map snd (zip [0..<N] cs) = cs"
  by (simp add: map_snd_zip_take)

lemma ring_of_few:
  assumes "length cs \<le> ringSize"
  shows "map Some cs @ replicate (ringSize - length cs) None = in_ring (length cs mod ringSize) (window cs)"
proof -
  have W: "window cs = replicate (ringSize - length cs) None @ map Some cs"
    using assms by (simp add: window_eq last24h_def)
  show ?thesis
  proof (cases "length cs = ringSize")
    case True
    then show ?thesis unfolding W by (simp add: in_ring_def)
  next
    case False
    then have "length cs mod ringSize = length cs" using assms by simp
    then show ?thesis unfolding W using assms by (simp add: in_ring_def)
  qed
qed

context decimal_api
begin

lemma holds_warm:
  fixes cs :: "'d candle list"
  assumes "cs \<noteq> []" "length cs \<le> ringSize"
  shows "holds v (warm_stats D now symbol cs) cs (c_Open (hd cs))"
proof -
  let ?f = "fold (fill_step D) (zip [0..<ringSize] cs) ((empty_stats D now symbol)\<lparr>ss_isWarm := True\<rparr>)"
  let ?w = "warm_stats D now symbol cs"
  have all: "last24h cs = cs" using assms(2) by (simp add: last24h_def)
  have ring: "ss_candles ?f = in_ring (length cs mod ringSize) (window cs)"
    using fill_ring [of 0 cs ringSize "(empty_stats D now symbol)\<lparr>ss_isWarm := True\<rparr>" D] assms(2) ring_of_few [OF assms(2)]
    by (simp add: empty_stats_def)
  have fst_snd: "map (\<lambda>p. f (snd p)) (zip [0..<ringSize] cs) = map f cs" for f :: "'d candle \<Rightarrow> rat"
  proof -
    have "map (\<lambda>p. f (snd p)) (zip [0..<ringSize] cs) = map f (map snd (zip [0..<ringSize] cs))" by simp
    then show ?thesis by (simp only: map_snd_zip_upt [OF assms(2)])
  qed
  have sums: "v (ss_volume24h ?f) = (\<Sum>c\<leftarrow>cs. v (c_Volume c))" "v (ss_quoteVolume24h ?f) = (\<Sum>c\<leftarrow>cs. v (c_QuoteVolume c))"
    using fst_snd [of "\<lambda>c. v (c_Volume c)"] fst_snd [of "\<lambda>c. v (c_QuoteVolume c)"]
    by (simp_all add: fill_volume v_foldl_Add empty_stats_def v_Zero)
  define s where "s = (if length cs \<ge> ringSize then ?f\<lparr>ss_nextIndex := length cs mod ringSize, ss_isFull := True\<rparr>
      else ?f\<lparr>ss_nextIndex := length cs mod ringSize\<rparr>)"
  have s: "ss_candles s = ss_candles ?f" "ss_volume24h s = ss_volume24h ?f" "ss_quoteVolume24h s = ss_quoteVolume24h ?f"
    "ss_nextIndex s = length cs mod ringSize" by (simp_all add: s_def)
  have w: "?w = (recalculateHighLow D s)\<lparr>ss_open24h := c_Open (hd cs)\<rparr>"
    using assms(1) by (simp add: warm_stats_def Let_def s_def hd_conv_nth)
  have set: "set (entries (ss_candles s)) = set cs" unfolding s ring entries_ring all ..
  then have "entries (ss_candles s) \<noteq> []" using assms(1) by (metis set_empty)
  note hl = v_scan [OF this, unfolded set]
  have "length cs = ringSize \<Longrightarrow> hd (last24h cs) = hd cs" by (simp add: all)
  then show ?thesis unfolding holds_def w all using s ring sums hl by simp
qed

end

section \<open>The statistics of a symbol\<close>

text \<open>A run of the calculator over the candles of all symbols, and those of them that concern a symbol.\<close>

definition process_run :: "'d decimal_ops \<Rightarrow> gotime \<Rightarrow> 'd candle list \<Rightarrow> 'd price_calculator \<Rightarrow> 'd price_calculator" where
  "process_run D now cs c = fold (ProcessCandle D now) cs c"

definition minutes_of :: "string \<Rightarrow> 'd candle list \<Rightarrow> 'd candle list" where
  "minutes_of symbol cs = filter (\<lambda>c. c_Symbol c = symbol \<and> c_Interval c = ''1m'') cs"

lemma process_run_stats:
  "map_of (pc_stats (process_run D now cs c)) symbol =
     (case map_of (pc_stats c) symbol of
        Some st \<Rightarrow> Some (fold (process_stats D now) (minutes_of symbol cs) st)
      | None \<Rightarrow> if minutes_of symbol cs = [] then None
               else Some (fold (process_stats D now) (minutes_of symbol cs) (empty_stats D now symbol)))"
proof (induction cs arbitrary: c)
  case Nil
  then show ?case by (simp add: process_run_def minutes_of_def split: option.split)
next
  case (Cons x cs)
  have "process_run D now (x # cs) c = process_run D now cs (ProcessCandle D now x c)" by (simp add: process_run_def)
  then show ?case
    using Cons.IH [of "ProcessCandle D now x c"]
    by (auto simp: ProcessCandle_def Let_def minutes_of_def split: option.split)
qed

lemma process_stats_warm: "ss_isWarm (process_stats D now c st)"
  by (simp add: process_stats_def Let_def)

lemma fold_stats_warm: "cs \<noteq> [] \<or> ss_isWarm st \<Longrightarrow> ss_isWarm (fold (process_stats D now) cs st)"
  by (induction cs arbitrary: st) (auto simp: process_stats_warm)

lemma warm_stats_warm: "ss_isWarm (warm_stats D now symbol cs)"
  by (simp add: warm_stats_def Let_def recalculateHighLow_def fill_keeps split: prod.split)

definition window_price :: "('d \<Rightarrow> rat) \<Rightarrow> 'd candle list \<Rightarrow> 'd price \<Rightarrow> bool" where
  "window_price v W p \<longleftrightarrow>
     v (p_Volume24h p) = (\<Sum>c\<leftarrow>W. v (c_Volume c)) \<and> v (p_QuoteVolume24h p) = (\<Sum>c\<leftarrow>W. v (c_QuoteVolume c)) \<and>
     v (p_High24h p) = Max ((\<lambda>c. v (c_High c)) ` set W) \<and> v (p_Low24h p) = Min ((\<lambda>c. v (c_Low c)) ` set W)"

lemma holds_price: "holds v st cs open0 \<Longrightarrow> cs \<noteq> [] \<Longrightarrow> window_price v (last24h cs) (stats_price D now symbol px st)"
  by (simp add: holds_def window_price_def stats_price_def Let_def)



text \<open>
  A symbol that is first seen on the live stream. Its statistics count as complete from the first
  candle on, the database is never asked, and until 1440 candles were processed the open price is
  zero: the reported change of the day is the whole price, and its percentage is zero.
\<close>

theorem cold_start_reports_whole_price:
  fixes D :: "'d decimal_ops"
  assumes "decimal_api D v" and "map_of (pc_stats c) symbol = None"
    and "minutes_of symbol cs \<noteq> []" "length (minutes_of symbol cs) < 1440"
  shows "\<exists>p. Get24hStats D getc now' symbol px (process_run D now cs c) = (Some p, process_run D now cs c) \<and>
    window_price v (minutes_of symbol cs) p \<and> v (p_PriceChange24h p) = v px \<and> v (p_PriceChange24P p) = 0"
proof -
  let ?ms = "minutes_of symbol cs" let ?st = "fold (process_stats D now) ?ms (empty_stats D now symbol)"
  have h: "holds v ?st ?ms (d_Zero D)"
    using decimal_api.holds_run [OF assms(1) decimal_api.holds_empty [OF assms(1)], of now ?ms now symbol] by simp
  have st: "map_of (pc_stats (process_run D now cs c)) symbol = Some ?st"
    unfolding process_run_stats using assms(2,3) by simp
  have "ss_isWarm ?st" using assms(3) by (intro fold_stats_warm) simp
  then have ans: "Get24hStats D getc now' symbol px (process_run D now cs c) =
      (Some (stats_price D now' symbol px ?st), process_run D now cs c)"
    by (simp add: Get24hStats_def st)
  have "ss_open24h ?st = d_Zero D" using h assms(4) by (simp add: holds_def ringSize_def)
  then have "v (p_PriceChange24h (stats_price D now' symbol px ?st)) = v px \<and> v (p_PriceChange24P (stats_price D now' symbol px ?st)) = 0"
    by (simp add: stats_price_def Let_def decimal_api.v_simps [OF assms(1)])
  moreover have "window_price v ?ms (stats_price D now' symbol px ?st)"
    using holds_price [OF h assms(3), of D now' symbol px] assms(4) by (simp add: last24h_def ringSize_def)
  ultimately show ?thesis using ans by blast
qed

theorem cold_start_reports_whole_price_witness:
  "\<exists>p. fst (Get24hStats fd_ops (\<lambda>_ _ _ _ _ _ _. None) sample_time ''BTCUSDT'' (FD 366 1)
      (process_run fd_ops sample_time [sample_candle] NewStreamingPriceCalculator)) = Some p \<and>
     fd_val (p_PriceChange24h p) = 366 / 10"
proof -
  have new: "map_of (pc_stats (NewStreamingPriceCalculator :: fixdec price_calculator)) ''BTCUSDT'' = None"
    by (simp add: NewStreamingPriceCalculator_def)
  have ms: "minutes_of ''BTCUSDT'' [sample_candle] = [sample_candle]"
    by (simp add: minutes_of_def sample_candle_def)
  have "minutes_of ''BTCUSDT'' [sample_candle] \<noteq> []" "length (minutes_of ''BTCUSDT'' [sample_candle]) < 1440"
    unfolding ms by simp_all
  from cold_start_reports_whole_price [OF fd_api new this, of "\<lambda>_ _ _ _ _ _ _. None" sample_time "FD 366 1" sample_time]
  show ?thesis by auto
qed

end
