(* ===== verification/Publisher.thy ===== *)
theory Publisher
  imports Models
begin

text \<open>
  \<open>internal/pubsub/publisher.go\<close>: which message goes to which Redis channel. The Redis client is not
  part of the repository; what reaches it is the list of publish calls, each a channel and the value
  whose JSON form is sent.
\<close>

datatype 'd payload =
    PCandle "'d candle"
  | PPrice "'d price"
  | PMarkPrice "'d mark_price"
  | PPrices "'d price list"

type_synonym 'd redis_msg = "string \<times> 'd payload"

definition PublishCandle :: "string \<Rightarrow> 'd candle \<Rightarrow> 'd redis_msg" where
  "PublishCandle channel candle = (channel, PCandle candle)"

definition PublishPrice :: "string \<Rightarrow> 'd price \<Rightarrow> 'd redis_msg" where
  "PublishPrice symbol price = (let channel = ''nyyu:market:price:'' @ symbol in (channel, PPrice price))"

definition PublishMarkPrice :: "string \<Rightarrow> 'd mark_price \<Rightarrow> 'd redis_msg" where
  "PublishMarkPrice symbol markPrice =
     (let channel = ''nyyu:market:markprice:'' @ symbol in (channel, PMarkPrice markPrice))"

definition PublishAllPrices :: "'d price list \<Rightarrow> 'd redis_msg" where
  "PublishAllPrices prices = (let channel = ''nyyu:market:ticker:all'' in (channel, PPrices prices))"

end
