(* ===== verification/Interfaces.thy ===== *)
theory Interfaces
  imports Models "HOL-Library.Multiset"
begin

text \<open>
  The Go interfaces through which the components use one another, as locales: the operations a client
  calls are fixed, what the provider promises is assumed, and the clients' lemmas are proved from
  these promises alone. Each locale is interpreted in the theory of the component that provides it.
\<close>

section \<open>The proxy service\<close>

text \<open>
  \<open>ProxyServiceInterface\<close> of \<open>exchange_aggregator.go\<close>: \<open>proxies\<close> is \<open>GetProxyListWithWorkingFirst\<close>, the
  other two set and read the working proxy; \<open>ok\<close> is the provider's invariant.
\<close>

locale proxy_interface =
  fixes proxies :: "'p \<Rightarrow> string list"
    and set_working :: "string \<Rightarrow> 'p \<Rightarrow> 'p"
    and get_working :: "'p \<Rightarrow> string"
    and ok :: "'p \<Rightarrow> bool"
  assumes proxies_nonempty: "ok p \<Longrightarrow> proxies p \<noteq> []"
    and get_set: "get_working (set_working u p) = u"
    and hd_working: "get_working p \<noteq> '''' \<Longrightarrow> \<exists>us. proxies p = get_working p # us"
    and ok_set: "ok p \<Longrightarrow> u \<in> set (proxies p) \<Longrightarrow> ok (set_working u p)"
    and keeps: "u \<in> set (proxies p) \<Longrightarrow> u \<noteq> '''' \<Longrightarrow> set (proxies (set_working u p)) \<subseteq> set (proxies p)"
begin

lemma set_first: "u \<noteq> '''' \<Longrightarrow> \<exists>us. proxies (set_working u p) = u # us"
  using hd_working [of "set_working u p"] by (simp add: get_set)

end

section \<open>Subscriptions\<close>

text \<open>
  \<open>SubscriptionInterface\<close> of \<open>symbol_manager.go\<close>, which \<open>ExchangeAggregatorInterface\<close> of \<open>candle_service.go\<close>
  repeats: \<open>sim a M\<close> says that the provider's state \<open>a\<close> holds the multiset \<open>M\<close> of subscriptions, \<open>canon\<close>
  is the spelling of a symbol the provider keeps and \<open>cap\<close> how many subscriptions it can count.
\<close>

locale subscription_interface =
  fixes subscribe :: "string \<Rightarrow> string \<Rightarrow> 'a \<Rightarrow> 'a"
    and unsubscribe :: "string \<Rightarrow> string \<Rightarrow> 'a \<Rightarrow> 'a"
    and canon :: "string \<Rightarrow> string"
    and sim :: "'a \<Rightarrow> (string \<times> string) multiset \<Rightarrow> bool"
    and cap :: nat
  assumes sim_subscribe: "sim a M \<Longrightarrow> size M < cap \<Longrightarrow> sim (subscribe symbol i a) (add_mset (canon symbol, i) M)"
    and sim_unsubscribe: "sim a M \<Longrightarrow> (canon symbol, i) \<in># M \<Longrightarrow> sim (unsubscribe symbol i a) (M - {#(canon symbol, i)#})"
begin

lemma sim_subscribe_all:
  "sim a M \<Longrightarrow> size M + length ss \<le> cap \<Longrightarrow>
   sim (fold (\<lambda>symbol. subscribe symbol i) ss a) (M + image_mset (\<lambda>symbol. (canon symbol, i)) (mset ss))"
proof (induction ss arbitrary: a M)
  case (Cons symbol ss)
  have "sim (subscribe symbol i a) (add_mset (canon symbol, i) M)" using Cons.prems by (intro sim_subscribe) simp_all
  from Cons.IH [OF this] Cons.prems(2) show ?case by simp
qed simp

lemma sim_release: "sim a M \<Longrightarrow> size M < cap \<Longrightarrow> sim (unsubscribe symbol i (subscribe symbol i a)) M"
  using sim_unsubscribe [OF sim_subscribe, of a M symbol i symbol i] by simp

end

end
