(* ===== verification/Repository.thy ===== *)
theory Repository
  imports Interfaces "HOL-Library.Multiset" "HOL-Library.List_Lexorder" "HOL-Library.Char_ord"
begin

text \<open>
  \<open>internal/repository/candle_repository.go\<close>: the queries and inserts of the candle table. The database
  is not part of the repository; what the code asks of it is a \<open>select_query\<close>, the meaning of the SQL
  text it builds, and what it hands over is an \<open>insert_row\<close>. The answers are arguments of the
  operations. The locale \<open>clickhouse_api\<close> states what SQL says of such answers.
\<close>

record select_query =
  q_symbol :: string
  q_interval :: string
  q_contract :: string
  q_source :: "string option"
  q_from :: "gotime option"
  q_to :: "gotime option"
  q_limit :: "int option"

text \<open>A row as it is scanned: decimals as text, the flags as unsigned integers.\<close>

record db_row =
  r_symbol :: string
  r_interval :: string
  r_open_time :: gotime
  r_close_time :: gotime
  r_open :: string
  r_high :: string
  r_low :: string
  r_close :: string
  r_volume :: string
  r_quote_volume :: string
  r_trade_count :: "32 word"
  r_taker_base :: string
  r_taker_quote :: string
  r_source :: string
  r_is_closed :: "8 word"
  r_contract :: string
  r_created :: gotime
  r_updated :: gotime

definition candle_query ::
  "string \<Rightarrow> string \<Rightarrow> string \<Rightarrow> string \<Rightarrow> gotime \<Rightarrow> gotime \<Rightarrow> int \<Rightarrow> select_query" where
  "candle_query symbol interval source contractType startTime endTime limit =
     \<lparr>q_symbol = symbol, q_interval = interval, q_contract = contractType,
      q_source = (if source \<noteq> '''' \<and> source \<noteq> ''aggregated'' then Some source else None),
      q_from = (if \<not> t_IsZero startTime then Some startTime else None),
      q_to = (if \<not> t_IsZero endTime then Some endTime else None),
      q_limit = (if limit > 0 then Some limit else None)\<rparr>"

definition scan_candle :: "'d decimal_ops \<Rightarrow> db_row \<Rightarrow> 'd candle" where
  "scan_candle D r = \<lparr>c_Symbol = r_symbol r, c_Interval = r_interval r, c_OpenTime = r_open_time r,
     c_CloseTime = r_close_time r, c_Open = d_NewFromString D (r_open r), c_High = d_NewFromString D (r_high r),
     c_Low = d_NewFromString D (r_low r), c_Close = d_NewFromString D (r_close r),
     c_Volume = d_NewFromString D (r_volume r), c_QuoteVolume = d_NewFromString D (r_quote_volume r),
     c_TradeCount = uint (r_trade_count r), c_Source = r_source r, c_IsClosed = (r_is_closed r = 1),
     c_ContractType = r_contract r, c_CreatedAt = r_created r, c_UpdatedAt = r_updated r,
     c_TakerBuyBaseVolume = d_NewFromString D (r_taker_base r),
     c_TakerBuyQuoteVolume = d_NewFromString D (r_taker_quote r)\<rparr>"

text \<open>The loop over the rows: an entry \<open>None\<close> is a row that cannot be scanned.\<close>

fun scan_rows :: "'d decimal_ops \<Rightarrow> db_row option list \<Rightarrow> 'd candle list option" where
  "scan_rows D [] = Some []"
| "scan_rows D (None # rows) = None"
| "scan_rows D (Some r # rows) = map_option (\<lambda>cs. scan_candle D r # cs) (scan_rows D rows)"

text \<open>The loop that swaps \<open>candles[i]\<close> and \<open>candles[j]\<close> from both ends.\<close>

function reverse_loop :: "nat \<Rightarrow> int \<Rightarrow> 'a list \<Rightarrow> 'a list" where
  "reverse_loop i j xs =
     (if int i < j then reverse_loop (i + 1) (j - 1) (xs[i := xs ! nat j, nat j := xs ! i]) else xs)"
  by pat_completeness auto
termination
  by (relation "measure (\<lambda>(i, j, xs). nat (j - int i))") auto

declare reverse_loop.simps [simp del]

definition repo_GetCandles ::
  "'d decimal_ops \<Rightarrow> (select_query \<Rightarrow> db_row option list option) \<Rightarrow> string \<Rightarrow> string \<Rightarrow> string \<Rightarrow> string \<Rightarrow> gotime \<Rightarrow> gotime \<Rightarrow>
   int \<Rightarrow> 'd candle list option" where
  "repo_GetCandles D query symbol interval source contractType startTime endTime limit =
     (case query (candle_query symbol interval source contractType startTime endTime limit) of
        None \<Rightarrow> None
      | Some rows \<Rightarrow>
          (case scan_rows D rows of
             None \<Rightarrow> None
           | Some candles \<Rightarrow> Some (reverse_loop 0 (int (length candles) - 1) candles)))"

text \<open>\<open>QueryRow\<close> with \<open>LIMIT 1\<close>: no row and a failure are both an error.\<close>

definition repo_GetLatestCandle ::
  "'d decimal_ops \<Rightarrow> (select_query \<Rightarrow> db_row option list option) \<Rightarrow> string \<Rightarrow> string \<Rightarrow> string \<Rightarrow> string \<Rightarrow> 'd candle option" where
  "repo_GetLatestCandle D query symbol interval source contractType =
     (case query ((candle_query symbol interval source contractType zero_time zero_time 1)) of
        Some (Some r # _) \<Rightarrow> Some (scan_candle D r)
      | _ \<Rightarrow> None)"

record 'd insert_row =
  i_symbol :: string
  i_interval :: string
  i_open_ms :: int
  i_close_ms :: int
  i_open :: 'd
  i_high :: 'd
  i_low :: 'd
  i_close :: 'd
  i_volume :: 'd
  i_quote_volume :: 'd
  i_trade_count :: int
  i_taker_base :: 'd
  i_taker_quote :: 'd
  i_source :: string
  i_is_closed :: "8 word"
  i_contract :: string
  i_created_ms :: int
  i_updated_ms :: int

definition insert_of :: "'d candle \<Rightarrow> 'd insert_row" where
  "insert_of c = \<lparr>i_symbol = c_Symbol c, i_interval = c_Interval c, i_open_ms = t_UnixMilli (c_OpenTime c),
     i_close_ms = t_UnixMilli (c_CloseTime c), i_open = c_Open c, i_high = c_High c, i_low = c_Low c, i_close = c_Close c,
     i_volume = c_Volume c, i_quote_volume = c_QuoteVolume c, i_trade_count = c_TradeCount c,
     i_taker_base = c_TakerBuyBaseVolume c, i_taker_quote = c_TakerBuyQuoteVolume c, i_source = c_Source c,
     i_is_closed = (if c_IsClosed c then 1 else 0), i_contract = c_ContractType c,
     i_created_ms = t_UnixMilli (c_CreatedAt c), i_updated_ms = t_UnixMilli (c_UpdatedAt c)\<rparr>"

text \<open>
  The two inserts: whether they succeed, and the rows handed over. \<open>exec\<close> is the answer to the insert;
  for the batch, \<open>setOk\<close> and \<open>prepOk\<close> those to \<open>SET\<close> and to the preparation, \<open>appendOk\<close> that to
  each row.
\<close>

definition repo_CreateCandle :: "('d insert_row \<Rightarrow> bool) \<Rightarrow> 'd candle \<Rightarrow> bool \<times> 'd insert_row list" where
  "repo_CreateCandle exec candle =
     (let r = insert_of candle in if exec r then (True, [r]) else (False, []))"

definition repo_BatchCreateCandles ::
  "bool \<Rightarrow> bool \<Rightarrow> ('d insert_row \<Rightarrow> bool) \<Rightarrow> bool \<Rightarrow> 'd candle list \<Rightarrow> bool \<times> 'd insert_row list" where
  "repo_BatchCreateCandles setOk prepOk appendOk sendOk candles =
     (if length candles = 0 then (True, [])
      else if \<not> setOk then (False, [])
      else if \<not> prepOk then (False, [])
      else if \<not> list_all (\<lambda>c. appendOk (insert_of c)) candles then (False, [])
      else if sendOk then (True, map insert_of candles) else (False, []))"

section \<open>The reversal\<close>

text \<open>
  The two summaries of the whole table. \<open>stats_row\<close> is the one row of the first query, \<open>None\<close> when the
  query or the scan fails; the result is a map from names to values of any type. The second query
  answers with one symbol per row; an entry \<open>None\<close> is a row that cannot be scanned.
\<close>

record stats_row =
  st_total_candles :: "64 word"
  st_total_symbols :: "64 word"
  st_earliest :: gotime
  st_latest :: gotime

datatype stat_value = StatCount "64 word" | StatTime gotime

definition repo_GetStats :: "stats_row option \<Rightarrow> (string, stat_value) gomap option" where
  "repo_GetStats row =
     (case row of
        None \<Rightarrow> None
      | Some r \<Rightarrow> Some [(''total_candles'', StatCount (st_total_candles r)), (''total_symbols'', StatCount (st_total_symbols r)),
          (''earliest_candle'', StatTime (st_earliest r)), (''latest_candle'', StatTime (st_latest r))])"

fun scan_symbols :: "string option list \<Rightarrow> string list option" where
  "scan_symbols [] = Some []"
| "scan_symbols (None # rows) = None"
| "scan_symbols (Some symbol # rows) = map_option (\<lambda>symbols. symbol # symbols) (scan_symbols rows)"

definition repo_GetAvailableSymbols :: "string option list option \<Rightarrow> string list option" where
  "repo_GetAvailableSymbols answer = (case answer of None \<Rightarrow> None | Some rows \<Rightarrow> scan_symbols rows)"

lemma reverse_loop_length [simp]: "length (reverse_loop i j xs) = length xs"
  by (induction i j xs rule: reverse_loop.induct) (subst reverse_loop.simps, simp)

lemma reverse_loop_nth:
  assumes "int i + j = int (length xs) - 1" "k < length xs"
  shows "reverse_loop i j xs ! k = (if i \<le> k \<and> int k \<le> j then xs ! (length xs - 1 - k) else xs ! k)"
  using assms
proof (induction i j xs arbitrary: k rule: reverse_loop.induct)
  case (1 i j xs)
  note \<open>k < length xs\<close>
  show ?case
  proof (cases "int i < j")
    case True
    let ?ys = "xs[i := xs ! nat j, nat j := xs ! i]"
    have j: "nat j = length xs - 1 - i" "nat j < length xs" "i < nat j" "i < length xs" using True 1(2) by auto
    have "reverse_loop i j xs ! k = reverse_loop (i + 1) (j - 1) ?ys ! k"
      using True by (subst reverse_loop.simps) simp
    also have "\<dots> = (if i + 1 \<le> k \<and> int k \<le> j - 1 then ?ys ! (length ?ys - 1 - k) else ?ys ! k)"
      using 1(2,3) by (intro 1(1) [OF True]) auto
    also have "\<dots> = (if i \<le> k \<and> int k \<le> j then xs ! (length xs - 1 - k) else xs ! k)"
    proof -
      have ys: "?ys ! i = xs ! nat j" "?ys ! nat j = xs ! i" "\<And>m. m \<noteq> i \<Longrightarrow> m \<noteq> nat j \<Longrightarrow> ?ys ! m = xs ! m" "length ?ys = length xs"
        using j by simp_all
      have le: "int k \<le> j \<longleftrightarrow> k \<le> nat j" "int k \<le> j - 1 \<longleftrightarrow> k < nat j" using j(3) by auto
      consider "k = i" | "k = nat j" | "i < k" "k < nat j" | "k < i \<or> nat j < k" by linarith
      then show ?thesis
      proof cases
        case 1
        then have "length xs - 1 - k = nat j" "i \<le> k \<and> k \<le> nat j" "\<not> (i + 1 \<le> k \<and> k < nat j)" using j by auto
        then show ?thesis unfolding le using 1 by (simp only: ys(1) if_True if_False simp_thms)
      next
        case 2
        then have "length xs - 1 - k = i" using j by linarith
        moreover have "i \<le> k \<and> k \<le> nat j" "\<not> (i + 1 \<le> k \<and> k < nat j)" using 2 j(3) by auto
        ultimately show ?thesis unfolding le using 2 by (simp only: ys(2) if_True if_False simp_thms)
      next
        case 3
        then have "length xs - 1 - k \<noteq> i" "length xs - 1 - k \<noteq> nat j" using j \<open>k < length xs\<close> by auto
        moreover have "i \<le> k \<and> k \<le> nat j" "i + 1 \<le> k \<and> k < nat j" using 3 by auto
        ultimately show ?thesis unfolding le by (simp only: ys(3,4) if_True simp_thms)
      next
        case 4
        then have "k \<noteq> i" "k \<noteq> nat j" "\<not> (i \<le> k \<and> k \<le> nat j)" "\<not> (i + 1 \<le> k \<and> k < nat j)" using j(3) by auto
        then show ?thesis unfolding le by (simp only: ys(3) if_False simp_thms)
      qed
    qed
    finally show ?thesis .
  next
    case False
    then have "reverse_loop i j xs = xs" by (subst reverse_loop.simps) simp
    moreover have "length xs - 1 - k = k" if "i \<le> k" "int k \<le> j" using that False 1(2,3) by auto
    ultimately show ?thesis by simp
  qed
qed

lemma reverse_loop_rev: "reverse_loop 0 (int (length xs) - 1) xs = rev xs"
  by (rule nth_equalityI) (auto simp: reverse_loop_nth rev_nth)

lemma scan_rows_Some: "scan_rows D (map Some rs) = Some (map (scan_candle D) rs)"
  by (induction rs) auto

lemma scan_symbols_Some: "scan_symbols (map Some ss) = Some ss"
  by (induction ss) auto

section \<open>The database\<close>

definition matches :: "select_query \<Rightarrow> db_row \<Rightarrow> bool" where
  "matches q r \<longleftrightarrow> r_symbol r = q_symbol q \<and> r_interval r = q_interval q \<and> r_contract r = q_contract q \<and>
     (case q_source q of None \<Rightarrow> True | Some s \<Rightarrow> r_source r = s) \<and>
     (case q_from q of None \<Rightarrow> True | Some t \<Rightarrow> t_ns t \<le> t_ns (r_open_time r)) \<and>
     (case q_to q of None \<Rightarrow> True | Some t \<Rightarrow> t_ns (r_open_time r) < t_ns t)"

definition answers :: "(select_query \<Rightarrow> 'db \<Rightarrow> db_row list) \<Rightarrow> 'db \<Rightarrow> select_query \<Rightarrow> db_row option list option" where
  "answers run db q = Some (map Some (run q db))"

text \<open>
  \<open>visible\<close> are the rows a query sees, \<open>run\<close> the answer to a query: the matching rows by descending open
  time, cut off at the limit. Inserted rows become visible; older versions of a row may be merged away.
\<close>

locale clickhouse_api =
  fixes visible :: "'db \<Rightarrow> db_row list"
    and run :: "select_query \<Rightarrow> 'db \<Rightarrow> db_row list"
    and ins :: "db_row list \<Rightarrow> 'db \<Rightarrow> 'db"
  assumes run_sorted: "sorted_wrt (\<lambda>a b. t_ns (r_open_time b) \<le> t_ns (r_open_time a)) (run q db)"
    and run_matching: "mset (run q db) \<subseteq># mset (filter (matches q) (visible db))"
    and run_length: "length (run q db) = (let n = length (filter (matches q) (visible db)) in
        case q_limit q of None \<Rightarrow> n | Some k \<Rightarrow> min (nat k) n)"
    and run_latest: "r \<in># mset (filter (matches q) (visible db)) - mset (run q db) \<Longrightarrow> s \<in> set (run q db) \<Longrightarrow>
        t_ns (r_open_time r) \<le> t_ns (r_open_time s)"
    and ins_visible: "set rs \<subseteq> set (visible (ins rs db))" "set (visible (ins rs db)) \<subseteq> set rs \<union> set (visible db)"
begin

lemma GetCandles_rows:
  "repo_GetCandles D (answers run db) symbol interval source ct s e k =
     Some (map (scan_candle D) (rev (run (candle_query symbol interval source ct s e k) db)))"
  unfolding repo_GetCandles_def answers_def option.case scan_rows_Some reverse_loop_rev by (simp add: rev_map)

lemma run_newest:
  assumes "r \<in> set (visible db)" "matches q r" "q_limit q = Some 1"
    and "\<And>s. s \<in> set (visible db) \<Longrightarrow> matches q s \<Longrightarrow> s \<noteq> r \<Longrightarrow> t_ns (r_open_time s) < t_ns (r_open_time r)"
  shows "run q db = [r]"
proof -
  let ?m = "filter (matches q) (visible db)"
  have r: "r \<in> set ?m" using assms(1,2) by simp
  then have "0 < length ?m" by (metis length_pos_if_in_set)
  then have "length (run q db) = 1" using run_length [of q db] assms(3) by (simp add: Let_def min_def Suc_le_eq)
  then obtain s where s: "run q db = [s]" by (auto simp: length_Suc_conv)
  have "s \<in> set ?m" using mset_subset_eqD [OF run_matching, of s q db] s by simp
  moreover have "s = r"
  proof (rule ccontr)
    assume ne: "s \<noteq> r"
    then have "r \<in># mset ?m - mset (run q db)" using r s by (simp add: in_diff_count)
    then have "t_ns (r_open_time r) \<le> t_ns (r_open_time s)" by (rule run_latest) (simp add: s)
    moreover have "t_ns (r_open_time s) < t_ns (r_open_time r)" using \<open>s \<in> set ?m\<close> ne by (intro assms(4)) simp_all
    ultimately show False by simp
  qed
  ultimately show ?thesis using s by simp
qed

end

text \<open>A table as a list of rows.\<close>

definition list_run :: "select_query \<Rightarrow> db_row list \<Rightarrow> db_row list" where
  "list_run q db =
     (let rs = rev (sort_key (\<lambda>r. t_ns (r_open_time r)) (filter (matches q) db)) in
      case q_limit q of None \<Rightarrow> rs | Some k \<Rightarrow> take (nat k) rs)"

definition list_ins :: "db_row list \<Rightarrow> db_row list \<Rightarrow> db_row list" where
  "list_ins rs db = db @ rs"

interpretation table: clickhouse_api "\<lambda>db. db" list_run list_ins
proof
  fix q :: select_query and db :: "db_row list"
  let ?t = "\<lambda>r. t_ns (r_open_time r)" let ?s = "rev (sort_key ?t (filter (matches q) db))"
  have sorted: "sorted_wrt (\<lambda>a b. ?t b \<le> ?t a) ?s"
    using sorted_sort_key [of ?t "filter (matches q) db"] by (simp add: sorted_wrt_rev sorted_wrt_map)
  have ms: "mset ?s = mset (filter (matches q) db)" by simp
  obtain n where run: "list_run q db = take n ?s"
    by (cases "q_limit q") (auto simp: list_run_def Let_def intro: that [of "length ?s"])
  show "sorted_wrt (\<lambda>a b. ?t b \<le> ?t a) (list_run q db)" unfolding run by (rule sorted_wrt_take [OF sorted])
  have split: "mset ?s = mset (take n ?s) + mset (drop n ?s)" by (metis append_take_drop_id mset_append)
  then show "mset (list_run q db) \<subseteq># mset (filter (matches q) db)" unfolding run ms [symmetric] by simp
  show "length (list_run q db) = (let n = length (filter (matches q) db) in
      case q_limit q of None \<Rightarrow> n | Some k \<Rightarrow> min (nat k) n)"
    by (simp add: list_run_def Let_def min.commute split: option.split)
  fix r s assume "r \<in># mset (filter (matches q) db) - mset (list_run q db)" and s: "s \<in> set (list_run q db)"
  then have "r \<in> set (drop n ?s)" unfolding run ms [symmetric] split by simp
  with s [unfolded run] sorted show "?t r \<le> ?t s"
    by (metis (no_types, lifting) append_take_drop_id sorted_wrt_append)
qed (auto simp: list_ins_def)

text \<open>
  The two summaries: the distinct symbols in byte order, and the counts as unsigned 64-bit integers.
\<close>

locale clickhouse_summary = clickhouse_api +
  fixes syms :: "'db \<Rightarrow> string list"
    and summary :: "'db \<Rightarrow> stats_row"
  assumes syms_sorted: "sorted_wrt (<) (syms db)"
    and syms_set: "set (syms db) = r_symbol ` set (visible db)"
    and candles_counted: "st_total_candles (summary db) = of_nat (length (visible db))"
    and symbols_counted: "st_total_symbols (summary db) = of_nat (card (r_symbol ` set (visible db)))"
begin

lemma available_symbols:
  "\<exists>ss. repo_GetAvailableSymbols (Some (map Some (syms db))) = Some ss \<and> sorted_wrt (<) ss \<and> set ss = r_symbol ` set (visible db)"
  by (simp add: repo_GetAvailableSymbols_def scan_symbols_Some syms_sorted syms_set)

lemma stats_agree_with_symbols:
  "repo_GetStats (Some (summary db)) = Some m \<Longrightarrow> repo_GetAvailableSymbols (Some (map Some (syms db))) = Some ss \<Longrightarrow>
   map_of m ''total_symbols'' = Some (StatCount (of_nat (length ss)))"
  using distinct_card [OF conjunct2 [OF iffD1 [OF strict_sorted_iff syms_sorted]], of db]
  by (auto simp: repo_GetStats_def repo_GetAvailableSymbols_def scan_symbols_Some symbols_counted syms_set)

end

definition list_syms :: "db_row list \<Rightarrow> string list" where
  "list_syms db = remdups (sort (map r_symbol db))"

definition list_summary :: "db_row list \<Rightarrow> stats_row" where
  "list_summary db = \<lparr>st_total_candles = of_nat (length db), st_total_symbols = of_nat (length (list_syms db)),
     st_earliest = (if db = [] then zero_time else arg_min_list t_ns (map r_open_time db)),
     st_latest = (if db = [] then zero_time else arg_min_list (\<lambda>t. - t_ns t) (map r_open_time db))\<rparr>"

interpretation table: clickhouse_summary "\<lambda>db. db" list_run list_ins list_syms list_summary
proof
  fix db :: "db_row list"
  show "sorted_wrt (<) (list_syms db)" by (simp add: list_syms_def strict_sorted_iff sorted_remdups)
  show "set (list_syms db) = r_symbol ` set db" by (simp add: list_syms_def)
  then show "st_total_symbols (list_summary db) = of_nat (card (r_symbol ` set db))"
    using distinct_card [of "list_syms db"] by (simp add: list_summary_def list_syms_def)
qed (simp add: list_summary_def)

section \<open>Queries and inserts\<close>

text \<open>
  C15. Reading candles. Whatever answers queries the way SQL says, \<open>GetCandles\<close> returns the matching candles in
  chronological order: all of them when the limit is not positive, else as many as the limit allows, and
  then the most recent ones. Matching means symbol, interval and contract type, the source unless it is
  empty or aggregated, and an open time from the start on and before the end where these are given.
\<close>

theorem GetCandles_latest_in_order:
  assumes "clickhouse_api visible run ins"
  shows "let M = filter (matches (candle_query symbol interval source ct s e k)) (visible db) in
    \<exists>rs. repo_GetCandles D (answers run db) symbol interval source ct s e k = Some (map (scan_candle D) rs) \<and>
      sorted_wrt (\<lambda>a b. t_ns (r_open_time a) \<le> t_ns (r_open_time b)) rs \<and> mset rs \<subseteq># mset M \<and>
      length rs = (if k > 0 then min (nat k) (length M) else length M) \<and>
      (\<forall>r\<in>#mset M - mset rs. \<forall>x\<in>set rs. t_ns (r_open_time r) \<le> t_ns (r_open_time x))"
proof -
  let ?q = "candle_query symbol interval source ct s e k"
  let ?rs = "rev (run ?q db)"
  note api = assms
  have lim: "q_limit ?q = (if k > 0 then Some k else None)" by (simp add: candle_query_def)
  have "sorted_wrt (\<lambda>a b. t_ns (r_open_time a) \<le> t_ns (r_open_time b)) ?rs"
    using clickhouse_api.run_sorted [OF api, of ?q db] by (simp add: sorted_wrt_rev)
  moreover have "length ?rs = (let n = length (filter (matches ?q) (visible db)) in if k > 0 then min (nat k) n else n)"
    using clickhouse_api.run_length [OF api, of ?q db] by (simp add: lim Let_def)
  ultimately show ?thesis
    using clickhouse_api.GetCandles_rows [OF api, of D db symbol interval source ct s e k]
      clickhouse_api.run_matching [OF api, of ?q db] clickhouse_api.run_latest [OF api, of _ ?q db]
    unfolding Let_def by (intro exI [of _ ?rs]) auto
qed

text \<open>The row the database shows for an inserted one; \<open>str\<close> is \<open>toString\<close> of a decimal column.\<close>

definition shown :: "('d \<Rightarrow> string) \<Rightarrow> gotime \<Rightarrow> gotime \<Rightarrow> 'd insert_row \<Rightarrow> db_row" where
  "shown str created updated i = \<lparr>r_symbol = i_symbol i, r_interval = i_interval i,
     r_open_time = time_UnixMilli 0 (i_open_ms i), r_close_time = time_UnixMilli 0 (i_close_ms i),
     r_open = str (i_open i), r_high = str (i_high i), r_low = str (i_low i), r_close = str (i_close i),
     r_volume = str (i_volume i), r_quote_volume = str (i_quote_volume i), r_trade_count = word_of_int (i_trade_count i),
     r_taker_base = str (i_taker_base i), r_taker_quote = str (i_taker_quote i), r_source = i_source i,
     r_is_closed = i_is_closed i, r_contract = i_contract i, r_created = created, r_updated = updated\<rparr>"

definition to_millis :: "gotime \<Rightarrow> gotime" where
  "to_millis t = time_UnixMilli 0 (t_UnixMilli t)"

lemma scan_shown:
  assumes "\<forall>x\<in>{c_Open c, c_High c, c_Low c, c_Close c, c_Volume c, c_QuoteVolume c, c_TakerBuyBaseVolume c, c_TakerBuyQuoteVolume c}.
      d_NewFromString D (str x) = x"
    and "0 \<le> c_TradeCount c" "c_TradeCount c < 2 ^ 32"
  shows "scan_candle D (shown str cr up (insert_of c)) =
    c\<lparr>c_OpenTime := to_millis (c_OpenTime c), c_CloseTime := to_millis (c_CloseTime c), c_CreatedAt := cr, c_UpdatedAt := up\<rparr>"
  using assms by (simp add: scan_candle_def shown_def insert_of_def to_millis_def uint_word_of_int)

text \<open>The newest row of its kind is the one the lookup reads.\<close>

lemma newest_read_back:
  fixes c :: "'d candle" and str :: "'d \<Rightarrow> string" and cr up :: gotime
  defines "u \<equiv> shown str cr up (insert_of c)"
  assumes "clickhouse_api visible run ins" "u \<in> set (visible db)" "src \<in> {'''', ''aggregated'', c_Source c}"
    and "\<And>r. r \<in> set (visible db) \<Longrightarrow> r \<noteq> u \<Longrightarrow> r_symbol r = c_Symbol c \<Longrightarrow> r_interval r = c_Interval c \<Longrightarrow> r_contract r = c_ContractType c \<Longrightarrow>
      t_ns (r_open_time r) < t_ns (to_millis (c_OpenTime c))"
  shows "repo_GetLatestCandle D (answers run db) (c_Symbol c) (c_Interval c) src (c_ContractType c) = Some (scan_candle D u)"
proof -
  let ?q = "candle_query (c_Symbol c) (c_Interval c) src (c_ContractType c) zero_time zero_time 1"
  have "matches ?q u"
    using assms(4) by (auto simp: u_def matches_def candle_query_def shown_def insert_of_def t_IsZero_def)
  moreover have "q_limit ?q = Some 1" by (simp add: candle_query_def)
  moreover have "t_ns (r_open_time r) < t_ns (r_open_time u)" if "r \<in> set (visible db)" "matches ?q r" "r \<noteq> u" for r
    using assms(5) [OF that(1,3)] that(2) by (simp add: u_def matches_def candle_query_def shown_def insert_of_def to_millis_def)
  ultimately have "run ?q db = [u]" using assms(3) by (intro clickhouse_api.run_newest [OF assms(2)]) auto
  then show ?thesis by (simp add: repo_GetLatestCandle_def answers_def)
qed

text \<open>
  C30. Insert and lookup. A candle written by \<open>CreateCandle\<close> whose open time is later than that of every other
  matching row is what \<open>GetLatestCandle\<close> returns for its symbol, interval and contract type, under its own source, the
  empty or the aggregated one: every field as it was written, its two times in UTC and cut to milliseconds,
  provided the decimals read back from their text and the trade count fits 32 bits. The
  creation and update times are those of the table.
\<close>

theorem latest_candle_round_trip:
  assumes "clickhouse_api visible run ins"
    and "repo_CreateCandle exec c = (True, [i])" "db' = ins [shown str cr up i] db"
    and "src \<in> {'''', ''aggregated'', c_Source c}"
    and "\<forall>x\<in>{c_Open c, c_High c, c_Low c, c_Close c, c_Volume c, c_QuoteVolume c, c_TakerBuyBaseVolume c, c_TakerBuyQuoteVolume c}.
      d_NewFromString D (str x) = x"
    and "0 \<le> c_TradeCount c" "c_TradeCount c < 2 ^ 32"
    and "\<forall>r\<in>set (visible db). r_symbol r = c_Symbol c \<and> r_interval r = c_Interval c \<and> r_contract r = c_ContractType c \<longrightarrow>
      t_ns (r_open_time r) < t_ns (to_millis (c_OpenTime c))"
  shows "repo_GetLatestCandle D (answers run db') (c_Symbol c) (c_Interval c) src (c_ContractType c) =
    Some (c\<lparr>c_OpenTime := to_millis (c_OpenTime c), c_CloseTime := to_millis (c_CloseTime c), c_CreatedAt := cr, c_UpdatedAt := up\<rparr>)"
proof -
  let ?u = "shown str cr up (insert_of c)"
  have i: "i = insert_of c" using assms(2) by (auto simp: repo_CreateCandle_def Let_def split: if_splits)
  have vis: "?u \<in> set (visible db')" "set (visible db') \<subseteq> {?u} \<union> set (visible db)"
    using clickhouse_api.ins_visible [OF assms(1), of "[?u]" db] by (auto simp: assms(3) i)
  have "repo_GetLatestCandle D (answers run db') (c_Symbol c) (c_Interval c) src (c_ContractType c) = Some (scan_candle D ?u)"
    using vis assms(8) by (intro newest_read_back [OF assms(1) vis(1) assms(4)]) auto
  then show ?thesis by (simp add: scan_shown [OF assms(5-7)])
qed

definition sample_row :: "int \<Rightarrow> db_row" where
  "sample_row t = \<lparr>r_symbol = ''BTCUSDT'', r_interval = ''1m'', r_open_time = time_UnixMilli 0 t,
     r_close_time = time_UnixMilli 0 (t + 60000), r_open = ''36.5'', r_high = ''36.7'', r_low = ''36.4'', r_close = ''36.6'',
     r_volume = ''12'', r_quote_volume = ''438'', r_trade_count = 5, r_taker_base = ''0'', r_taker_quote = ''0'',
     r_source = ''aggregated'', r_is_closed = 1, r_contract = ''spot'', r_created = zero_time, r_updated = zero_time\<rparr>"

theorem GetCandles_latest_in_order_witness:
  "\<exists>rs. repo_GetCandles fd_ops (answers list_run [sample_row 60000, sample_row 0]) ''BTCUSDT'' ''1m'' '''' ''spot'' zero_time zero_time 0 =
      Some (map (scan_candle fd_ops) rs) \<and> length rs = 2 \<and>
    sorted_wrt (\<lambda>a b. t_ns (r_open_time a) \<le> t_ns (r_open_time b)) rs"
proof -
  have "filter (matches (candle_query ''BTCUSDT'' ''1m'' '''' ''spot'' zero_time zero_time 0)) [sample_row 60000, sample_row 0] =
      [sample_row 60000, sample_row 0]"
    by (simp add: matches_def candle_query_def sample_row_def t_IsZero_def)
  with GetCandles_latest_in_order [OF table.clickhouse_api_axioms, of "''BTCUSDT''" "''1m''" "''''" "''spot''" zero_time zero_time 0
      "[sample_row 60000, sample_row 0]" fd_ops]
  show ?thesis unfolding Let_def by force
qed

definition written_candle :: "fixdec candle" where
  "written_candle = scan_candle fd_ops (sample_row 120000)"

lemma written_candle_sel:
  "c_Symbol written_candle = ''BTCUSDT''" "c_Interval written_candle = ''1m''" "c_ContractType written_candle = ''spot''"
    "c_Open written_candle = FD 365 1" "c_High written_candle = FD 367 1" "c_Low written_candle = FD 364 1"
    "c_Close written_candle = FD 366 1" "c_Volume written_candle = FD 12 0" "c_QuoteVolume written_candle = FD 438 0"
    "c_TakerBuyBaseVolume written_candle = FD 0 0" "c_TakerBuyQuoteVolume written_candle = FD 0 0" "c_TradeCount written_candle = 5"
  by code_simp+

lemma written_candle_text:
  "\<forall>x\<in>{c_Open written_candle, c_High written_candle, c_Low written_candle, c_Close written_candle, c_Volume written_candle,
     c_QuoteVolume written_candle, c_TakerBuyBaseVolume written_candle, c_TakerBuyQuoteVolume written_candle}.
     d_NewFromString fd_ops (fd_show x) = x"
proof -
  have "d_NewFromString fd_ops (fd_show (FD 365 1)) = FD 365 1" "d_NewFromString fd_ops (fd_show (FD 367 1)) = FD 367 1"
    "d_NewFromString fd_ops (fd_show (FD 364 1)) = FD 364 1" "d_NewFromString fd_ops (fd_show (FD 366 1)) = FD 366 1"
    "d_NewFromString fd_ops (fd_show (FD 12 0)) = FD 12 0" "d_NewFromString fd_ops (fd_show (FD 438 0)) = FD 438 0"
    "d_NewFromString fd_ops (fd_show (FD 0 0)) = FD 0 0"
    by code_simp+
  then show ?thesis by (simp add: written_candle_sel)
qed

theorem latest_candle_round_trip_witness:
  "\<exists>c. repo_GetLatestCandle fd_ops (answers list_run (list_ins [shown fd_show zero_time zero_time (insert_of written_candle)] [sample_row 0]))
      ''BTCUSDT'' ''1m'' '''' ''spot'' = Some c \<and> c_Close c = FD 366 1 \<and> t_ns (c_OpenTime c) = 120000 * Millisecond"
proof -
  have times: "c_OpenTime written_candle = time_UnixMilli 0 120000" by (simp add: written_candle_def scan_candle_def sample_row_def)
  have "repo_GetLatestCandle fd_ops (answers list_run (list_ins [shown fd_show zero_time zero_time (insert_of written_candle)] [sample_row 0]))
      (c_Symbol written_candle) (c_Interval written_candle) '''' (c_ContractType written_candle) =
    Some (written_candle\<lparr>c_OpenTime := to_millis (c_OpenTime written_candle), c_CloseTime := to_millis (c_CloseTime written_candle),
      c_CreatedAt := zero_time, c_UpdatedAt := zero_time\<rparr>)"
  proof (rule latest_candle_round_trip [OF table.clickhouse_api_axioms, where exec = "\<lambda>_. True" and db = "[sample_row 0]" and str = fd_show])
    show "repo_CreateCandle (\<lambda>_. True) written_candle = (True, [insert_of written_candle])" by (simp add: repo_CreateCandle_def)
    show "\<forall>x\<in>{c_Open written_candle, c_High written_candle, c_Low written_candle, c_Close written_candle, c_Volume written_candle,
        c_QuoteVolume written_candle, c_TakerBuyBaseVolume written_candle, c_TakerBuyQuoteVolume written_candle}.
        d_NewFromString fd_ops (fd_show x) = x"
      by (rule written_candle_text)
    show "\<forall>r\<in>set [sample_row 0]. r_symbol r = c_Symbol written_candle \<and> r_interval r = c_Interval written_candle \<and>
        r_contract r = c_ContractType written_candle \<longrightarrow> t_ns (r_open_time r) < t_ns (to_millis (c_OpenTime written_candle))"
      unfolding times by (simp add: sample_row_def to_millis_def time_UnixMilli_def t_UnixMilli_def)
  qed (simp_all add: written_candle_sel)
  then show ?thesis by (simp add: written_candle_sel times to_millis_def time_UnixMilli_def t_UnixMilli_def)
qed

end
