(* ===== verification/Candle_Service.thy ===== *)
theory Candle_Service
  imports Price_Calculator Publisher Repository
begin

text \<open>
  \<open>internal/services/candle/candle_service.go\<close> with its Redis caches \<open>internal/cache/candle_cache.go\<close> and
  \<open>internal/cache/price_cache.go\<close>: reading candles through the cache, the three tiers of the latest
  candle, writing with invalidation, and the price tickers.

  Redis is not part of the repository: a record of its three commands is an argument, and the
  locale \<open>redis_api\<close> states what they do. The JSON text of a cached value stands for the value: an
  array, an object or \<open>null\<close>.
\<close>

section \<open>The caches\<close>

datatype 'd cached =
    CandleArray "'d candle list"
  | CandleObject "'d candle"
  | PriceObject "'d price"
  | MarkPriceObject "'d mark_price"
  | CachedNull

record ('r, 'v) redis_ops =
  redis_get :: "gotime \<Rightarrow> string \<Rightarrow> 'r \<Rightarrow> 'v option"          \<comment> \<open>\<open>None\<close>: no such key or an error\<close>
  redis_set :: "gotime \<Rightarrow> string \<Rightarrow> 'v \<Rightarrow> int \<Rightarrow> 'r \<Rightarrow> 'r"
  redis_del :: "string \<Rightarrow> 'r \<Rightarrow> 'r"

text \<open>A nil slice is marshalled as \<open>null\<close>; an empty slice that is not nil does not occur here.\<close>

definition cache_Set :: "('r, 'd cached) redis_ops \<Rightarrow> gotime \<Rightarrow> string \<Rightarrow> 'd candle list \<Rightarrow> int \<Rightarrow> 'r \<Rightarrow> 'r" where
  "cache_Set R now key candles ttl r =
     redis_set R now (''candle:'' @ key) (if candles = [] then CachedNull else CandleArray candles) ttl r"

text \<open>The first result when the second is no error: \<open>Some []\<close> is the nil slice that \<open>null\<close> unmarshals to.\<close>

definition cache_Get :: "('r, 'd cached) redis_ops \<Rightarrow> gotime \<Rightarrow> string \<Rightarrow> 'r \<Rightarrow> 'd candle list option" where
  "cache_Get R now key r =
     (case redis_get R now (''candle:'' @ key) r of
        Some (CandleArray cs) \<Rightarrow> Some cs
      | Some CachedNull \<Rightarrow> Some []
      | _ \<Rightarrow> None)"

definition cache_SetLatest :: "('r, 'd cached) redis_ops \<Rightarrow> gotime \<Rightarrow> string \<Rightarrow> 'd candle \<Rightarrow> int \<Rightarrow> 'r \<Rightarrow> 'r" where
  "cache_SetLatest R now key candle ttl r = redis_set R now (''candle:'' @ key) (CandleObject candle) ttl r"

definition zero_candle :: "'d decimal_ops \<Rightarrow> 'd candle" where
  "zero_candle D = \<lparr>c_Symbol = '''', c_Interval = '''', c_OpenTime = zero_time, c_CloseTime = zero_time,
     c_Open = d_Zero D, c_High = d_Zero D, c_Low = d_Zero D, c_Close = d_Zero D, c_Volume = d_Zero D,
     c_QuoteVolume = d_Zero D, c_TradeCount = 0, c_Source = '''', c_IsClosed = False, c_ContractType = '''',
     c_CreatedAt = zero_time, c_UpdatedAt = zero_time, c_TakerBuyBaseVolume = d_Zero D, c_TakerBuyQuoteVolume = d_Zero D\<rparr>"

text \<open>\<open>null\<close> leaves the struct as it is; an object of another kind is not stored under a candle key.\<close>

definition cache_GetLatest :: "'d decimal_ops \<Rightarrow> ('r, 'd cached) redis_ops \<Rightarrow> gotime \<Rightarrow> string \<Rightarrow> 'r \<Rightarrow> 'd candle option" where
  "cache_GetLatest D R now key r =
     (case redis_get R now (''candle:'' @ key) r of
        Some (CandleObject c) \<Rightarrow> Some c
      | Some CachedNull \<Rightarrow> Some (zero_candle D)
      | _ \<Rightarrow> None)"

definition cache_Delete :: "('r, 'd cached) redis_ops \<Rightarrow> string \<Rightarrow> 'r \<Rightarrow> 'r" where
  "cache_Delete R key r = redis_del R (''candle:'' @ key) r"

definition cache_SetPrice :: "('r, 'd cached) redis_ops \<Rightarrow> gotime \<Rightarrow> string \<Rightarrow> 'd price \<Rightarrow> int \<Rightarrow> 'r \<Rightarrow> 'r" where
  "cache_SetPrice R now symbol px ttl r = redis_set R now (''price:'' @ symbol) (PriceObject px) ttl r"

definition cache_GetPrice :: "('r, 'd cached) redis_ops \<Rightarrow> gotime \<Rightarrow> string \<Rightarrow> 'r \<Rightarrow> 'd price option" where
  "cache_GetPrice R now symbol r =
     (case redis_get R now (''price:'' @ symbol) r of Some (PriceObject px) \<Rightarrow> Some px | _ \<Rightarrow> None)"

definition cache_SetMarkPrice :: "('r, 'd cached) redis_ops \<Rightarrow> gotime \<Rightarrow> string \<Rightarrow> 'd mark_price \<Rightarrow> int \<Rightarrow> 'r \<Rightarrow> 'r" where
  "cache_SetMarkPrice R now symbol mp ttl r = redis_set R now (''markprice:'' @ symbol) (MarkPriceObject mp) ttl r"

definition cache_GetMarkPrice :: "('r, 'd cached) redis_ops \<Rightarrow> gotime \<Rightarrow> string \<Rightarrow> 'r \<Rightarrow> 'd mark_price option" where
  "cache_GetMarkPrice R now symbol r =
     (case redis_get R now (''markprice:'' @ symbol) r of Some (MarkPriceObject mp) \<Rightarrow> Some mp | _ \<Rightarrow> None)"

definition price_Delete :: "('r, 'd cached) redis_ops \<Rightarrow> string \<Rightarrow> 'r \<Rightarrow> 'r" where
  "price_Delete R key r = redis_del R key r"

text \<open>
  What the commands do: a value that was set is read back under its key until its time to live has
  passed, and other keys are not affected.
\<close>

locale redis_api =
  fixes R :: "('r, 'v) redis_ops"
  assumes get_set: "0 < ttl \<Longrightarrow> t_ns now \<le> t_ns now' \<Longrightarrow> t_ns now' < t_ns now + ttl \<Longrightarrow>
      redis_get R now' k (redis_set R now k x ttl r) = Some x"
    and get_set_expired: "0 < ttl \<Longrightarrow> t_ns now + ttl \<le> t_ns now' \<Longrightarrow> redis_get R now' k (redis_set R now k x ttl r) = None"
    and get_set_other: "k' \<noteq> k \<Longrightarrow> redis_get R now' k' (redis_set R now k x ttl r) = redis_get R now' k' r"
    and get_del: "redis_get R now' k (redis_del R k r) = None"
    and get_del_other: "k' \<noteq> k \<Longrightarrow> redis_get R now' k' (redis_del R k r) = redis_get R now' k' r"

text \<open>A map from keys to values with the instant they expire at.\<close>

definition map_redis :: "((string, 'v \<times> int) gomap, 'v) redis_ops" where
  "map_redis = \<lparr>redis_get = (\<lambda>now k r. case map_of r k of None \<Rightarrow> None | Some (x, until) \<Rightarrow> if t_ns now < until then Some x else None),
     redis_set = (\<lambda>now k x ttl r. store k (x, t_ns now + ttl) r), redis_del = (\<lambda>k r. remove k r)\<rparr>"

interpretation map_redis: redis_api map_redis
  by unfold_locales (simp_all add: map_redis_def)

section \<open>The service\<close>

record service_config =
  sc_DefaultCandlesLimit :: int
  sc_MaxCandlesLimit :: int
  sc_CandleTTL :: int

record ('d, 'r) candle_service =
  sv_redis :: 'r
  sv_published :: "'d redis_msg list"
  sv_exchangeAgg :: bool                       \<comment> \<open>whether it is set\<close>
  sv_stats24hCalc :: "'d price_calculator option"

definition NewService :: "'r \<Rightarrow> ('d, 'r) candle_service" where
  "NewService r = \<lparr>sv_redis = r, sv_published = [], sv_exchangeAgg = False, sv_stats24hCalc = None\<rparr>"

definition SetExchangeAggregator :: "('d, 'r) candle_service \<Rightarrow> ('d, 'r) candle_service" where
  "SetExchangeAggregator s = s\<lparr>sv_exchangeAgg := True\<rparr>"

text \<open>The two delegations; \<open>None\<close> is the error for a missing aggregator.\<close>

definition sv_delegate :: "('a \<Rightarrow> 'a) \<Rightarrow> ('d, 'r) candle_service \<Rightarrow> 'a \<Rightarrow> 'a option" where
  "sv_delegate f s a = (if \<not> sv_exchangeAgg s then None else Some (f a))"

definition cache_key :: "string \<Rightarrow> string \<Rightarrow> string \<Rightarrow> string \<Rightarrow> string" where
  "cache_key symbol interval source contractType = symbol @ '':'' @ interval @ '':'' @ source @ '':'' @ contractType"

definition latest_cache_key :: "string \<Rightarrow> string \<Rightarrow> string \<Rightarrow> string \<Rightarrow> string" where
  "latest_cache_key symbol interval source contractType = ''latest:'' @ cache_key symbol interval source contractType"

definition effective_limit :: "service_config \<Rightarrow> int \<Rightarrow> int" where
  "effective_limit cfg limit =
     (let limit = (if limit \<le> 0 then sc_DefaultCandlesLimit cfg else limit)
      in if limit > sc_MaxCandlesLimit cfg then sc_MaxCandlesLimit cfg else limit)"

definition sv_GetCandles ::
  "('r, 'd cached) redis_ops \<Rightarrow> service_config \<Rightarrow> 'd get_candles \<Rightarrow> gotime \<Rightarrow> string \<Rightarrow> string \<Rightarrow> string \<Rightarrow> string \<Rightarrow> gotime \<Rightarrow> gotime \<Rightarrow>
   int \<Rightarrow> ('d, 'r) candle_service \<Rightarrow> 'd candle list option \<times> ('d, 'r) candle_service" where
  "sv_GetCandles R cfg getc now symbol interval source contractType startTime endTime limit s =
     (let limit = effective_limit cfg limit;
          contractType = (if contractType = '''' then ''spot'' else contractType);
          cacheable = (t_IsZero startTime \<and> t_IsZero endTime \<and> limit \<le> 100);
          cacheKey = cache_key symbol interval source contractType
      in case (if cacheable then cache_Get R now cacheKey (sv_redis s) else None) of
           Some (c # cs) \<Rightarrow> (Some (c # cs), s)
         | _ \<Rightarrow>
             (case getc symbol interval source contractType startTime endTime limit of
                None \<Rightarrow> (None, s)
              | Some candles \<Rightarrow>
                  (Some candles,
                   if cacheable then s\<lparr>sv_redis := cache_Set R now cacheKey candles (sc_CandleTTL cfg) (sv_redis s)\<rparr> else s)))"

text \<open>\<open>mem\<close> is \<open>exchangeAgg.GetLatestInMemoryCandle\<close>, \<open>latest\<close> the query of the repository.\<close>

definition sv_GetLatestCandle ::
  "'d decimal_ops \<Rightarrow> ('r, 'd cached) redis_ops \<Rightarrow> service_config \<Rightarrow> (string \<Rightarrow> string \<Rightarrow> 'd candle option) \<Rightarrow>
   (string \<Rightarrow> string \<Rightarrow> string \<Rightarrow> string \<Rightarrow> 'd candle option) \<Rightarrow> gotime \<Rightarrow> string \<Rightarrow> string \<Rightarrow> string \<Rightarrow> string \<Rightarrow>
   ('d, 'r) candle_service \<Rightarrow> 'd candle option \<times> ('d, 'r) candle_service" where
  "sv_GetLatestCandle D R cfg mem latest now symbol interval source contractType s =
     (let contractType = (if contractType = '''' then ''spot'' else contractType);
          cacheKey = latest_cache_key symbol interval source contractType
      in case (if sv_exchangeAgg s \<and> (source = '''' \<or> source = ''aggregated'') then mem symbol interval else None) of
           Some c \<Rightarrow> (Some c, s\<lparr>sv_redis := cache_SetLatest R now cacheKey c (5 * Second) (sv_redis s)\<rparr>)
         | None \<Rightarrow>
             (case cache_GetLatest D R now cacheKey (sv_redis s) of
                Some c \<Rightarrow> (Some c, s)
              | None \<Rightarrow>
                  (case latest symbol interval source contractType of
                     None \<Rightarrow> (None, s)
                   | Some c \<Rightarrow> (Some c, s\<lparr>sv_redis := cache_SetLatest R now cacheKey c (sc_CandleTTL cfg) (sv_redis s)\<rparr>))))"

definition invalidate :: "('r, 'd cached) redis_ops \<Rightarrow> 'd candle \<Rightarrow> 'r \<Rightarrow> 'r" where
  "invalidate R c r =
     cache_Delete R (latest_cache_key (c_Symbol c) (c_Interval c) (c_Source c) (c_ContractType c))
       (cache_Delete R (cache_key (c_Symbol c) (c_Interval c) (c_Source c) (c_ContractType c)) r)"

definition candle_msg :: "'d candle \<Rightarrow> 'd redis_msg" where
  "candle_msg c = PublishCandle (''nyyu:market:candle:'' @ c_Symbol c @ '':'' @ c_Interval c) c"

text \<open>
  \<open>saved\<close> is whether the repository took the candles. The pointers of a batch are distinct, so the
  comparison with the last one publishes that one.
\<close>

definition sv_CreateCandle ::
  "('r, 'd cached) redis_ops \<Rightarrow> bool \<Rightarrow> 'd candle \<Rightarrow> ('d, 'r) candle_service \<Rightarrow> bool \<times> ('d, 'r) candle_service" where
  "sv_CreateCandle R saved candle s =
     (if \<not> saved then (False, s)
      else (True, s\<lparr>sv_redis := invalidate R candle (sv_redis s), sv_published := sv_published s @ [candle_msg candle]\<rparr>))"

definition sv_BatchCreateCandles ::
  "('r, 'd cached) redis_ops \<Rightarrow> bool \<Rightarrow> 'd candle list \<Rightarrow> ('d, 'r) candle_service \<Rightarrow> bool \<times> ('d, 'r) candle_service" where
  "sv_BatchCreateCandles R saved candles s =
     (if length candles = 0 then (True, s)
      else if \<not> saved then (False, s)
      else (True, s\<lparr>sv_redis := fold (invalidate R) candles (sv_redis s),
                    sv_published := sv_published s @ [candle_msg (last candles)]\<rparr>))"

section \<open>Price tickers\<close>

definition Start24hStatsCalculator :: "('d, 'r) candle_service \<Rightarrow> ('d, 'r) candle_service" where
  "Start24hStatsCalculator s =
     (case sv_stats24hCalc s of None \<Rightarrow> s\<lparr>sv_stats24hCalc := Some NewStreamingPriceCalculator\<rparr> | Some _ \<Rightarrow> s)"

definition Stop24hStatsCalculator :: "('d, 'r) candle_service \<Rightarrow> ('d, 'r) candle_service outcome" where
  "Stop24hStatsCalculator s =
     (case sv_stats24hCalc s of
        None \<Rightarrow> Inr s
      | Some c \<Rightarrow> obind (pc_Stop c) (\<lambda>c. Inr (s\<lparr>sv_stats24hCalc := Some c\<rparr>)))"

definition ProcessCandleForStats :: "'d decimal_ops \<Rightarrow> gotime \<Rightarrow> 'd candle \<Rightarrow> ('d, 'r) candle_service \<Rightarrow> ('d, 'r) candle_service" where
  "ProcessCandleForStats D now candle s =
     (case sv_stats24hCalc s of None \<Rightarrow> s | Some c \<Rightarrow> s\<lparr>sv_stats24hCalc := Some (ProcessCandle D now candle c)\<rparr>)"

text \<open>The end of \<open>GetPriceTicker\<close> and the body of \<open>ConvertCandleToPrice\<close>.\<close>

definition candle_price ::
  "'d decimal_ops \<Rightarrow> 'd get_candles \<Rightarrow> gotime \<Rightarrow> string \<Rightarrow> 'd candle \<Rightarrow> ('d, 'r) candle_service \<Rightarrow> 'd price \<times> ('d, 'r) candle_service" where
  "candle_price D getc now symbol candle s =
     (case sv_stats24hCalc s of
        None \<Rightarrow> (basic_price D symbol (c_Close candle) (c_UpdatedAt candle), s)
      | Some calc \<Rightarrow>
          (case Get24hStats D getc now symbol (c_Close candle) calc of
             (Some p, calc) \<Rightarrow> (p, s\<lparr>sv_stats24hCalc := Some calc\<rparr>)
           | (None, calc) \<Rightarrow> (basic_price D symbol (c_Close candle) (c_UpdatedAt candle), s\<lparr>sv_stats24hCalc := Some calc\<rparr>)))"

definition ConvertCandleToPrice ::
  "'d decimal_ops \<Rightarrow> 'd get_candles \<Rightarrow> gotime \<Rightarrow> 'd candle option \<Rightarrow> ('d, 'r) candle_service \<Rightarrow> 'd price option \<times> ('d, 'r) candle_service" where
  "ConvertCandleToPrice D getc now candle s =
     (case candle of
        None \<Rightarrow> (None, s)
      | Some c \<Rightarrow> (let (p, s) = candle_price D getc now (c_Symbol c) c s in (Some p, s)))"

definition GetPriceTicker ::
  "'d decimal_ops \<Rightarrow> ('r, 'd cached) redis_ops \<Rightarrow> service_config \<Rightarrow> 'd get_candles \<Rightarrow> (string \<Rightarrow> string \<Rightarrow> 'd candle option) \<Rightarrow>
   (string \<Rightarrow> string \<Rightarrow> string \<Rightarrow> string \<Rightarrow> 'd candle option) \<Rightarrow> gotime \<Rightarrow> string \<Rightarrow> ('d, 'r) candle_service \<Rightarrow>
   'd price option \<times> ('d, 'r) candle_service" where
  "GetPriceTicker D R cfg getc mem latest now symbol s =
     (case sv_GetLatestCandle D R cfg mem latest now symbol ''1m'' '''' ''spot'' s of
        (None, s) \<Rightarrow> (None, s)
      | (Some candle, s) \<Rightarrow> (let (p, s) = candle_price D getc now symbol candle s in (Some p, s)))"

definition sv_GetStats :: "stats_row option \<Rightarrow> (string, stat_value) gomap option" where
  "sv_GetStats row = repo_GetStats row"

definition sv_GetAvailableSymbols :: "string option list option \<Rightarrow> string list option" where
  "sv_GetAvailableSymbols answer = repo_GetAvailableSymbols answer"

text \<open>\<open>avail\<close> is the answer of \<open>GetAvailableSymbols\<close>; a symbol without a ticker is left out.\<close>

definition ticker_step ::
  "(string \<Rightarrow> ('d, 'r) candle_service \<Rightarrow> 'd price option \<times> ('d, 'r) candle_service) \<Rightarrow> string \<Rightarrow>
   'd price list \<times> ('d, 'r) candle_service \<Rightarrow> 'd price list \<times> ('d, 'r) candle_service" where
  "ticker_step ticker symbol st =
     (case st of (prices, s) \<Rightarrow>
      case ticker symbol s of (None, s) \<Rightarrow> (prices, s) | (Some p, s) \<Rightarrow> (prices @ [p], s))"

definition GetPriceTickers ::
  "'d decimal_ops \<Rightarrow> ('r, 'd cached) redis_ops \<Rightarrow> service_config \<Rightarrow> 'd get_candles \<Rightarrow> (string \<Rightarrow> string \<Rightarrow> 'd candle option) \<Rightarrow>
   (string \<Rightarrow> string \<Rightarrow> string \<Rightarrow> string \<Rightarrow> 'd candle option) \<Rightarrow> string list option \<Rightarrow> gotime \<Rightarrow> string list \<Rightarrow>
   ('d, 'r) candle_service \<Rightarrow> 'd price list option \<times> ('d, 'r) candle_service" where
  "GetPriceTickers D R cfg getc mem latest avail now symbols s =
     (case (if length symbols = 0 then avail else Some symbols) of
        None \<Rightarrow> (None, s)
      | Some symbols \<Rightarrow>
          (let (prices, s) = fold (ticker_step (GetPriceTicker D R cfg getc mem latest now)) symbols ([], s) in (Some prices, s)))"

section \<open>What a reader sees\<close>

lemma cache_Get_Set:
  assumes "redis_api R" "0 < ttl" "t_ns now \<le> t_ns now'" "t_ns now' < t_ns now + ttl" "cs \<noteq> []"
  shows "cache_Get R now' key (cache_Set R now key cs ttl r) = Some cs"
  using redis_api.get_set [OF assms(1-4)] assms(5) by (simp add: cache_Get_def cache_Set_def)

text \<open>The answer of a hit and of a miss.\<close>

lemma GetCandles_hit:
  assumes "t_IsZero st" "t_IsZero en" "effective_limit cfg k \<le> 100" "ct \<noteq> ''''"
    "cache_Get R now (cache_key symbol interval source ct) (sv_redis s) = Some cs" "cs \<noteq> []"
  shows "sv_GetCandles R cfg getc now symbol interval source ct st en k s = (Some cs, s)"
  using assms by (cases cs) (simp_all add: sv_GetCandles_def Let_def)

lemma GetCandles_miss:
  assumes "t_IsZero st" "t_IsZero en" "effective_limit cfg k \<le> 100" "ct \<noteq> ''''"
    "cache_Get R now (cache_key symbol interval source ct) (sv_redis s) \<in> {None, Some []}"
    "getc symbol interval source ct st en (effective_limit cfg k) = Some cs"
  shows "sv_GetCandles R cfg getc now symbol interval source ct st en k s =
    (Some cs, s\<lparr>sv_redis := cache_Set R now (cache_key symbol interval source ct) cs (sc_CandleTTL cfg) (sv_redis s)\<rparr>)"
  using assms by (auto simp: sv_GetCandles_def Let_def)

text \<open>
  The candle cache does not know the limit. When a request for the latest candles, of at most a hundred,
  missed the cache and got some candles from the repository, then for the time to live of the entry every other request of
  that symbol, interval, source and contract type with a limit of at most a hundred gets exactly these
  candles, more or fewer than it asked for, and the repository is not asked.
\<close>

theorem cached_answer_ignores_limit:
  assumes "redis_api R" and zero: "t_IsZero st" "t_IsZero en" and "ct \<noteq> ''''"
    and "effective_limit cfg k \<le> 100" "effective_limit cfg k' \<le> 100"
    and "cache_Get R now (cache_key symbol interval source ct) (sv_redis s) = None"
    and "getc symbol interval source ct st en (effective_limit cfg k) = Some cs" "cs \<noteq> []"
    and "0 < sc_CandleTTL cfg" "t_ns now \<le> t_ns now'" "t_ns now' < t_ns now + sc_CandleTTL cfg"
  shows "\<exists>s'. sv_GetCandles R cfg getc now symbol interval source ct st en k s = (Some cs, s') \<and>
    sv_GetCandles R cfg getc' now' symbol interval source ct st en k' s' = (Some cs, s')"
proof -
  let ?s = "s\<lparr>sv_redis := cache_Set R now (cache_key symbol interval source ct) cs (sc_CandleTTL cfg) (sv_redis s)\<rparr>"
  have "sv_GetCandles R cfg getc now symbol interval source ct st en k s = (Some cs, ?s)"
    using assms(7,8) by (intro GetCandles_miss [OF zero assms(5,4)]) simp_all
  moreover have "sv_GetCandles R cfg getc' now' symbol interval source ct st en k' ?s = (Some cs, ?s)"
    using cache_Get_Set [OF assms(1,10-12,9)] by (intro GetCandles_hit [OF zero assms(6,4) _ assms(9)]) simp
  ultimately show ?thesis by blast
qed

definition sample_config :: service_config where
  "sample_config = \<lparr>sc_DefaultCandlesLimit = 100, sc_MaxCandlesLimit = 1000, sc_CandleTTL = 60 * Second\<rparr>"

theorem cached_answer_ignores_limit_witness:
  "\<exists>s'. sv_GetCandles map_redis sample_config (\<lambda>_ _ _ _ _ _ _. Some [sample_candle]) sample_time ''BTCUSDT'' ''1m'' '''' ''spot''
      zero_time zero_time 1 (NewService []) = (Some [sample_candle], s') \<and>
    sv_GetCandles map_redis sample_config (\<lambda>_ _ _ _ _ _ _. Some [sample_candle, later_candle]) sample_time ''BTCUSDT'' ''1m'' '''' ''spot''
      zero_time zero_time 50 s' = (Some [sample_candle], s')"
proof -
  have "cache_Get map_redis sample_time (cache_key ''BTCUSDT'' ''1m'' '''' ''spot'')
      (sv_redis (NewService [] :: (fixdec, (string, fixdec cached \<times> int) gomap) candle_service)) = None"
    by (simp add: cache_Get_def map_redis_def NewService_def)
  then show ?thesis
    by (intro cached_answer_ignores_limit [OF map_redis.redis_api_axioms])
      (simp_all add: t_IsZero_def effective_limit_def sample_config_def)
qed

text \<open>Keys of one symbol, interval and contract type differ when the sources do in length.\<close>

lemma cache_keys_differ:
  assumes "source \<noteq> ''''"
  shows "''candle:'' @ cache_key a b '''' ct \<noteq> ''candle:'' @ cache_key a b source ct"
    "''candle:'' @ cache_key a b '''' ct \<noteq> ''candle:'' @ latest_cache_key a b source ct"
  using assms by (auto simp: cache_key_def latest_cache_key_def dest!: arg_cong [where f = length])

lemma invalidate_other_source:
  assumes "redis_api R" "c_Source c \<noteq> ''''"
  shows "cache_Get R now (cache_key (c_Symbol c) (c_Interval c) '''' (c_ContractType c)) (invalidate R c r) =
    cache_Get R now (cache_key (c_Symbol c) (c_Interval c) '''' (c_ContractType c)) r"
  unfolding cache_Get_def invalidate_def cache_Delete_def
  using cache_keys_differ [OF assms(2), of "c_Symbol c" "c_Interval c" "c_ContractType c"]
  by (simp add: redis_api.get_del_other [OF assms(1)])

lemma invalidate_same_source:
  assumes "redis_api R"
  shows "cache_Get R now (cache_key (c_Symbol c) (c_Interval c) (c_Source c) (c_ContractType c)) (invalidate R c r) = None"
proof -
  let ?k = "''candle:'' @ cache_key (c_Symbol c) (c_Interval c) (c_Source c) (c_ContractType c)"
  have "?k \<noteq> ''candle:'' @ latest_cache_key (c_Symbol c) (c_Interval c) (c_Source c) (c_ContractType c)"
    by (auto simp: latest_cache_key_def dest!: arg_cong [where f = length])
  then show ?thesis
    by (simp add: cache_Get_def invalidate_def cache_Delete_def redis_api.get_del_other [OF assms] redis_api.get_del [OF assms])
qed



end
