(* ===== verification/Realtime_Aggregator.thy ===== *)
theory Realtime_Aggregator
  imports Interval_Aggregator Publisher
begin

text \<open>
  \<open>internal/services/aggregator/realtime_candle_aggregator.go\<close>: the component that merges the
  candle updates of all exchanges. Its state is the live candles with the last data of each
  exchange, the last closed candle per symbol and interval, the live prices, the direct
  subscribers and the channel to the batch writers. A goroutine the code starts is a pending
  \<open>task\<close> of the state; \<open>run_task\<close> runs one of them, so that a statement about every order of tasks is
  a statement about every schedule. Subscriber callbacks are numbered.
\<close>

record 'd exchange_candle_data =
  x_Open :: 'd
  x_High :: 'd
  x_Low :: 'd
  x_Close :: 'd
  x_Volume :: 'd
  x_QuoteVolume :: 'd
  x_TradeCount :: int
  x_IsClosed :: bool
  x_UpdatedAt :: gotime

record 'd live_candle =
  l_Symbol :: string
  l_Interval :: string
  l_OpenTime :: gotime
  l_CloseTime :: gotime
  l_exchangeData :: "(string, 'd exchange_candle_data) gomap"
  l_aggregated :: "'d candle option"
  l_lastUpdate :: gotime
  l_isClosed :: bool

record 'd aggregated_price =
  ap_Symbol :: string
  ap_LastPrice :: 'd
  ap_ExchangeCount :: int
  ap_UpdatedAt :: gotime
  ap_exchangePrices :: "(string, 'd) gomap"

datatype 'd task =
    T_PublishCandle string string "'d candle option"
  | T_PublishPrice string 'd int
  | T_DeleteLive string
  | T_Stats "'d candle"                \<comment> \<open>\<open>candleService.ProcessCandleForStats\<close>\<close>
  | T_Interval "'d candle"             \<comment> \<open>\<open>intervalAgg.Process1mCandle\<close>\<close>
  | T_CandleSub nat "'d candle"
  | T_PriceSub nat string 'd int

record 'd realtime =
  rt_liveCandles :: "(string, 'd live_candle) gomap"
  rt_latestCandles :: "(string, 'd candle) gomap"
  rt_livePrices :: "(string, 'd aggregated_price) gomap"
  rt_candleSubscribers :: "(string, nat list) gomap"
  rt_priceSubscribers :: "(string, nat list) gomap"
  rt_batchChan :: "'d candle list"
  rt_candleService :: bool             \<comment> \<open>whether the reference is set\<close>
  rt_intervalAgg :: bool
  rt_tasks :: "'d task list"
  rt_redis :: "'d redis_msg list"

definition NewRealtimeCandleAggregator :: "'d realtime" where
  "NewRealtimeCandleAggregator = \<lparr>rt_liveCandles = [], rt_latestCandles = [], rt_livePrices = [],
     rt_candleSubscribers = [], rt_priceSubscribers = [], rt_batchChan = [], rt_candleService = False,
     rt_intervalAgg = False, rt_tasks = [], rt_redis = []\<rparr>"

definition SetCandleService :: "'d realtime \<Rightarrow> 'd realtime" where
  "SetCandleService s = s\<lparr>rt_candleService := True\<rparr>"

definition SetIntervalAggregator :: "'d realtime \<Rightarrow> 'd realtime" where
  "SetIntervalAggregator s = s\<lparr>rt_intervalAgg := True\<rparr>"

text \<open>The \<open>go\<close> statement.\<close>

definition spawn :: "'d task \<Rightarrow> 'd realtime \<Rightarrow> 'd realtime" where
  "spawn t s = s\<lparr>rt_tasks := rt_tasks s @ [t]\<rparr>"

section \<open>Merging the exchanges\<close>

record 'd live_acc =
  la_totalOpen :: 'd
  la_totalClose :: 'd
  la_totalVolume :: 'd
  la_totalQuoteVolume :: 'd
  la_maxHigh :: 'd
  la_minLow :: 'd
  la_totalTradeCount :: int
  la_validCount :: int
  la_firstExchange :: bool
  la_anyClosed :: bool

definition live_acc_start :: "'d decimal_ops \<Rightarrow> 'd live_acc" where
  "live_acc_start D = \<lparr>la_totalOpen = d_Zero D, la_totalClose = d_Zero D, la_totalVolume = d_Zero D,
     la_totalQuoteVolume = d_Zero D, la_maxHigh = d_Zero D, la_minLow = d_Zero D, la_totalTradeCount = 0,
     la_validCount = 0, la_firstExchange = True, la_anyClosed = False\<rparr>"

definition live_step :: "'d decimal_ops \<Rightarrow> 'd live_acc \<Rightarrow> 'd exchange_candle_data \<Rightarrow> 'd live_acc" where
  "live_step D a data =
     (if d_IsZero D (x_Open data) \<and> d_IsZero D (x_Close data) then a
      else
        (let a = a\<lparr>la_validCount := la_validCount a + 1\<rparr>;
             a = (if la_firstExchange a then
                    a\<lparr>la_maxHigh := x_High data, la_minLow := x_Low data, la_firstExchange := False\<rparr>
                  else
                    (let a = (if d_GreaterThan D (x_High data) (la_maxHigh a) then a\<lparr>la_maxHigh := x_High data\<rparr> else a)
                     in if d_LessThan D (x_Low data) (la_minLow a) then a\<lparr>la_minLow := x_Low data\<rparr> else a));
             a = a\<lparr>la_totalOpen := d_Add D (la_totalOpen a) (x_Open data),
                   la_totalClose := d_Add D (la_totalClose a) (x_Close data),
                   la_totalVolume := d_Add D (la_totalVolume a) (x_Volume data),
                   la_totalQuoteVolume := d_Add D (la_totalQuoteVolume a) (x_QuoteVolume data),
                   la_totalTradeCount := la_totalTradeCount a + x_TradeCount data\<rparr>
         in if x_IsClosed data then a\<lparr>la_anyClosed := True\<rparr> else a))"

definition aggregateLiveCandle :: "'d decimal_ops \<Rightarrow> gotime \<Rightarrow> 'd live_candle \<Rightarrow> 'd candle option" where
  "aggregateLiveCandle D now live =
     (let a = foldl (live_step D) (live_acc_start D) (map snd (l_exchangeData live)) in
      if la_validCount a = 0 then None
      else
        (let validCountDecimal = d_NewFromInt D (la_validCount a);
             avgOpen = d_Div D (la_totalOpen a) validCountDecimal;
             avgClose = d_Div D (la_totalClose a) validCountDecimal
         in Some \<lparr>
              c_Symbol = l_Symbol live, c_Interval = l_Interval live,
              c_OpenTime = l_OpenTime live, c_CloseTime = l_CloseTime live,
              c_Open = avgOpen, c_High = la_maxHigh a, c_Low = la_minLow a, c_Close = avgClose,
              c_Volume = la_totalVolume a, c_QuoteVolume = la_totalQuoteVolume a,
              c_TradeCount = la_validCount a, c_Source = ''aggregated'', c_IsClosed = la_anyClosed a,
              c_ContractType = ''spot'', c_CreatedAt = now, c_UpdatedAt = now,
              c_TakerBuyBaseVolume = d_Zero D, c_TakerBuyQuoteVolume = d_Zero D\<rparr>))"

section \<open>Prices\<close>

definition updateLivePrice ::
  "'d decimal_ops \<Rightarrow> gotime \<Rightarrow> string \<Rightarrow> string \<Rightarrow> 'd \<Rightarrow> 'd realtime \<Rightarrow> 'd realtime" where
  "updateLivePrice D now symbol exchange price s =
     (let fresh = \<lparr>ap_Symbol = symbol, ap_LastPrice = d_Zero D, ap_ExchangeCount = 0, ap_UpdatedAt = now,
            ap_exchangePrices = []\<rparr>;
          aggPrice = (case map_of (rt_livePrices s) symbol of None \<Rightarrow> fresh | Some p \<Rightarrow> p);
          aggPrice = aggPrice\<lparr>ap_exchangePrices := store exchange price (ap_exchangePrices aggPrice)\<rparr>;
          (sum, count) = foldl (\<lambda>(sum, count) (_, p). (d_Add D sum p, count + 1)) (d_Zero D, 0 :: int)
            (ap_exchangePrices aggPrice)
      in if count > 0 then
           (let avgPrice = d_Div D sum (d_NewFromInt D count);
                aggPrice = aggPrice\<lparr>ap_LastPrice := avgPrice, ap_ExchangeCount := count, ap_UpdatedAt := now\<rparr>
            in spawn (T_PublishPrice symbol avgPrice count)
                 (s\<lparr>rt_livePrices := store symbol aggPrice (rt_livePrices s)\<rparr>))
         else s\<lparr>rt_livePrices := store symbol aggPrice (rt_livePrices s)\<rparr>)"

definition GetAggregatedPrice :: "'d decimal_ops \<Rightarrow> string \<Rightarrow> 'd realtime \<Rightarrow> 'd \<times> int" where
  "GetAggregatedPrice D symbol s =
     (case map_of (rt_livePrices s) symbol of
        Some aggPrice \<Rightarrow> (ap_LastPrice aggPrice, ap_ExchangeCount aggPrice)
      | None \<Rightarrow> (d_Zero D, 0))"

section \<open>Candle updates\<close>

definition rt_chanCap :: nat where
  "rt_chanCap = 10000"

definition handleClosedCandle ::
  "'d live_candle \<Rightarrow> 'd candle option \<Rightarrow> 'd realtime \<Rightarrow> 'd realtime" where
  "handleClosedCandle live aggregated s =
     (case aggregated of
        None \<Rightarrow> s
      | Some agg \<Rightarrow>
          (let s = s\<lparr>rt_latestCandles := store (latest_key (l_Symbol live) (l_Interval live)) agg (rt_latestCandles s)\<rparr>;
               s = (if length (rt_batchChan s) < rt_chanCap then s\<lparr>rt_batchChan := rt_batchChan s @ [agg]\<rparr> else s);
               candleKey = building_key (l_Symbol live) (l_Interval live) (t_Unix (l_OpenTime live))
           in spawn (T_DeleteLive candleKey) s))"

definition exchange_data_of :: "gotime \<Rightarrow> 'd candle \<Rightarrow> 'd exchange_candle_data" where
  "exchange_data_of now candle = \<lparr>x_Open = c_Open candle, x_High = c_High candle, x_Low = c_Low candle,
     x_Close = c_Close candle, x_Volume = c_Volume candle, x_QuoteVolume = c_QuoteVolume candle,
     x_TradeCount = c_TradeCount candle, x_IsClosed = c_IsClosed candle, x_UpdatedAt = now\<rparr>"

definition ProcessCandleUpdate ::
  "'d decimal_ops \<Rightarrow> gotime \<Rightarrow> string \<Rightarrow> 'd candle \<Rightarrow> 'd realtime \<Rightarrow> 'd realtime" where
  "ProcessCandleUpdate D now exchange candle s =
     (let candleKey = building_key (c_Symbol candle) (c_Interval candle) (t_Unix (c_OpenTime candle));
          fresh = \<lparr>l_Symbol = c_Symbol candle, l_Interval = c_Interval candle, l_OpenTime = c_OpenTime candle,
            l_CloseTime = c_CloseTime candle, l_exchangeData = [], l_aggregated = None,
            l_lastUpdate = zero_time, l_isClosed = False\<rparr>;
          live = (case map_of (rt_liveCandles s) candleKey of None \<Rightarrow> fresh | Some l \<Rightarrow> l);
          live = live\<lparr>l_exchangeData := store exchange (exchange_data_of now candle) (l_exchangeData live)\<rparr>;
          aggregated = aggregateLiveCandle D now live;
          live = live\<lparr>l_aggregated := aggregated, l_lastUpdate := now, l_isClosed := c_IsClosed candle\<rparr>;
          s = s\<lparr>rt_liveCandles := store candleKey live (rt_liveCandles s)\<rparr>;
          s = spawn (T_PublishCandle (c_Symbol candle) (c_Interval candle) aggregated) s;
          s = updateLivePrice D now (c_Symbol candle) exchange (c_Close candle) s
      in if c_IsClosed candle then handleClosedCandle live aggregated s else s)"

section \<open>Publishing\<close>

definition publishCandleUpdate :: "string \<Rightarrow> string \<Rightarrow> 'd candle option \<Rightarrow> 'd realtime \<Rightarrow> 'd realtime" where
  "publishCandleUpdate symbol interval candle s =
     (case candle of
        None \<Rightarrow> s
      | Some c \<Rightarrow>
          (let s = (if rt_candleService s \<and> interval = ''1m'' then spawn (T_Stats c) s else s);
               s = (if rt_intervalAgg s \<and> interval = ''1m'' then spawn (T_Interval c) s else s);
               s = (case map_of (rt_candleSubscribers s) (latest_key symbol interval) of
                      None \<Rightarrow> s
                    | Some subs \<Rightarrow> fold (\<lambda>sub. spawn (T_CandleSub sub c)) subs s)
           in s\<lparr>rt_redis := rt_redis s @ [PublishCandle (candle_channel symbol interval) c]\<rparr>))"

definition publishPriceUpdate ::
  "'d decimal_ops \<Rightarrow> gotime \<Rightarrow> string \<Rightarrow> 'd \<Rightarrow> int \<Rightarrow> 'd realtime \<Rightarrow> 'd realtime" where
  "publishPriceUpdate D now symbol price exchangeCount s =
     (let s = (case map_of (rt_priceSubscribers s) symbol of
                 None \<Rightarrow> s
               | Some subs \<Rightarrow> fold (\<lambda>sub. spawn (T_PriceSub sub symbol price exchangeCount)) subs s);
          priceObj = basic_price D symbol price now;
          channel = ''nyyu:market:price:'' @ symbol
      in s\<lparr>rt_redis := rt_redis s @ [PublishPrice channel priceObj]\<rparr>)"

text \<open>
  One pending goroutine runs: the \<open>i\<close>-th. The calls into the candle service, the interval aggregator
  and the subscribers leave this component; the task is the result.
\<close>

definition exec_task :: "'d decimal_ops \<Rightarrow> gotime \<Rightarrow> 'd task \<Rightarrow> 'd realtime \<Rightarrow> 'd realtime" where
  "exec_task D now t s =
     (case t of
        T_PublishCandle symbol interval c \<Rightarrow> publishCandleUpdate symbol interval c s
      | T_PublishPrice symbol price n \<Rightarrow> publishPriceUpdate D now symbol price n s
      | T_DeleteLive key \<Rightarrow> s\<lparr>rt_liveCandles := remove key (rt_liveCandles s)\<rparr>
      | _ \<Rightarrow> s)"

definition run_task :: "'d decimal_ops \<Rightarrow> gotime \<Rightarrow> nat \<Rightarrow> 'd realtime \<Rightarrow> 'd realtime" where
  "run_task D now i s =
     (if i < length (rt_tasks s) then
        exec_task D now (rt_tasks s ! i) (s\<lparr>rt_tasks := take i (rt_tasks s) @ drop (Suc i) (rt_tasks s)\<rparr>)
      else s)"

section \<open>Queries, subscribers, shutdown\<close>

definition latest_live :: "string \<Rightarrow> (string, 'd live_candle) gomap \<Rightarrow> int \<times> 'd candle option" where
  "latest_live pfx m =
     foldl (\<lambda>(latestTimestamp, best) (keyStr, live).
         if key_matches keyStr pfx \<and> t_Unix (l_OpenTime live) > latestTimestamp
         then (t_Unix (l_OpenTime live), l_aggregated live)
         else (latestTimestamp, best))
       (0, None) m"

definition rt_GetLatestCandle ::
  "'d get_candles option \<Rightarrow> gotime \<Rightarrow> string \<Rightarrow> string \<Rightarrow> 'd realtime \<Rightarrow> 'd candle option \<times> 'd realtime" where
  "rt_GetLatestCandle repo now symbol interval s =
     (case snd (latest_live (building_prefix symbol interval) (rt_liveCandles s)) of
        Some c \<Rightarrow> (Some c, s)
      | None \<Rightarrow>
          (case map_of (rt_latestCandles s) (latest_key symbol interval) of
             Some c \<Rightarrow> (Some c, s)
           | None \<Rightarrow>
               (case repo of
                  None \<Rightarrow> (None, s)
                | Some getc \<Rightarrow>
                    (let startTime = t_Add now (- 30 * 24 * Hour_d) in
                     case getc symbol interval '''' ''spot'' startTime now 1 of
                       None \<Rightarrow> (None, s)
                     | Some [] \<Rightarrow> (None, s)
                     | Some (lastCandle # _) \<Rightarrow>
                         (Some lastCandle,
                          s\<lparr>rt_latestCandles := store (latest_key symbol interval) lastCandle (rt_latestCandles s)\<rparr>)))))"

definition SubscribeCandle :: "string \<Rightarrow> string \<Rightarrow> nat \<Rightarrow> 'd realtime \<Rightarrow> 'd realtime" where
  "SubscribeCandle symbol interval callback s =
     (let key = latest_key symbol interval;
          subscribers = (case map_of (rt_candleSubscribers s) key of None \<Rightarrow> [] | Some subs \<Rightarrow> subs)
      in s\<lparr>rt_candleSubscribers := store key (subscribers @ [callback]) (rt_candleSubscribers s)\<rparr>)"

definition SubscribePrice :: "string \<Rightarrow> nat \<Rightarrow> 'd realtime \<Rightarrow> 'd realtime" where
  "SubscribePrice symbol callback s =
     (let subscribers = (case map_of (rt_priceSubscribers s) symbol of None \<Rightarrow> [] | Some subs \<Rightarrow> subs)
      in s\<lparr>rt_priceSubscribers := store symbol (subscribers @ [callback]) (rt_priceSubscribers s)\<rparr>)"

text \<open>The flush goroutine of \<open>Stop\<close>, when it is not cut off by the timeout.\<close>

definition rt_Stop :: "'d decimal_ops \<Rightarrow> gotime \<Rightarrow> 'd realtime \<Rightarrow> 'd realtime" where
  "rt_Stop D now s =
     fold (\<lambda>(_, live) s. case aggregateLiveCandle D now live of
         None \<Rightarrow> s
       | Some agg \<Rightarrow> publishCandleUpdate (l_Symbol live) (l_Interval live) (Some agg) s)
       (rt_liveCandles s) s"

section \<open>What the merged candle holds\<close>

definition valid_data :: "('d \<Rightarrow> rat) \<Rightarrow> 'd exchange_candle_data \<Rightarrow> bool" where
  "valid_data v x = (\<not> (v (x_Open x) = 0 \<and> v (x_Close x) = 0))"

lemma live_step_sel:
  assumes "\<not> (d_IsZero D (x_Open x) \<and> d_IsZero D (x_Close x))"
  shows "la_validCount (live_step D a x) = la_validCount a + 1"
    "la_firstExchange (live_step D a x) = False"
    "la_anyClosed (live_step D a x) = (la_anyClosed a \<or> x_IsClosed x)"
    "la_totalOpen (live_step D a x) = d_Add D (la_totalOpen a) (x_Open x)"
    "la_totalClose (live_step D a x) = d_Add D (la_totalClose a) (x_Close x)"
    "la_totalVolume (live_step D a x) = d_Add D (la_totalVolume a) (x_Volume x)"
    "la_totalQuoteVolume (live_step D a x) = d_Add D (la_totalQuoteVolume a) (x_QuoteVolume x)"
    "la_maxHigh (live_step D a x) =
      (if la_firstExchange a \<or> d_GreaterThan D (x_High x) (la_maxHigh a) then x_High x else la_maxHigh a)"
    "la_minLow (live_step D a x) =
      (if la_firstExchange a \<or> d_LessThan D (x_Low x) (la_minLow a) then x_Low x else la_minLow a)"
  using assms by (auto simp: live_step_def Let_def)

lemma live_step_skip: "d_IsZero D (x_Open x) \<Longrightarrow> d_IsZero D (x_Close x) \<Longrightarrow> live_step D a x = a"
  by (simp add: live_step_def)

context decimal_api
begin

lemma live_fold_sums:
  fixes xs
  defines "a \<equiv> foldl (live_step D) (live_acc_start D) xs" and "ds \<equiv> filter (valid_data v) xs"
  shows "la_validCount a = int (length ds) \<and> (la_firstExchange a \<longleftrightarrow> ds = []) \<and>
    (la_anyClosed a \<longleftrightarrow> (\<exists>d\<in>set ds. x_IsClosed d)) \<and>
    v (la_totalOpen a) = (\<Sum>d\<leftarrow>ds. v (x_Open d)) \<and> v (la_totalClose a) = (\<Sum>d\<leftarrow>ds. v (x_Close d)) \<and>
    v (la_totalVolume a) = (\<Sum>d\<leftarrow>ds. v (x_Volume d)) \<and>
    v (la_totalQuoteVolume a) = (\<Sum>d\<leftarrow>ds. v (x_QuoteVolume d))"
  unfolding a_def ds_def
proof (induction xs rule: rev_induct)
  case Nil
  then show ?case by (simp add: live_acc_start_def v_simps)
next
  case (snoc x xs)
  show ?case
  proof (cases "valid_data v x")
    case True
    then have "\<not> (d_IsZero D (x_Open x) \<and> d_IsZero D (x_Close x))" by (simp add: valid_data_def v_simps)
    note step = live_step_sel(1-7) [OF this]
    from True show ?thesis using snoc.IH by (auto simp: step v_simps)
  next
    case False
    then have "live_step D a x = a" for a by (simp add: live_step_skip valid_data_def v_simps)
    with snoc.IH False show ?thesis by simp
  qed
qed

lemma live_fold_extremes:
  assumes "filter (valid_data v) xs \<noteq> []"
  shows "v (la_maxHigh (foldl (live_step D) (live_acc_start D) xs)) = Max ((\<lambda>d. v (x_High d)) ` set (filter (valid_data v) xs)) \<and>
    v (la_minLow (foldl (live_step D) (live_acc_start D) xs)) = Min ((\<lambda>d. v (x_Low d)) ` set (filter (valid_data v) xs))"
  using assms
proof (induction xs rule: rev_induct)
  case (snoc x xs)
  let ?a = "foldl (live_step D) (live_acc_start D) xs"
  have first: "la_firstExchange ?a \<longleftrightarrow> filter (valid_data v) xs = []" using live_fold_sums [of xs] by blast
  show ?case
  proof (cases "valid_data v x")
    case True
    then have "\<not> (d_IsZero D (x_Open x) \<and> d_IsZero D (x_Close x))" by (simp add: valid_data_def v_simps)
    note step = live_step_sel(8,9) [OF this]
    show ?thesis
    proof (cases "filter (valid_data v) xs = []")
      case empty: True
      then show ?thesis using True first by (simp add: step del: set_filter)
    next
      case False
      have "v (la_maxHigh (live_step D ?a x)) = max (v (x_High x)) (v (la_maxHigh ?a))"
        "v (la_minLow (live_step D ?a x)) = min (v (x_Low x)) (v (la_minLow ?a))"
        using False first by (simp_all add: step v_simps max_def min_def)
      then show ?thesis using snoc.IH False True by (simp del: set_filter)
    qed
  next
    case False
    then have "live_step D a x = a" for a by (simp add: live_step_skip valid_data_def v_simps)
    with snoc False show ?thesis by simp
  qed
qed simp

end

text \<open>
  C19. The merged candle. It is none exactly when no exchange reported an open or close that is not
  zero. Otherwise, over the exchanges that did: the high is the highest high, the low the lowest
  low, volume and quote volume are the sums, open and close are the averages to within half a unit
  of the sixteenth place (and so lie between the lowest and the highest value reported, to that
  precision), the candle counts as closed when one of them closed it, and the field for the number
  of trades holds the number of these exchanges.
\<close>

theorem aggregateLiveCandle_merges:
  assumes "decimal_api D v"
  shows "let ds = filter (valid_data v) (map snd (l_exchangeData live)); n = of_nat (length ds) in
    case aggregateLiveCandle D now live of
      None \<Rightarrow> ds = []
    | Some c \<Rightarrow> ds \<noteq> [] \<and>
        v (c_High c) = Max ((\<lambda>d. v (x_High d)) ` set ds) \<and> v (c_Low c) = Min ((\<lambda>d. v (x_Low d)) ` set ds) \<and>
        v (c_Volume c) = (\<Sum>d\<leftarrow>ds. v (x_Volume d)) \<and> v (c_QuoteVolume c) = (\<Sum>d\<leftarrow>ds. v (x_QuoteVolume d)) \<and>
        \<bar>v (c_Open c) - (\<Sum>d\<leftarrow>ds. v (x_Open d)) / n\<bar> \<le> 1 / (2 * 10 ^ 16) \<and>
        \<bar>v (c_Close c) - (\<Sum>d\<leftarrow>ds. v (x_Close d)) / n\<bar> \<le> 1 / (2 * 10 ^ 16) \<and>
        c_IsClosed c = (\<exists>d\<in>set ds. x_IsClosed d) \<and> c_TradeCount c = int (length ds) \<and>
        c_Symbol c = l_Symbol live \<and> c_Interval c = l_Interval live \<and>
        c_OpenTime c = l_OpenTime live \<and> c_CloseTime c = l_CloseTime live"
proof -
  define xs where "xs = map snd (l_exchangeData live)"
  let ?a = "foldl (live_step D) (live_acc_start D) xs" and ?ds = "filter (valid_data v) xs"
  note f = decimal_api.live_fold_sums [OF assms, of xs]
  show ?thesis
  proof (cases "?ds = []")
    case True
    then show ?thesis using f by (simp add: aggregateLiveCandle_def Let_def xs_def [symmetric])
  next
    case False
    have n0: "v (d_NewFromInt D (la_validCount ?a)) = of_nat (length ?ds)" "la_validCount ?a \<noteq> 0"
      using f False by (simp_all add: decimal_api.v_NewFromInt [OF assms])
    have "v (d_NewFromInt D (la_validCount ?a)) \<noteq> 0" using n0 False by simp
    note err = decimal_api.v_Div_err [OF assms this]
    show ?thesis
      using f False decimal_api.live_fold_extremes [OF assms False] n0 err [of "la_totalOpen ?a"] err [of "la_totalClose ?a"]
      by (simp add: aggregateLiveCandle_def Let_def xs_def [symmetric])
  qed
qed

section \<open>The invariant\<close>

definition live_ok :: "'d decimal_ops \<Rightarrow> string \<Rightarrow> 'd live_candle \<Rightarrow> bool" where
  "live_ok D k l \<longleftrightarrow> k = building_key (l_Symbol l) (l_Interval l) (t_Unix (l_OpenTime l)) \<and>
     wf_map (l_exchangeData l) \<and> l_exchangeData l \<noteq> [] \<and> (\<exists>t. l_aggregated l = aggregateLiveCandle D t l)"

definition price_ok :: "'d decimal_ops \<Rightarrow> string \<Rightarrow> 'd aggregated_price \<Rightarrow> bool" where
  "price_ok D sy p \<longleftrightarrow> ap_Symbol p = sy \<and> wf_map (ap_exchangePrices p) \<and> ap_exchangePrices p \<noteq> [] \<and>
     ap_ExchangeCount p = int (length (ap_exchangePrices p)) \<and>
     ap_LastPrice p = d_Div D (foldl (\<lambda>s q. d_Add D s (snd q)) (d_Zero D) (ap_exchangePrices p))
       (d_NewFromInt D (int (length (ap_exchangePrices p))))"

definition rt_ok :: "'d decimal_ops \<Rightarrow> 'd realtime \<Rightarrow> bool" where
  "rt_ok D s \<longleftrightarrow> wf_map (rt_liveCandles s) \<and> (\<forall>(k, l)\<in>set (rt_liveCandles s). live_ok D k l) \<and>
     wf_map (rt_livePrices s) \<and> (\<forall>(sy, p)\<in>set (rt_livePrices s). price_ok D sy p) \<and>
     length (rt_batchChan s) \<le> rt_chanCap"

lemma spawn_sel [simp]:
  "rt_liveCandles (spawn t s) = rt_liveCandles s" "rt_latestCandles (spawn t s) = rt_latestCandles s"
  "rt_livePrices (spawn t s) = rt_livePrices s" "rt_batchChan (spawn t s) = rt_batchChan s"
  "rt_candleSubscribers (spawn t s) = rt_candleSubscribers s"
  "rt_priceSubscribers (spawn t s) = rt_priceSubscribers s"
  "rt_redis (spawn t s) = rt_redis s" "rt_tasks (spawn t s) = rt_tasks s @ [t]"
  "rt_candleService (spawn t s) = rt_candleService s" "rt_intervalAgg (spawn t s) = rt_intervalAgg s"
  by (simp_all add: spawn_def)

lemma fold_spawn_sel [simp]:
  "rt_liveCandles (fold (\<lambda>x. spawn (f x)) xs s) = rt_liveCandles s"
  "rt_latestCandles (fold (\<lambda>x. spawn (f x)) xs s) = rt_latestCandles s"
  "rt_livePrices (fold (\<lambda>x. spawn (f x)) xs s) = rt_livePrices s"
  "rt_batchChan (fold (\<lambda>x. spawn (f x)) xs s) = rt_batchChan s"
  "rt_redis (fold (\<lambda>x. spawn (f x)) xs s) = rt_redis s"
  "rt_tasks (fold (\<lambda>x. spawn (f x)) xs s) = rt_tasks s @ map f xs"
  by (induction xs arbitrary: s) simp_all

lemma store_not_Nil [simp]: "store k x m \<noteq> []"
  by (cases m) (auto split: prod.split)

text \<open>The price of a symbol with the prices its exchanges last reported.\<close>

definition price_with :: "'d decimal_ops \<Rightarrow> gotime \<Rightarrow> string \<Rightarrow> (string, 'd) gomap \<Rightarrow> 'd aggregated_price" where
  "price_with D now symbol m = \<lparr>ap_Symbol = symbol,
     ap_LastPrice = d_Div D (foldl (\<lambda>s q. d_Add D s (snd q)) (d_Zero D) m) (d_NewFromInt D (int (length m))),
     ap_ExchangeCount = int (length m), ap_UpdatedAt = now, ap_exchangePrices = m\<rparr>"

definition prices_of :: "string \<Rightarrow> 'd realtime \<Rightarrow> (string, 'd) gomap" where
  "prices_of symbol s = (case map_of (rt_livePrices s) symbol of None \<Rightarrow> [] | Some p \<Rightarrow> ap_exchangePrices p)"

lemma sum_count_fold:
  "foldl (\<lambda>(sum, n) (_, p). (d_Add D sum p, n + 1)) (z, k :: int) m =
     (foldl (\<lambda>s q. d_Add D s (snd q)) z m, k + int (length m))"
  by (induction m arbitrary: z k) (auto simp: case_prod_unfold)

lemma price_full_update:
  "p\<lparr>ap_exchangePrices := m, ap_LastPrice := a, ap_ExchangeCount := n, ap_UpdatedAt := u\<rparr> =
     \<lparr>ap_Symbol = ap_Symbol p, ap_LastPrice = a, ap_ExchangeCount = n, ap_UpdatedAt = u, ap_exchangePrices = m\<rparr>"
  by (cases p) simp

lemma updateLivePrice_eq:
  assumes "rt_ok D s"
  shows "updateLivePrice D now symbol exchange price s =
    (let m = store exchange price (prices_of symbol s); p = price_with D now symbol m in
     spawn (T_PublishPrice symbol (ap_LastPrice p) (ap_ExchangeCount p))
       (s\<lparr>rt_livePrices := store symbol p (rt_livePrices s)\<rparr>))"
proof -
  have "ap_Symbol p = symbol" if "map_of (rt_livePrices s) symbol = Some p" for p
    using assms map_of_SomeD [OF that] by (auto simp: rt_ok_def price_ok_def)
  then show ?thesis
    by (auto simp: updateLivePrice_def Let_def sum_count_fold price_with_def prices_of_def price_full_update
        split: option.split)
qed

lemma price_with_ok: "wf_map m \<Longrightarrow> m \<noteq> [] \<Longrightarrow> price_ok D symbol (price_with D now symbol m)"
  by (simp add: price_ok_def price_with_def)

lemma prices_of_wf: "rt_ok D s \<Longrightarrow> wf_map (prices_of symbol s)"
  by (auto simp: rt_ok_def price_ok_def prices_of_def split: option.split dest!: map_of_SomeD)

lemma rt_ok_price: "rt_ok D s \<Longrightarrow> rt_ok D (updateLivePrice D now symbol exchange price s)"
  using prices_of_wf [of D s symbol]
  by (auto simp: updateLivePrice_eq Let_def rt_ok_def set_store_wf price_with_ok)

text \<open>The live candle an update leaves behind.\<close>

definition live_after :: "'d decimal_ops \<Rightarrow> gotime \<Rightarrow> string \<Rightarrow> 'd candle \<Rightarrow> 'd live_candle option \<Rightarrow> 'd live_candle" where
  "live_after D now exchange c old =
     (let l = (case old of None \<Rightarrow> \<lparr>l_Symbol = c_Symbol c, l_Interval = c_Interval c, l_OpenTime = c_OpenTime c,
            l_CloseTime = c_CloseTime c, l_exchangeData = [], l_aggregated = None,
            l_lastUpdate = zero_time, l_isClosed = False\<rparr> | Some l \<Rightarrow> l);
          l = l\<lparr>l_exchangeData := store exchange (exchange_data_of now c) (l_exchangeData l)\<rparr>
      in l\<lparr>l_aggregated := aggregateLiveCandle D now l, l_lastUpdate := now, l_isClosed := c_IsClosed c\<rparr>)"

abbreviation live_key :: "'d candle \<Rightarrow> string" where
  "live_key c \<equiv> building_key (c_Symbol c) (c_Interval c) (t_Unix (c_OpenTime c))"

lemma aggregateLiveCandle_frame [simp]:
  "aggregateLiveCandle D now (l\<lparr>l_aggregated := a\<rparr>) = aggregateLiveCandle D now l"
  "aggregateLiveCandle D now (l\<lparr>l_lastUpdate := u\<rparr>) = aggregateLiveCandle D now l"
  "aggregateLiveCandle D now (l\<lparr>l_isClosed := b\<rparr>) = aggregateLiveCandle D now l"
  by (simp_all add: aggregateLiveCandle_def Let_def)

lemma live_after_aggregated:
  "l_aggregated (live_after D now exchange c old) = aggregateLiveCandle D now (live_after D now exchange c old)"
  by (simp add: live_after_def Let_def)

lemma live_after_ok:
  assumes "\<And>l. old = Some l \<Longrightarrow> live_ok D (live_key c) l"
  shows "live_ok D (live_key c) (live_after D now exchange c old)"
proof -
  have "\<exists>t. l_aggregated (live_after D now exchange c old) = aggregateLiveCandle D t (live_after D now exchange c old)"
    using live_after_aggregated by blast
  then show ?thesis
    using assms unfolding live_ok_def by (cases old) (auto simp: live_after_def Let_def)
qed

lemma ProcessCandleUpdate_eq:
  "ProcessCandleUpdate D now exchange c s =
     (let l = live_after D now exchange c (map_of (rt_liveCandles s) (live_key c));
          s1 = updateLivePrice D now (c_Symbol c) exchange (c_Close c)
            (spawn (T_PublishCandle (c_Symbol c) (c_Interval c) (l_aggregated l))
              (s\<lparr>rt_liveCandles := store (live_key c) l (rt_liveCandles s)\<rparr>))
      in if c_IsClosed c then handleClosedCandle l (l_aggregated l) s1 else s1)"
  by (auto simp: ProcessCandleUpdate_def live_after_def Let_def)

lemma rt_ok_spawn [simp]: "rt_ok D (spawn t s) = rt_ok D s"
  by (simp add: rt_ok_def)

lemma rt_ok_handleClosed: "rt_ok D s \<Longrightarrow> rt_ok D (handleClosedCandle l a s)"
  by (auto simp: handleClosedCandle_def Let_def split: option.split) (auto simp: rt_ok_def)

lemma rt_ok_update:
  assumes "rt_ok D s"
  shows "rt_ok D (ProcessCandleUpdate D now exchange c s)"
proof -
  have "live_ok D (live_key c) (live_after D now exchange c (map_of (rt_liveCandles s) (live_key c)))"
    using assms by (intro live_after_ok) (auto simp: rt_ok_def dest: map_of_SomeD)
  then have "rt_ok D (s\<lparr>rt_liveCandles := store (live_key c)
      (live_after D now exchange c (map_of (rt_liveCandles s) (live_key c))) (rt_liveCandles s)\<rparr>)"
    using assms by (auto simp: rt_ok_def set_store_wf)
  then show ?thesis
    by (simp add: ProcessCandleUpdate_eq Let_def rt_ok_handleClosed rt_ok_price)
qed

lemma rt_ok_publish: "rt_ok D s \<Longrightarrow> rt_ok D (publishCandleUpdate symbol interval c s)"
  by (auto simp: publishCandleUpdate_def Let_def rt_ok_def split: option.split)

lemma rt_ok_publishPrice: "rt_ok D s \<Longrightarrow> rt_ok D (publishPriceUpdate D now symbol p n s)"
  by (auto simp: publishPriceUpdate_def Let_def rt_ok_def split: option.split)

lemma rt_ok_run: "rt_ok D s \<Longrightarrow> rt_ok D (run_task D now i s)"
proof -
  assume ok: "rt_ok D s"
  let ?s = "s\<lparr>rt_tasks := take i (rt_tasks s) @ drop (Suc i) (rt_tasks s)\<rparr>"
  have "rt_ok D ?s" using ok by (simp add: rt_ok_def)
  moreover from this have "rt_ok D (?s\<lparr>rt_liveCandles := remove k (rt_liveCandles ?s)\<rparr>)" for k
    by (auto simp: rt_ok_def set_remove_wf)
  ultimately show "rt_ok D (run_task D now i s)"
    using ok by (auto simp: run_task_def exec_task_def rt_ok_publish rt_ok_publishPrice split: task.split)
qed

lemma rt_ok_query: "rt_ok D s \<Longrightarrow> rt_ok D (snd (rt_GetLatestCandle repo now symbol interval s))"
  by (auto simp: rt_GetLatestCandle_def Let_def rt_ok_def split: option.split list.split)

section \<open>The component as a state machine\<close>

inductive rt_step :: "'d decimal_ops \<Rightarrow> 'd realtime \<Rightarrow> 'd realtime \<Rightarrow> bool" for D where
  update: "rt_step D s (ProcessCandleUpdate D now exchange c s)"
| goroutine: "rt_step D s (run_task D now i s)"
| receive: "rt_batchChan s = c # q \<Longrightarrow> rt_step D s (s\<lparr>rt_batchChan := q\<rparr>)"
| query: "rt_step D s (snd (rt_GetLatestCandle repo now symbol interval s))"
| sub_candle: "rt_step D s (SubscribeCandle symbol interval callback s)"
| sub_price: "rt_step D s (SubscribePrice symbol callback s)"
| set_service: "rt_step D s (SetCandleService s)"
| set_interval: "rt_step D s (SetIntervalAggregator s)"

inductive rt_reachable :: "'d decimal_ops \<Rightarrow> 'd realtime \<Rightarrow> bool" for D where
  start: "rt_reachable D NewRealtimeCandleAggregator"
| step: "rt_reachable D s \<Longrightarrow> rt_step D s s' \<Longrightarrow> rt_reachable D s'"

lemma rt_ok_step: "rt_step D s s' \<Longrightarrow> rt_ok D s \<Longrightarrow> rt_ok D s'"
proof (induction rule: rt_step.induct)
  case (receive s c q)
  then show ?case by (auto simp: rt_ok_def)
qed (auto simp: rt_ok_update rt_ok_run rt_ok_query,
    auto simp: rt_ok_def SubscribeCandle_def SubscribePrice_def SetCandleService_def SetIntervalAggregator_def Let_def)

lemma rt_reachable_ok: "rt_reachable D s \<Longrightarrow> rt_ok D s"
proof (induction rule: rt_reachable.induct)
  case start
  then show ?case by (simp add: rt_ok_def NewRealtimeCandleAggregator_def rt_chanCap_def)
next
  case (step s s')
  then show ?case using rt_ok_step by blast
qed

text \<open>The price the invariant promises.\<close>

lemma price_average:
  assumes "decimal_api D v" "rt_ok D s" "map_of (rt_livePrices s) symbol = Some p"
  defines "qs \<equiv> map (\<lambda>q. v (snd q)) (ap_exchangePrices p)"
  shows "\<exists>px. GetAggregatedPrice D symbol s = (px, int (length qs)) \<and> qs \<noteq> [] \<and> distinct (map fst (ap_exchangePrices p)) \<and>
    \<bar>v px - sum_list qs / of_nat (length qs)\<bar> \<le> 1 / (2 * 10 ^ 16) \<and>
    Min (set qs) - 1 / (2 * 10 ^ 16) \<le> v px \<and> v px \<le> Max (set qs) + 1 / (2 * 10 ^ 16)"
proof -
  have ok: "price_ok D symbol p" using assms(2,3) by (auto simp: rt_ok_def dest: map_of_SomeD)
  let ?m = "ap_exchangePrices p"
  let ?sum = "foldl (\<lambda>s q. d_Add D s (snd q)) (d_Zero D) ?m" and ?n = "int (length ?m)"
  have ne: "0 < ?n" "set qs \<noteq> {}" using ok by (simp_all add: price_ok_def qs_def)
  have sum: "v ?sum = sum_list qs"
    using decimal_api.v_foldl_Add [OF assms(1), of snd "d_Zero D" ?m] by (simp add: decimal_api.v_Zero [OF assms(1)] qs_def)
  have "v (d_NewFromInt D ?n) = of_int ?n" by (rule decimal_api.v_NewFromInt [OF assms(1)])
  then have err: "\<bar>v (d_Div D ?sum (d_NewFromInt D ?n)) - sum_list qs / of_int ?n\<bar> \<le> 1 / (2 * 10 ^ 16)"
    using decimal_api.v_Div_err [OF assms(1), of "d_NewFromInt D ?n" ?sum] ne(1) sum by simp
  have "\<forall>x\<in>set qs. Min (set qs) \<le> x \<and> x \<le> Max (set qs)" by simp
  then have bounds: "Min (set qs) - 1 / (2 * 10 ^ 16) \<le> v (d_Div D ?sum (d_NewFromInt D ?n)) \<and>
      v (d_Div D ?sum (d_NewFromInt D ?n)) \<le> Max (set qs) + 1 / (2 * 10 ^ 16)"
    using ne(1) sum unfolding qs_def by (intro decimal_api.v_average_bounds [OF assms(1)]) simp_all
  show ?thesis
    using ok err bounds ne by (simp add: GetAggregatedPrice_def assms(3) price_ok_def wf_map_def qs_def)
qed


section \<open>Live candles\<close>

lemma updateLivePrice_live [simp]:
  "rt_liveCandles (updateLivePrice D now symbol ex p s) = rt_liveCandles s"
  "rt_batchChan (updateLivePrice D now symbol ex p s) = rt_batchChan s"
  "rt_latestCandles (updateLivePrice D now symbol ex p s) = rt_latestCandles s"
  by (auto simp: updateLivePrice_def Let_def split: prod.split)

lemma ProcessCandleUpdate_live:
  "rt_liveCandles (ProcessCandleUpdate D now ex c s) =
     store (live_key c) (live_after D now ex c (map_of (rt_liveCandles s) (live_key c))) (rt_liveCandles s)"
  by (auto simp: ProcessCandleUpdate_eq Let_def handleClosedCandle_def split: option.split)

lemma live_after_data:
  "l_exchangeData (live_after D now ex c old) =
     store ex (exchange_data_of now c) (case old of None \<Rightarrow> [] | Some l \<Rightarrow> l_exchangeData l)"
  by (auto simp: live_after_def Let_def split: option.split)

type_synonym 'd update = "gotime \<times> string \<times> 'd candle"

definition process_all :: "'d decimal_ops \<Rightarrow> 'd update list \<Rightarrow> 'd realtime \<Rightarrow> 'd realtime" where
  "process_all D us s = foldl (\<lambda>s (now, ex, c). ProcessCandleUpdate D now ex c s) s us"

text \<open>The last update of an exchange in a sequence.\<close>

definition last_of :: "string \<Rightarrow> 'd update list \<Rightarrow> 'd exchange_candle_data option" where
  "last_of ex us =
     (let xs = filter (\<lambda>(_, e, _). e = ex) us in
      if xs = [] then None else (case last xs of (now, _, c) \<Rightarrow> Some (exchange_data_of now c)))"

lemma last_of_snoc:
  "last_of ex (us @ [(now, e, c)]) = (if e = ex then Some (exchange_data_of now c) else last_of ex us)"
  by (auto simp: last_of_def Let_def)

text \<open>
  C18. Last write wins per exchange. When a sequence of updates for one minute reaches an aggregator
  that has no live candle for it, the live candle afterwards holds, for every exchange, exactly the
  data of the last update that exchange sent and nothing of an exchange that sent none, and its
  merged candle is computed from these data.
\<close>

theorem live_candle_last_write_wins:
  assumes "us \<noteq> []" "\<forall>(now, ex, c)\<in>set us. live_key c = key" "map_of (rt_liveCandles s) key = None"
  shows "\<exists>l. map_of (rt_liveCandles (process_all D us s)) key = Some l \<and>
    (\<forall>ex. map_of (l_exchangeData l) ex = last_of ex us) \<and>
    l_aggregated l = aggregateLiveCandle D (fst (last us)) l"
  using assms(1,2)
proof (induction us rule: rev_induct)
  case (snoc u us)
  obtain now e c where u: "u = (now, e, c)" by (cases u)
  have k: "live_key c = key" using snoc.prems u by simp
  let ?old = "map_of (rt_liveCandles (process_all D us s)) key"
  have step: "map_of (rt_liveCandles (process_all D (us @ [u]) s)) key = Some (live_after D now e c ?old)"
    using k by (simp add: process_all_def u ProcessCandleUpdate_live)
  have data: "map_of (case ?old of None \<Rightarrow> [] | Some l \<Rightarrow> l_exchangeData l) ex = last_of ex us" for ex
  proof (cases "us = []")
    case True
    then show ?thesis by (simp add: process_all_def assms(3) last_of_def)
  next
    case False
    then show ?thesis using snoc by auto
  qed
  show ?case
    using data live_after_aggregated [of D now e c ?old]
    by (intro exI [of _ "live_after D now e c ?old"]) (simp add: step [unfolded u] live_after_data u last_of_snoc)
qed simp

text \<open>
  A minute that was closed and removed is started again by a late update: the new live candle
  holds the data of that exchange alone, so its merged candle counts one exchange and has only that
  exchange's volume; and when the update is a closed one, this candle replaces the last closed
  candle of the symbol and is queued for the database once more.
\<close>

theorem late_update_restarts_minute:
  assumes "decimal_api D v" "map_of (rt_liveCandles s) (live_key c) = None"
    and "\<not> (v (c_Open c) = 0 \<and> v (c_Close c) = 0)" "length (rt_batchChan s) < rt_chanCap"
  shows "\<exists>agg. aggregateLiveCandle D now (live_after D now ex c None) = Some agg \<and>
    map_of (rt_liveCandles (ProcessCandleUpdate D now ex c s)) (live_key c) = Some (live_after D now ex c None) \<and>
    c_TradeCount agg = 1 \<and> v (c_Volume agg) = v (c_Volume c) \<and> v (c_High agg) = v (c_High c) \<and>
    (if c_IsClosed c then
       map_of (rt_latestCandles (ProcessCandleUpdate D now ex c s)) (latest_key (c_Symbol c) (c_Interval c)) = Some agg \<and>
       rt_batchChan (ProcessCandleUpdate D now ex c s) = rt_batchChan s @ [agg]
     else rt_batchChan (ProcessCandleUpdate D now ex c s) = rt_batchChan s)"
proof -
  let ?l = "live_after D now ex c None"
  define xs where "xs = map snd (l_exchangeData ?l)"
  have xs: "xs = [exchange_data_of now c]" by (simp add: xs_def live_after_data)
  have ds: "filter (valid_data v) xs = xs"
    using assms(3) by (simp add: xs valid_data_def exchange_data_of_def)
  note f = decimal_api.live_fold_sums [OF assms(1), of xs] decimal_api.live_fold_extremes [OF assms(1), of xs]
  have "la_validCount (foldl (live_step D) (live_acc_start D) xs) = 1"
    "v (la_totalVolume (foldl (live_step D) (live_acc_start D) xs)) = v (c_Volume c)"
    "v (la_maxHigh (foldl (live_step D) (live_acc_start D) xs)) = v (c_High c)"
    using f unfolding ds by (simp_all add: xs exchange_data_of_def)
  then obtain agg where agg: "aggregateLiveCandle D now ?l = Some agg" "c_TradeCount agg = 1"
      "v (c_Volume agg) = v (c_Volume c)" "v (c_High agg) = v (c_High c)"
    unfolding aggregateLiveCandle_def Let_def xs_def [symmetric] by simp
  have sy: "l_Symbol ?l = c_Symbol c" "l_Interval ?l = c_Interval c" by (simp_all add: live_after_def Let_def)
  show ?thesis
    using agg assms(2,4) sy live_after_aggregated [of D now ex c None]
    by (intro exI [of _ agg])
      (simp add: ProcessCandleUpdate_live, simp add: ProcessCandleUpdate_eq Let_def handleClosedCandle_def)
qed

text \<open>
  The channel of a live price. A price update of a symbol is published once, carrying the
  symbol, the price and the time; but the aggregator hands the publisher a channel name where it
  expects a symbol, so the message goes to \<open>nyyu:market:price:nyyu:market:price:SYMBOL\<close> and nothing
  is ever published on \<open>nyyu:market:price:SYMBOL\<close>.
\<close>

theorem price_published_on_doubled_channel:
  "rt_redis (publishPriceUpdate D now symbol px n s) =
     rt_redis s @ [(''nyyu:market:price:nyyu:market:price:'' @ symbol, PPrice (basic_price D symbol px now))] \<and>
   ''nyyu:market:price:nyyu:market:price:'' @ symbol \<noteq> ''nyyu:market:price:'' @ symbol"
  by (auto simp: publishPriceUpdate_def PublishPrice_def Let_def split: option.split)

section \<open>Witnesses\<close>

definition sample_updates :: "fixdec update list" where
  "sample_updates = [(sample_time, ''Binance'', sample_candle\<lparr>c_Volume := FD 3 0, c_IsClosed := False\<rparr>),
     (sample_time, ''Kraken'', sample_candle\<lparr>c_Close := FD 368 1\<rparr>), (sample_time, ''Binance'', sample_candle)]"

abbreviation sample_key :: string where
  "sample_key \<equiv> live_key sample_candle"

theorem live_candle_last_write_wins_witness:
  "\<exists>l. map_of (rt_liveCandles (process_all fd_ops sample_updates NewRealtimeCandleAggregator)) sample_key = Some l \<and>
     map_of (l_exchangeData l) ''Binance'' = Some (exchange_data_of sample_time sample_candle) \<and>
     map_of (l_exchangeData l) ''OKX'' = None"
proof -
  have h: "sample_updates \<noteq> []" "\<forall>(now, ex, c)\<in>set sample_updates. live_key c = sample_key"
    "map_of (rt_liveCandles (NewRealtimeCandleAggregator :: fixdec realtime)) sample_key = None"
    by (simp_all add: sample_updates_def NewRealtimeCandleAggregator_def)
  have "last_of ''Binance'' sample_updates = Some (exchange_data_of sample_time sample_candle)"
    "last_of ''OKX'' sample_updates = None"
    by (simp_all add: last_of_def sample_updates_def)
  then show ?thesis
    using live_candle_last_write_wins [OF h, of fd_ops] by auto
qed

definition sample_live :: "fixdec live_candle" where
  "sample_live = \<lparr>l_Symbol = ''BTCUSDT'', l_Interval = ''1m'', l_OpenTime = c_OpenTime sample_candle,
     l_CloseTime = c_CloseTime sample_candle,
     l_exchangeData = [(''Binance'', exchange_data_of sample_time sample_candle),
       (''Kraken'', exchange_data_of sample_time (sample_candle\<lparr>c_High := FD 369 1, c_Volume := FD 5 0\<rparr>)),
       (''OKX'', exchange_data_of sample_time (sample_candle\<lparr>c_Open := FD 0 0, c_Close := FD 0 0, c_High := FD 999 0\<rparr>))],
     l_aggregated = None, l_lastUpdate = sample_time, l_isClosed = False\<rparr>"

theorem aggregateLiveCandle_merges_witness:
  "\<exists>c. aggregateLiveCandle fd_ops sample_time sample_live = Some c \<and> fd_val (c_High c) = 369 / 10 \<and>
     fd_val (c_Volume c) = 17 \<and> c_TradeCount c = 2"
proof -
  have ds: "filter (valid_data fd_val) (map snd (l_exchangeData sample_live)) =
      [exchange_data_of sample_time sample_candle,
       exchange_data_of sample_time (sample_candle\<lparr>c_High := FD 369 1, c_Volume := FD 5 0\<rparr>)]"
    by (simp add: sample_live_def valid_data_def exchange_data_of_def sample_candle_def)
  show ?thesis
  proof (cases "aggregateLiveCandle fd_ops sample_time sample_live")
    case None
    then show ?thesis
      using aggregateLiveCandle_merges [OF fd_api, of sample_live sample_time] unfolding Let_def ds by simp
  next
    case (Some c)
    then show ?thesis
      using aggregateLiveCandle_merges [OF fd_api, of sample_live sample_time] unfolding Let_def ds
      by (simp add: exchange_data_of_def sample_candle_def)
  qed
qed


theorem late_update_restarts_minute_witness:
  "\<exists>agg. rt_batchChan (ProcessCandleUpdate fd_ops sample_time ''Kraken'' sample_candle NewRealtimeCandleAggregator) = [agg] \<and>
     c_TradeCount agg = 1 \<and> fd_val (c_Volume agg) = 12"
proof -
  have h: "map_of (rt_liveCandles (NewRealtimeCandleAggregator :: fixdec realtime)) sample_key = None"
    "\<not> (fd_val (c_Open sample_candle) = 0 \<and> fd_val (c_Close sample_candle) = 0)"
    "length (rt_batchChan (NewRealtimeCandleAggregator :: fixdec realtime)) < rt_chanCap"
    by (simp_all add: NewRealtimeCandleAggregator_def sample_candle_def rt_chanCap_def)
  have "c_IsClosed sample_candle" "fd_val (c_Volume sample_candle) = 12"
    "rt_batchChan (NewRealtimeCandleAggregator :: fixdec realtime) = []"
    by (simp_all add: sample_candle_def NewRealtimeCandleAggregator_def)
  then show ?thesis
    using late_update_restarts_minute [OF fd_api h, of sample_time "''Kraken''"] by auto
qed

end
