(* ===== verification/Rate_Limiter.thy ===== *)
theory Rate_Limiter
  imports GoTime
begin

text \<open>
  \<open>internal/services/aggregator/rate_limiter.go\<close>: the adaptive backoff of an exchange, the manager that
  holds one limiter per exchange, and the batcher of subscription requests. The token bucket
  \<open>golang.org/x/time/rate\<close> is not part of the repository: its answer is an argument of the calls that
  ask it. \<open>float64(d) * 1.5\<close> and \<open>float64(d) * 0.9\<close>, converted back, are \<open>3 d div 2\<close> and \<open>9 d div 10\<close>
  for every duration up to five minutes: \<open>3 d\<close> is below \<open>2 ^ 53\<close> and 1.5 is exact, and for 0.9 the
  product differs from \<open>9 d / 10\<close> by less than a tenth of a nanosecond, so truncation agrees.
\<close>

record subscription_request =
  sr_Exchange :: string
  sr_Symbol :: string
  sr_Interval :: string
  sr_Priority :: int
  sr_Callback :: "nat option"

record exchange_rate_limiter =
  rl_name :: string
  rl_queue :: "subscription_request list"
  rl_requestCount :: int
  rl_rateLimitHits :: int
  rl_lastRateLimitHit :: gotime
  rl_backoffDuration :: int
  rl_maxBackoff :: int

type_synonym rate_limiter_manager = "(string, exchange_rate_limiter) gomap"

definition NewRateLimiterManager :: rate_limiter_manager where
  "NewRateLimiterManager = []"

definition RegisterExchange :: "string \<Rightarrow> rate_limiter_manager \<Rightarrow> rate_limiter_manager" where
  "RegisterExchange name m = store name \<lparr>rl_name = name, rl_queue = [], rl_requestCount = 0, rl_rateLimitHits = 0,
     rl_lastRateLimitHit = zero_time, rl_backoffDuration = 0, rl_maxBackoff = 5 * Minute_d\<rparr> m"

definition GetLimiter :: "string \<Rightarrow> rate_limiter_manager \<Rightarrow> exchange_rate_limiter option" where
  "GetLimiter exchange m = map_of m exchange"

text \<open>
  \<open>Wait\<close> under a context that expires after \<open>timeout\<close>: the result is whether it succeeded. When the
  backoff and the context end at the same instant the \<open>select\<close> may take either (\<open>tie\<close>). \<open>bucket\<close> is
  the answer of the token bucket.
\<close>

definition rl_Wait :: "int \<Rightarrow> bool \<Rightarrow> bool \<Rightarrow> exchange_rate_limiter \<Rightarrow> bool" where
  "rl_Wait timeout tie bucket e =
     (let backoffDuration = rl_backoffDuration e in
      if backoffDuration > 0 then
        (if backoffDuration < timeout \<or> (backoffDuration = timeout \<and> tie) then bucket else False)
      else bucket)"

definition rl_Allow :: "gotime \<Rightarrow> bool \<Rightarrow> exchange_rate_limiter \<Rightarrow> bool" where
  "rl_Allow now bucket e =
     (if rl_backoffDuration e > 0 \<and> t_Sub now (rl_lastRateLimitHit e) < rl_backoffDuration e then False
      else bucket)"

definition RecordRateLimitHit :: "gotime \<Rightarrow> exchange_rate_limiter \<Rightarrow> exchange_rate_limiter" where
  "RecordRateLimitHit now e =
     (let e = e\<lparr>rl_rateLimitHits := rl_rateLimitHits e + 1, rl_lastRateLimitHit := now\<rparr> in
      if rl_backoffDuration e = 0 then e\<lparr>rl_backoffDuration := 1 * Second\<rparr>
      else
        (let e = e\<lparr>rl_backoffDuration := 3 * rl_backoffDuration e div 2\<rparr> in
         if rl_backoffDuration e > rl_maxBackoff e then e\<lparr>rl_backoffDuration := rl_maxBackoff e\<rparr> else e))"

definition RecordSuccess :: "gotime \<Rightarrow> exchange_rate_limiter \<Rightarrow> exchange_rate_limiter" where
  "RecordSuccess now e =
     (let e = e\<lparr>rl_requestCount := rl_requestCount e + 1\<rparr> in
      if rl_backoffDuration e > 0 then
        (if t_Sub now (rl_lastRateLimitHit e) > 5 * Minute_d then e\<lparr>rl_backoffDuration := 0\<rparr>
         else
           (let e = e\<lparr>rl_backoffDuration := 9 * rl_backoffDuration e div 10\<rparr> in
            if rl_backoffDuration e < Second then e\<lparr>rl_backoffDuration := 0\<rparr> else e))
      else e)"

record limiter_stats =
  ls_name :: string
  ls_request_count :: int
  ls_rate_limit_hits :: int
  ls_last_rate_limit :: gotime
  ls_current_backoff_ms :: int
  ls_queue_size :: int

definition rl_GetStats :: "exchange_rate_limiter \<Rightarrow> limiter_stats" where
  "rl_GetStats e = \<lparr>ls_name = rl_name e, ls_request_count = rl_requestCount e,
     ls_rate_limit_hits = rl_rateLimitHits e, ls_last_rate_limit = rl_lastRateLimitHit e,
     ls_current_backoff_ms = rl_backoffDuration e sdiv Millisecond, ls_queue_size = int (length (rl_queue e))\<rparr>"

section \<open>The batcher\<close>

record subscription_batcher =
  sb_requests :: "(string, subscription_request) gomap"
  sb_maxBatchSize :: int
  sb_flushed :: "subscription_request list list"   \<comment> \<open>the callbacks started, oldest first\<close>

definition NewSubscriptionBatcher :: "int \<Rightarrow> subscription_batcher" where
  "NewSubscriptionBatcher maxSize = \<lparr>sb_requests = [], sb_maxBatchSize = maxSize, sb_flushed = []\<rparr>"

definition sb_key :: "subscription_request \<Rightarrow> string" where
  "sb_key req = sr_Symbol req @ ''@'' @ sr_Interval req"

definition flushLocked :: "subscription_batcher \<Rightarrow> subscription_batcher" where
  "flushLocked b =
     (if length (sb_requests b) = 0 then b
      else b\<lparr>sb_requests := [], sb_flushed := sb_flushed b @ [map snd (sb_requests b)]\<rparr>)"

definition sb_Add :: "subscription_request \<Rightarrow> subscription_batcher \<Rightarrow> subscription_batcher" where
  "sb_Add req b =
     (case map_of (sb_requests b) (sb_key req) of
        Some existing \<Rightarrow>
          if sr_Priority req > sr_Priority existing
          then b\<lparr>sb_requests := store (sb_key req) req (sb_requests b)\<rparr> else b
      | None \<Rightarrow>
          (let b = b\<lparr>sb_requests := store (sb_key req) req (sb_requests b)\<rparr> in
           if int (length (sb_requests b)) \<ge> sb_maxBatchSize b then flushLocked b else b))"

definition sb_Flush :: "subscription_batcher \<Rightarrow> subscription_batcher" where
  "sb_Flush b = flushLocked b"

text \<open>The goroutine \<open>Start\<close> flushes at every tick until its context ends.\<close>

definition sb_Start :: "unit loop_event list \<Rightarrow> subscription_batcher \<Rightarrow> bool \<times> subscription_batcher" where
  "sb_Start evs b = ticker_loop (\<lambda>_. sb_Flush) evs b"

section \<open>The backoff\<close>

definition rl_ok :: "exchange_rate_limiter \<Rightarrow> bool" where
  "rl_ok e \<longleftrightarrow> rl_maxBackoff e = 5 * Minute_d \<and>
     (rl_backoffDuration e = 0 \<or> (Second \<le> rl_backoffDuration e \<and> rl_backoffDuration e \<le> 5 * Minute_d))"

lemma rl_ok_register: "map_of (RegisterExchange name m) name = Some e \<Longrightarrow> rl_ok e"
  by (auto simp: RegisterExchange_def rl_ok_def)

lemma rl_ok_hit: "rl_ok e \<Longrightarrow> rl_ok (RecordRateLimitHit now e)"
  using div_bounds [of 2 "3 * rl_backoffDuration e"]
  by (auto simp: rl_ok_def RecordRateLimitHit_def Let_def)

lemma rl_ok_success: "rl_ok e \<Longrightarrow> rl_ok (RecordSuccess now e)"
  using div_bounds [of 10 "9 * rl_backoffDuration e"]
  by (auto simp: rl_ok_def RecordSuccess_def Let_def)

datatype rl_op = Hit gotime | Success gotime

primrec rl_run :: "rl_op \<Rightarrow> exchange_rate_limiter \<Rightarrow> exchange_rate_limiter" where
  "rl_run (Hit now) e = RecordRateLimitHit now e"
| "rl_run (Success now) e = RecordSuccess now e"

lemma rl_ok_run: "rl_ok e \<Longrightarrow> rl_ok (fold rl_run ops e)"
proof (induction ops arbitrary: e)
  case (Cons op ops)
  then show ?case by (cases op) (auto simp: rl_ok_hit rl_ok_success)
qed simp

text \<open>Each success takes off a tenth; the bound after some successes, by computation.\<close>

definition decay :: "int \<Rightarrow> int" where
  "decay d = (let d' = 9 * d div 10 in if d' < Second then 0 else d')"

lemma decay_mono: "d \<le> d' \<Longrightarrow> decay d \<le> decay d'"
proof -
  assume "d \<le> d'"
  then have "9 * d div 10 \<le> 9 * d' div 10" by (simp add: zdiv_mono1)
  moreover define p q where "p = 9 * d div 10" and "q = 9 * d' div 10"
  ultimately show ?thesis by (simp add: decay_def Let_def)
qed

lemma success_decays:
  assumes "rl_ok e"
  shows "rl_backoffDuration (RecordSuccess now e) \<le> decay (rl_backoffDuration e)"
proof -
  define q where "q = 9 * rl_backoffDuration e div 10"
  have "0 \<le> q" using assms by (auto simp: q_def rl_ok_def pos_imp_zdiv_nonneg_iff)
  then show ?thesis
    using assms by (auto simp: RecordSuccess_def Let_def decay_def q_def [symmetric] rl_ok_def)
qed

lemma successes_decay:
  "rl_ok e \<Longrightarrow> rl_backoffDuration (fold RecordSuccess nows e) \<le> (decay ^^ length nows) (rl_backoffDuration e)"
proof (induction nows arbitrary: e)
  case (Cons now nows)
  have "rl_backoffDuration (fold RecordSuccess nows (RecordSuccess now e)) \<le>
      (decay ^^ length nows) (rl_backoffDuration (RecordSuccess now e))"
    using Cons by (simp add: rl_ok_success)
  also have "\<dots> \<le> (decay ^^ length nows) (decay (rl_backoffDuration e))"
    by (intro funpow_mono monoI decay_mono success_decays Cons.prems)
  finally show ?case by (simp add: funpow_swap1)
qed simp

lemma decay_55: "(decay ^^ 55) (5 * Minute_d) = 0"
  by (simp add: decay_def eval_nat_numeral)

text \<open>
  C20. The adaptive backoff. Whatever rate limit hits and successes a registered limiter records, its
  backoff is zero or between one second and five minutes; after 55 successes without a hit it is
  zero again; and while it is positive and runs since the last hit, no request is allowed.
\<close>

theorem backoff_bounded_and_recovers:
  assumes "map_of (RegisterExchange name m) name = Some e0" "e = fold rl_run ops e0" "length nows = 55"
  shows "(rl_backoffDuration e = 0 \<or> (Second \<le> rl_backoffDuration e \<and> rl_backoffDuration e \<le> 5 * Minute_d)) \<and>
    rl_backoffDuration (fold RecordSuccess nows e) = 0 \<and>
    (rl_Allow now bucket e \<longrightarrow> rl_backoffDuration e = 0 \<or>
      rl_backoffDuration e \<le> t_Sub now (rl_lastRateLimitHit e))"
proof -
  have ok: "rl_ok e" using rl_ok_run [OF rl_ok_register [OF assms(1)]] assms(2) by simp
  have "rl_backoffDuration e \<le> 5 * Minute_d" using ok by (auto simp: rl_ok_def)
  then have "(decay ^^ 55) (rl_backoffDuration e) \<le> (decay ^^ 55) (5 * Minute_d)"
    by (intro funpow_mono monoI decay_mono)
  then have "rl_backoffDuration (fold RecordSuccess nows e) \<le> 0"
    using successes_decay [OF ok, of nows] assms(3) decay_55 by simp
  moreover have "rl_ok (fold RecordSuccess nows e)"
    using ok by (induction nows arbitrary: e) (simp_all add: rl_ok_success)
  ultimately have "rl_backoffDuration (fold RecordSuccess nows e) = 0" by (auto simp: rl_ok_def)
  then show ?thesis using ok by (auto simp: rl_ok_def rl_Allow_def)
qed

theorem backoff_bounded_and_recovers_witness:
  "\<exists>e0 e. map_of (RegisterExchange ''OKX'' []) ''OKX'' = Some e0 \<and>
     e = fold rl_run [Hit zero_time, Hit zero_time] e0 \<and> rl_backoffDuration e = 3 * Second div 2 \<and>
     rl_backoffDuration (fold RecordSuccess (replicate 55 zero_time) e) = 0"
proof -
  obtain e0 where e0: "map_of (RegisterExchange ''OKX'' []) ''OKX'' = Some e0" "rl_backoffDuration e0 = 0"
      "rl_maxBackoff e0 = 5 * Minute_d"
    by (simp add: RegisterExchange_def)
  then have "rl_backoffDuration (fold rl_run [Hit zero_time, Hit zero_time] e0) = 3 * Second div 2"
    by (simp add: RecordRateLimitHit_def Let_def)
  moreover have "rl_backoffDuration (fold RecordSuccess (replicate 55 zero_time) (fold rl_run [Hit zero_time, Hit zero_time] e0)) = 0"
    using backoff_bounded_and_recovers [OF e0(1) refl length_replicate] by (rule conjunct1 [OF conjunct2])
  ultimately show ?thesis using e0(1) by (intro exI conjI) (assumption | rule refl)+
qed

section \<open>The batcher loses no request\<close>

text \<open>Every request has one with its key and at least its priority in a set.\<close>

definition covers :: "subscription_request set \<Rightarrow> subscription_request list \<Rightarrow> bool" where
  "covers A reqs \<longleftrightarrow> (\<forall>req\<in>set reqs. \<exists>r\<in>A. sb_key r = sb_key req \<and> sr_Priority req \<le> sr_Priority r)"

definition accepted :: "subscription_batcher \<Rightarrow> subscription_request set" where
  "accepted b = set (concat (sb_flushed b)) \<union> snd ` set (sb_requests b)"

definition batch_ok :: "nat \<Rightarrow> subscription_request list \<Rightarrow> subscription_request list \<Rightarrow> bool" where
  "batch_ok n reqs batch \<longleftrightarrow> batch \<noteq> [] \<and> length batch \<le> n \<and> distinct (map sb_key batch) \<and> set batch \<subseteq> set reqs"

text \<open>What holds before a full batch is flushed (\<open>m = n\<close>) and after (\<open>m = n - 1\<close>).\<close>

definition sb_ok :: "nat \<Rightarrow> nat \<Rightarrow> subscription_request list \<Rightarrow> subscription_batcher \<Rightarrow> bool" where
  "sb_ok n m reqs b \<longleftrightarrow> sb_maxBatchSize b = int n \<and> wf_map (sb_requests b) \<and> length (sb_requests b) \<le> m \<and>
     (\<forall>(k, r)\<in>set (sb_requests b). k = sb_key r \<and> r \<in> set reqs) \<and>
     (\<forall>batch\<in>set (sb_flushed b). batch_ok n reqs batch) \<and> covers (accepted b) reqs"

lemma length_store: "length (store k x m) = (if map_of m k = None then Suc (length m) else length m)"
  by (induction m) auto

lemma pending_keys: "\<forall>(k, r)\<in>set m. k = sb_key r \<Longrightarrow> map sb_key (map snd m) = map fst m"
  by (induction m) auto

lemma sb_ok_flush:
  assumes "sb_ok n n reqs b" "0 < n"
  shows "sb_ok n (n - 1) reqs (flushLocked b)"
proof (cases "sb_requests b = []")
  case True
  with assms show ?thesis by (simp add: sb_ok_def flushLocked_def)
next
  case False
  have keys: "\<forall>(k, r)\<in>set (sb_requests b). k = sb_key r" using assms(1) by (auto simp: sb_ok_def)
  have "distinct (map sb_key (map snd (sb_requests b)))"
    using assms(1) unfolding sb_ok_def pending_keys [OF keys] by (simp add: wf_map_def)
  then have "batch_ok n reqs (map snd (sb_requests b))"
    using assms(1) False by (auto simp: batch_ok_def sb_ok_def)
  moreover have "accepted (flushLocked b) = accepted b" using False by (auto simp: accepted_def flushLocked_def)
  ultimately show ?thesis
    using assms False by (auto simp: sb_ok_def flushLocked_def)
qed

lemma covers_snoc:
  assumes "covers A reqs"
    and "\<And>r. r \<in> A \<Longrightarrow> \<exists>r'\<in>B. sb_key r' = sb_key r \<and> sr_Priority r \<le> sr_Priority r'"
    and "\<exists>r\<in>B. sb_key r = sb_key q \<and> sr_Priority q \<le> sr_Priority r"
  shows "covers B (reqs @ [q])"
  unfolding covers_def
proof
  fix req assume "req \<in> set (reqs @ [q])"
  then consider "req = q" | "req \<in> set reqs" by auto
  then show "\<exists>r\<in>B. sb_key r = sb_key req \<and> sr_Priority req \<le> sr_Priority r"
  proof cases
    case 2
    then obtain r where r: "r \<in> A" "sb_key r = sb_key req" "sr_Priority req \<le> sr_Priority r"
      using assms(1) unfolding covers_def by blast
    obtain r' where "r' \<in> B" "sb_key r' = sb_key r" "sr_Priority r \<le> sr_Priority r'" using assms(2) [OF r(1)] by blast
    with r show ?thesis by (auto intro!: bexI [of _ r'])
  qed (use assms(3) in simp)
qed

lemma batch_ok_mono: "batch_ok n reqs batch \<Longrightarrow> batch_ok n (reqs @ [q]) batch"
  by (auto simp: batch_ok_def)

text \<open>Putting a request into the map keeps a request of every key covered.\<close>

lemma covers_store:
  assumes "sb_ok n m reqs b" "map_of (sb_requests b) (sb_key q) = None \<or>
      (\<exists>r. map_of (sb_requests b) (sb_key q) = Some r \<and> sr_Priority r \<le> sr_Priority q)"
  shows "covers (accepted (b\<lparr>sb_requests := store (sb_key q) q (sb_requests b)\<rparr>)) (reqs @ [q])"
proof (rule covers_snoc [where A = "accepted b"])
  have wf: "wf_map (sb_requests b)" using assms(1) by (simp add: sb_ok_def)
  let ?B = "accepted (b\<lparr>sb_requests := store (sb_key q) q (sb_requests b)\<rparr>)"
  have q: "q \<in> ?B" using wf by (force simp: accepted_def set_store_wf)
  show "covers (accepted b) reqs" using assms(1) by (simp add: sb_ok_def)
  show "\<exists>r\<in>?B. sb_key r = sb_key q \<and> sr_Priority q \<le> sr_Priority r" using q by blast
  fix r assume r: "r \<in> accepted b"
  show "\<exists>r'\<in>?B. sb_key r' = sb_key r \<and> sr_Priority r \<le> sr_Priority r'"
  proof (cases "r \<in> ?B")
    case False
    then obtain k where k: "(k, r) \<in> set (sb_requests b)" "k = sb_key q"
      using r wf by (force simp: accepted_def set_store_wf)
    then have "map_of (sb_requests b) (sb_key q) = Some r" "sb_key r = sb_key q"
      using wf assms(1) by (auto simp: wf_map_in_set [symmetric] sb_ok_def)
    then have "sr_Priority r \<le> sr_Priority q" using assms(2) by auto
    then show ?thesis using q \<open>sb_key r = sb_key q\<close> by (auto intro!: bexI [of _ q])
  qed blast
qed

lemma sb_ok_add:
  assumes "sb_ok n (n - 1) reqs b" "0 < n"
  shows "sb_ok n (n - 1) (reqs @ [q]) (sb_Add q b)"
proof -
  let ?b = "b\<lparr>sb_requests := store (sb_key q) q (sb_requests b)\<rparr>"
  have stored: "sb_ok n (if map_of (sb_requests b) (sb_key q) = None then n else n - 1) (reqs @ [q]) ?b"
    if "map_of (sb_requests b) (sb_key q) = None \<or>
      (\<exists>r. map_of (sb_requests b) (sb_key q) = Some r \<and> sr_Priority r \<le> sr_Priority q)"
    using covers_store [OF assms(1) that] assms batch_ok_mono
    by (auto simp: sb_ok_def set_store_wf length_store)
  show ?thesis
  proof (cases "map_of (sb_requests b) (sb_key q)")
    case None
    then have ok: "sb_ok n n (reqs @ [q]) ?b" using stored by simp
    show ?thesis
    proof (cases "int (length (sb_requests ?b)) \<ge> sb_maxBatchSize ?b")
      case True
      then show ?thesis using sb_ok_flush [OF ok assms(2)] by (simp add: sb_Add_def None Let_def)
    next
      case False
      then show ?thesis using ok None by (auto simp: sb_Add_def Let_def sb_ok_def)
    qed
  next
    case (Some r)
    show ?thesis
    proof (cases "sr_Priority q > sr_Priority r")
      case True
      then show ?thesis using stored Some by (simp add: sb_Add_def)
    next
      case False
      have "r \<in> accepted b" "sb_key r = sb_key q"
        using map_of_SomeD [OF Some] assms(1) by (force simp: accepted_def, auto simp: sb_ok_def)
      then have "\<exists>r\<in>accepted b. sb_key r = sb_key q \<and> sr_Priority q \<le> sr_Priority r"
        using False by (intro bexI [of _ r]) auto
      then have "covers (accepted b) (reqs @ [q])"
        using assms(1) by (intro covers_snoc [where A = "accepted b"]) (auto simp: sb_ok_def)
      then show ?thesis using assms batch_ok_mono False Some by (auto simp: sb_Add_def sb_ok_def)
    qed
  qed
qed

text \<open>
  The batcher loses no request and keeps the batches small: after any sequence of requests every
  one of them has a request with its symbol and interval and at least its priority among those
  flushed or pending; a flushed batch is not empty, has at most the configured size and no symbol
  and interval twice, and fewer than that many requests are pending.
\<close>

theorem batcher_no_loss:
  assumes "0 < n"
  shows "let b = fold sb_Add reqs (NewSubscriptionBatcher (int n)) in
    (\<forall>req\<in>set reqs. \<exists>r\<in>set (concat (sb_flushed b)) \<union> snd ` set (sb_requests b).
       sr_Symbol r @ ''@'' @ sr_Interval r = sr_Symbol req @ ''@'' @ sr_Interval req \<and> sr_Priority req \<le> sr_Priority r) \<and>
    (\<forall>batch\<in>set (sb_flushed b). batch \<noteq> [] \<and> length batch \<le> n \<and>
       distinct (map (\<lambda>r. sr_Symbol r @ ''@'' @ sr_Interval r) batch) \<and> set batch \<subseteq> set reqs) \<and>
    length (sb_requests b) < n"
proof -
  have "sb_ok n (n - 1) reqs (fold sb_Add reqs (NewSubscriptionBatcher (int n)))"
  proof (induction reqs rule: rev_induct)
    case Nil
    then show ?case by (simp add: sb_ok_def NewSubscriptionBatcher_def covers_def)
  next
    case (snoc q reqs)
    then show ?case using sb_ok_add [OF snoc assms] by simp
  qed
  then show ?thesis
    using assms unfolding sb_ok_def batch_ok_def covers_def accepted_def sb_key_def Let_def by auto
qed

definition sample_request :: "string \<Rightarrow> int \<Rightarrow> subscription_request" where
  "sample_request sy p = \<lparr>sr_Exchange = ''OKX'', sr_Symbol = sy, sr_Interval = ''1m'', sr_Priority = p, sr_Callback = None\<rparr>"

theorem batcher_no_loss_witness:
  "let reqs = [sample_request ''BTCUSDT'' 1, sample_request ''BTCUSDT'' 2, sample_request ''ETHUSDT'' 1];
       b = fold sb_Add reqs (NewSubscriptionBatcher 2) in
    sb_flushed b = [[sample_request ''BTCUSDT'' 2, sample_request ''ETHUSDT'' 1]] \<and> length (sb_requests b) < 2"
proof -
  let ?reqs = "[sample_request ''BTCUSDT'' 1, sample_request ''BTCUSDT'' 2, sample_request ''ETHUSDT'' 1]"
  have "length (sb_requests (fold sb_Add ?reqs (NewSubscriptionBatcher (int 2)))) < 2"
    using batcher_no_loss [of 2 ?reqs, OF zero_less_numeral] unfolding Let_def by blast
  moreover have "sb_flushed (fold sb_Add ?reqs (NewSubscriptionBatcher 2)) =
      [[sample_request ''BTCUSDT'' 2, sample_request ''ETHUSDT'' 1]]"
    by code_simp
  ultimately show ?thesis by (simp add: Let_def)
qed

end
