(* ===== verification/Exchange_Handlers.thy ===== *)
theory Exchange_Handlers
  imports Intervals
begin

text \<open>
  \<open>exchange_handlers.go\<close>, \<open>exchange_helpers.go\<close> and the Binance handler of \<open>exchange_aggregator.go\<close>: for
  each exchange the interval tables, the subscription messages it is sent for the active streams,
  and the candles its messages are turned into.

  A message is modelled after \<open>json.Unmarshal\<close> into \<open>map[string]interface{}\<close>: \<open>None\<close> is an error,
  otherwise the members of the object, where the last of equal keys counts; a number is the value
  its \<open>float64\<close> has. For Binance the target is a struct, so the matching of members to fields is
  modelled too: the exact name first, else the name up to letter case, and a value of the wrong type
  makes \<open>Unmarshal\<close> return an error. \<open>lz\<close> is the offset of \<open>time.Local\<close>.
\<close>

datatype json = JNull | JBool bool | JNum rat | JStr string | JArr "json list" | JObj "(string \<times> json) list"

definition member :: "(string \<times> json) list \<Rightarrow> string \<Rightarrow> json option" where
  "member obj key = map_of (rev obj) key"

text \<open>The type assertions \<open>x, _ := v.(T)\<close>: the zero value when they fail.\<close>

definition get_string :: "json option \<Rightarrow> string" where
  "get_string v = (case v of Some (JStr s) \<Rightarrow> s | _ \<Rightarrow> '''')"

definition get_float :: "json option \<Rightarrow> rat" where
  "get_float v = (case v of Some (JNum x) \<Rightarrow> x | _ \<Rightarrow> 0)"

definition get_bool :: "json option \<Rightarrow> bool" where
  "get_bool v = (case v of Some (JBool b) \<Rightarrow> b | _ \<Rightarrow> False)"

definition trunc_rat :: "rat \<Rightarrow> int" where
  "trunc_rat x = (if x \<ge> 0 then \<lfloor>x\<rfloor> else - \<lfloor>- x\<rfloor>)"

section \<open>Interval tables\<close>

definition convertIntervalToKraken :: "string \<Rightarrow> int" where
  "convertIntervalToKraken interval =
     (if interval = ''1m'' then 1
      else if interval = ''5m'' then 5
      else if interval = ''15m'' then 15
      else if interval = ''30m'' then 30
      else if interval = ''1h'' then 60
      else if interval = ''4h'' then 240
      else if interval = ''1d'' then 1440
      else if interval = ''1w'' then 10080
      else 1)"

definition convertIntervalToCoinbase :: "string \<Rightarrow> string" where
  "convertIntervalToCoinbase interval =
     (if interval = ''1m'' then ''ONE_MINUTE''
      else if interval = ''5m'' then ''FIVE_MINUTE''
      else if interval = ''15m'' then ''FIFTEEN_MINUTE''
      else if interval = ''30m'' then ''THIRTY_MINUTE''
      else if interval = ''1h'' then ''ONE_HOUR''
      else if interval = ''2h'' then ''TWO_HOUR''
      else if interval = ''6h'' then ''SIX_HOUR''
      else if interval = ''1d'' then ''ONE_DAY''
      else ''ONE_MINUTE'')"

definition convertIntervalToBybit :: "string \<Rightarrow> string" where
  "convertIntervalToBybit interval =
     (if interval = ''1m'' then ''1''
      else if interval = ''3m'' then ''3''
      else if interval = ''5m'' then ''5''
      else if interval = ''15m'' then ''15''
      else if interval = ''30m'' then ''30''
      else if interval = ''1h'' then ''60''
      else if interval = ''2h'' then ''120''
      else if interval = ''4h'' then ''240''
      else if interval = ''6h'' then ''360''
      else if interval = ''1d'' then ''D''
      else if interval = ''1w'' then ''W''
      else if interval = ''1M'' then ''M''
      else ''1'')"

definition convertIntervalToOKX :: "string \<Rightarrow> string" where
  "convertIntervalToOKX interval =
     (if interval = ''1m'' then ''candle1m''
      else if interval = ''3m'' then ''candle3m''
      else if interval = ''5m'' then ''candle5m''
      else if interval = ''15m'' then ''candle15m''
      else if interval = ''30m'' then ''candle30m''
      else if interval = ''1h'' then ''candle1H''
      else if interval = ''2h'' then ''candle2H''
      else if interval = ''4h'' then ''candle4H''
      else if interval = ''6h'' then ''candle6H''
      else if interval = ''12h'' then ''candle12H''
      else if interval = ''1d'' then ''candle1D''
      else if interval = ''1w'' then ''candle1W''
      else if interval = ''1M'' then ''candle1M''
      else ''candle1m'')"

definition convertIntervalToGateIO :: "string \<Rightarrow> string" where
  "convertIntervalToGateIO interval =
     (if interval = ''1m'' then ''1m''
      else if interval = ''5m'' then ''5m''
      else if interval = ''15m'' then ''15m''
      else if interval = ''30m'' then ''30m''
      else if interval = ''1h'' then ''1h''
      else if interval = ''4h'' then ''4h''
      else if interval = ''8h'' then ''8h''
      else if interval = ''1d'' then ''1d''
      else if interval = ''1w'' then ''7d''
      else ''1m'')"

definition convertGateIOIntervalToStandard :: "string \<Rightarrow> string" where
  "convertGateIOIntervalToStandard gateInterval =
     (if gateInterval = ''1m'' then ''1m''
      else if gateInterval = ''5m'' then ''5m''
      else if gateInterval = ''15m'' then ''15m''
      else if gateInterval = ''30m'' then ''30m''
      else if gateInterval = ''1h'' then ''1h''
      else if gateInterval = ''4h'' then ''4h''
      else if gateInterval = ''8h'' then ''8h''
      else if gateInterval = ''1d'' then ''1d''
      else if gateInterval = ''7d'' then ''1w''
      else ''1m'')"

text \<open>The \<open>switch\<close> statements of the message handlers.\<close>

definition intervalFromKraken :: "int \<Rightarrow> string" where
  "intervalFromKraken n =
     (if n = 1 then ''1m'' else if n = 5 then ''5m'' else if n = 15 then ''15m''
      else if n = 30 then ''30m'' else if n = 60 then ''1h'' else if n = 240 then ''4h''
      else if n = 1440 then ''1d'' else ''1m'')"

definition intervalFromCoinbase :: "int \<Rightarrow> string" where
  "intervalFromCoinbase n =
     (if n = 60 then ''1m'' else if n = 300 then ''5m'' else if n = 900 then ''15m''
      else if n = 3600 then ''1h'' else if n = 21600 then ''6h'' else if n = 86400 then ''1d'' else ''1m'')"

definition intervalFromBybit :: "string \<Rightarrow> string" where
  "intervalFromBybit i =
     (if i = ''1'' then ''1m'' else if i = ''5'' then ''5m'' else if i = ''15'' then ''15m''
      else if i = ''30'' then ''30m'' else if i = ''60'' then ''1h'' else if i = ''240'' then ''4h''
      else if i = ''D'' then ''1d'' else if i = ''W'' then ''1w'' else ''1m'')"

definition intervalFromOKX :: "string \<Rightarrow> string" where
  "intervalFromOKX okxChannel =
     (if has_prefix okxChannel ''candle'' then
        (let i = trim_prefix okxChannel ''candle'' in
         if i = ''1m'' then ''1m'' else if i = ''5m'' then ''5m'' else if i = ''15m'' then ''15m''
         else if i = ''30m'' then ''30m'' else if i = ''1H'' then ''1h'' else if i = ''4H'' then ''4h''
         else if i = ''1D'' then ''1d'' else if i = ''1W'' then ''1w'' else ''1m'')
      else ''1m'')"

section \<open>Symbols\<close>

definition krakenPair :: "string \<Rightarrow> string" where
  "krakenPair symbol =
     (let s = replace_all symbol ''USDT'' ''USD'' in
      if length s > 3 then take (length s - 3) s @ ''/'' @ drop (length s - 3) s else s)"

definition krakenToSymbol :: "string \<Rightarrow> string" where
  "krakenToSymbol s = (let s = replace_all s ''/'' '''' in replace_all s ''USD'' ''USDT'')"

text \<open>Coinbase and OKX put a dash, Gate.io an underscore, before the last four characters.\<close>

definition pairWith :: "string \<Rightarrow> string \<Rightarrow> string" where
  "pairWith sep symbol =
     (if length symbol > 4 then take (length symbol - 4) symbol @ sep @ drop (length symbol - 4) symbol else symbol)"

section \<open>Candles from messages\<close>

definition exchange_candle ::
  "'d decimal_ops \<Rightarrow> gotime \<Rightarrow> string \<Rightarrow> string \<Rightarrow> gotime \<Rightarrow> string \<Rightarrow> string \<Rightarrow> string \<Rightarrow> string \<Rightarrow> string \<Rightarrow>
   string \<Rightarrow> bool \<Rightarrow> 'd candle" where
  "exchange_candle D now symbol interval openTime openStr highStr lowStr closeStr volumeStr source isClosed = \<lparr>
     c_Symbol = symbol, c_Interval = interval, c_OpenTime = openTime,
     c_CloseTime = t_Add openTime (agg_intervalToDuration interval),
     c_Open = d_NewFromString D openStr, c_High = d_NewFromString D highStr,
     c_Low = d_NewFromString D lowStr, c_Close = d_NewFromString D closeStr,
     c_Volume = d_NewFromString D volumeStr, c_QuoteVolume = d_Zero D, c_TradeCount = 0,
     c_Source = source, c_IsClosed = isClosed, c_ContractType = ''spot'',
     c_CreatedAt = now, c_UpdatedAt = now,
     c_TakerBuyBaseVolume = d_Zero D, c_TakerBuyQuoteVolume = d_Zero D\<rparr>"

definition krakenItem :: "'d decimal_ops \<Rightarrow> int \<Rightarrow> gotime \<Rightarrow> json \<Rightarrow> 'd candle list" where
  "krakenItem D lz now item =
     (case item of
        JObj ohlcData \<Rightarrow>
          (let symbol = krakenToSymbol (get_string (member ohlcData ''symbol''));
               interval = intervalFromKraken (trunc_rat (get_float (member ohlcData ''interval'')))
           in case member ohlcData ''ohlc'' of
                Some (JObj ohlc) \<Rightarrow>
                  (let openTime = time_Unix lz (trunc_rat (get_float (member ohlc ''time''))) 0 in
                   [exchange_candle D now symbol interval openTime (get_string (member ohlc ''open''))
                      (get_string (member ohlc ''high'')) (get_string (member ohlc ''low''))
                      (get_string (member ohlc ''close'')) (get_string (member ohlc ''volume'')) ''kraken'' False])
              | _ \<Rightarrow> [])
      | _ \<Rightarrow> [])"

definition processKrakenMessage ::
  "'d decimal_ops \<Rightarrow> int \<Rightarrow> gotime \<Rightarrow> (string \<times> json) list option \<Rightarrow> 'd candle list" where
  "processKrakenMessage D lz now message =
     (case message of
        None \<Rightarrow> []
      | Some msg \<Rightarrow>
          if member msg ''channel'' = Some (JStr ''ohlc'') then
            (case member msg ''data'' of
               Some (JArr dataArray) \<Rightarrow> concat (map (krakenItem D lz now) dataArray)
             | _ \<Rightarrow> [])
          else [])"

definition processCoinbaseMessage ::
  "'d decimal_ops \<Rightarrow> int \<Rightarrow> gotime \<Rightarrow> (string \<times> json) list option \<Rightarrow> 'd candle list" where
  "processCoinbaseMessage D lz now message =
     (case message of
        None \<Rightarrow> []
      | Some msg \<Rightarrow>
          if member msg ''type'' = Some (JStr ''candles'') then
            (case member msg ''product_id'' of
               Some (JStr productID) \<Rightarrow>
                 (let symbol = replace_all productID ''-'' '''' in
                  case member msg ''candles'' of
                    Some (JArr (JObj candleData # _)) \<Rightarrow>
                      (let interval = (case member msg ''granularity'' of
                             Some (JNum granularity) \<Rightarrow> intervalFromCoinbase (trunc_rat granularity)
                           | _ \<Rightarrow> ''1m'');
                           startInt = parse_int (get_string (member candleData ''start'')) 64;
                           openTime = time_Unix lz startInt 0
                       in [exchange_candle D now symbol interval openTime (get_string (member candleData ''open''))
                             (get_string (member candleData ''high'')) (get_string (member candleData ''low''))
                             (get_string (member candleData ''close'')) (get_string (member candleData ''volume''))
                             ''coinbase'' False])
                  | _ \<Rightarrow> [])
             | _ \<Rightarrow> [])
          else [])"

definition processBybitMessage ::
  "'d decimal_ops \<Rightarrow> int \<Rightarrow> gotime \<Rightarrow> (string \<times> json) list option \<Rightarrow> 'd candle list" where
  "processBybitMessage D lz now message =
     (case message of
        None \<Rightarrow> []
      | Some msg \<Rightarrow>
          (case member msg ''topic'' of
             Some (JStr topic) \<Rightarrow>
               if has_prefix topic ''kline.'' then
                 (case member msg ''data'' of
                    Some (JArr (JObj klineData # _)) \<Rightarrow>
                      (let parts = split topic ''.'';
                           (bybitInterval, symbol) = (if length parts \<ge> 3 then (parts ! 1, parts ! 2) else ('''', ''''));
                           interval = intervalFromBybit bybitInterval;
                           startMillis = get_float (member klineData ''start'');
                           openTime = time_Unix lz (trunc_rat startMillis sdiv 1000) 0;
                           confirm = get_bool (member klineData ''confirm'')
                       in [exchange_candle D now symbol interval openTime (get_string (member klineData ''open''))
                             (get_string (member klineData ''high'')) (get_string (member klineData ''low''))
                             (get_string (member klineData ''close'')) (get_string (member klineData ''volume''))
                             ''bybit'' confirm])
                  | _ \<Rightarrow> [])
               else []
           | _ \<Rightarrow> []))"

definition okxItem ::
  "'d decimal_ops \<Rightarrow> int \<Rightarrow> gotime \<Rightarrow> (string \<times> json) list \<Rightarrow> json \<Rightarrow> 'd candle list" where
  "okxItem D lz now msg item =
     (case item of
        JArr candleArray \<Rightarrow>
          if length candleArray \<ge> 7 then
            (let str = (\<lambda>i. get_string (Some (candleArray ! i)));
                 (symbol, okxChannel) = (case member msg ''arg'' of
                     Some (JObj arg) \<Rightarrow>
                       ((case member arg ''instId'' of Some (JStr instID) \<Rightarrow> replace_all instID ''-'' '''' | _ \<Rightarrow> ''''),
                        get_string (member arg ''channel''))
                   | _ \<Rightarrow> ('''', ''''));
                 interval = intervalFromOKX okxChannel;
                 timestampMillis = parse_int (str 0) 64;
                 openTime = time_Unix lz (timestampMillis sdiv 1000) 0
             in [exchange_candle D now symbol interval openTime (str 1) (str 2) (str 3) (str 4) (str 5) ''okx'' False])
          else []
      | _ \<Rightarrow> [])"

definition processOKXMessage ::
  "'d decimal_ops \<Rightarrow> int \<Rightarrow> gotime \<Rightarrow> (string \<times> json) list option \<Rightarrow> 'd candle list" where
  "processOKXMessage D lz now message =
     (case message of
        None \<Rightarrow> []
      | Some msg \<Rightarrow>
          (case member msg ''data'' of
             Some (JArr dataArray) \<Rightarrow> concat (map (okxItem D lz now msg) dataArray)
           | _ \<Rightarrow> []))"

definition processGateIOMessage ::
  "'d decimal_ops \<Rightarrow> int \<Rightarrow> gotime \<Rightarrow> (string \<times> json) list option \<Rightarrow> 'd candle list" where
  "processGateIOMessage D lz now message =
     (case message of
        None \<Rightarrow> []
      | Some msg \<Rightarrow>
          if member msg ''event'' = Some (JStr ''update'') then
            (case member msg ''result'' of
               Some (JObj result) \<Rightarrow>
                 (case member result ''n'' of
                    Some (JStr currencyPair) \<Rightarrow>
                      (case split2 currencyPair ''_'' of
                         [gateInterval, gatePair] \<Rightarrow>
                           (let interval = convertGateIOIntervalToStandard gateInterval;
                                symbol = replace_all gatePair ''_'' '''';
                                timestampInt = parse_int (get_string (member result ''t'')) 64;
                                openTime = time_Unix lz timestampInt 0;
                                windowClosed = get_bool (member result ''w'')
                            in [exchange_candle D now symbol interval openTime (get_string (member result ''o''))
                                  (get_string (member result ''h'')) (get_string (member result ''l''))
                                  (get_string (member result ''c'')) (get_string (member result ''v''))
                                  ''gateio'' windowClosed])
                       | _ \<Rightarrow> [])
                  | _ \<Rightarrow> [])
             | _ \<Rightarrow> [])
          else [])"

section \<open>Binance: decoding into a struct\<close>

datatype field_type = FStr | FInt | FBool | FStruct

definition field_for :: "(string \<times> field_type) list \<Rightarrow> string \<Rightarrow> (string \<times> field_type) option" where
  "field_for fs key =
     (case find (\<lambda>(f, _). f = key) fs of
        Some p \<Rightarrow> Some p
      | None \<Rightarrow> find (\<lambda>(f, _). to_lower f = to_lower key) fs)"

fun accepts :: "field_type \<Rightarrow> json \<Rightarrow> bool" where
  "accepts FStr (JStr _) = True"
| "accepts FInt (JNum x) = (x = of_int \<lfloor>x\<rfloor> \<and> - (2 ^ 63) \<le> \<lfloor>x\<rfloor> \<and> \<lfloor>x\<rfloor> < 2 ^ 63)"
| "accepts FBool (JBool _) = True"
| "accepts FStruct (JObj _) = True"
| "accepts _ _ = False"

text \<open>One member: the fields set so far and whether an error was saved. A repeated struct is decoded into.\<close>

definition decode_member ::
  "(string \<times> field_type) list \<Rightarrow> (string, json) gomap \<times> bool \<Rightarrow> string \<times> json \<Rightarrow> (string, json) gomap \<times> bool" where
  "decode_member fs st kv =
     (case st of (vals, err) \<Rightarrow>
      case field_for fs (fst kv) of
        None \<Rightarrow> (vals, err)
      | Some (f, ty) \<Rightarrow>
          if snd kv = JNull then (vals, err)
          else if accepts ty (snd kv) then
            (case (snd kv, map_of vals f) of
               (JObj new, Some (JObj old)) \<Rightarrow> (store f (JObj (old @ new)) vals, err)
             | _ \<Rightarrow> (store f (snd kv) vals, err))
          else (vals, True))"

definition decode_struct :: "(string \<times> field_type) list \<Rightarrow> (string \<times> json) list \<Rightarrow> (string, json) gomap \<times> bool" where
  "decode_struct fs obj = foldl (decode_member fs) ([], False) obj"

definition binance_fields :: "(string \<times> field_type) list" where
  "binance_fields = [(''e'', FStr), (''s'', FStr), (''k'', FStruct)]"

definition kline_fields :: "(string \<times> field_type) list" where
  "kline_fields = [(''t'', FInt), (''T'', FInt), (''s'', FStr), (''i'', FStr), (''o'', FStr), (''c'', FStr), (''h'', FStr),
     (''l'', FStr), (''v'', FStr), (''n'', FInt), (''x'', FBool), (''q'', FStr), (''V'', FStr), (''Q'', FStr)]"

text \<open>The decoded message, or \<open>None\<close> when \<open>Unmarshal\<close> returns an error.\<close>

definition unmarshal_binance ::
  "(string \<times> json) list option \<Rightarrow> ((string, json) gomap \<times> (string, json) gomap) option" where
  "unmarshal_binance message =
     (case message of
        None \<Rightarrow> None
      | Some msg \<Rightarrow>
          (let (outer, err) = decode_struct binance_fields msg;
               kobj = (case map_of outer ''k'' of Some (JObj o') \<Rightarrow> o' | _ \<Rightarrow> []);
               (kline, kerr) = decode_struct kline_fields kobj
           in if err \<or> kerr then None else Some (outer, kline)))"

definition binance_time :: "int \<Rightarrow> gotime" where
  "binance_time ms = t_UTC (time_Unix 0 (ms sdiv 1000) ((ms smod 1000) * 1000000))"

definition processBinanceMessage ::
  "'d decimal_ops \<Rightarrow> gotime \<Rightarrow> (string \<times> json) list option \<Rightarrow> 'd candle list" where
  "processBinanceMessage D now message =
     (case unmarshal_binance message of
        None \<Rightarrow> []
      | Some (outer, kline) \<Rightarrow>
          if get_string (map_of outer ''e'') \<noteq> ''kline'' then []
          else
            (let str = (\<lambda>f. get_string (map_of kline f)); int_of = (\<lambda>f. \<lfloor>get_float (map_of kline f)\<rfloor>)
             in [\<lparr>c_Symbol = get_string (map_of outer ''s''), c_Interval = str ''i'',
                  c_OpenTime = binance_time (int_of ''t''), c_CloseTime = binance_time (int_of ''T''),
                  c_Open = d_NewFromString D (str ''o''), c_High = d_NewFromString D (str ''h''),
                  c_Low = d_NewFromString D (str ''l''), c_Close = d_NewFromString D (str ''c''),
                  c_Volume = d_NewFromString D (str ''v''), c_QuoteVolume = d_NewFromString D (str ''q''),
                  c_TradeCount = int_of ''n'', c_Source = ''binance'', c_IsClosed = get_bool (map_of kline ''x''),
                  c_ContractType = ''spot'', c_CreatedAt = now, c_UpdatedAt = now,
                  c_TakerBuyBaseVolume = d_NewFromString D (str ''V''),
                  c_TakerBuyQuoteVolume = d_NewFromString D (str ''Q'')\<rparr>]))"

section \<open>Subscription messages\<close>

datatype sub_msg =
    BinanceSub "string list" int         \<comment> \<open>params, id\<close>
  | KrakenSub string int                 \<comment> \<open>symbol, interval\<close>
  | CoinbaseSub "string list" string     \<comment> \<open>product ids, interval of the candles channel\<close>
  | BybitSub "string list"               \<comment> \<open>args\<close>
  | OKXSub "(string \<times> string) list"      \<comment> \<open>channel and instrument of each argument\<close>
  | GateIOSub int string string          \<comment> \<open>time, interval, pair\<close>

text \<open>
  \<open>conn.WriteJSON\<close> in a loop that returns at the first error: the messages written and whether all
  were. \<open>write\<close> says which messages the connection takes.
\<close>

fun write_all :: "('m \<Rightarrow> bool) \<Rightarrow> 'm list \<Rightarrow> 'm list \<times> bool" where
  "write_all write [] = ([], True)"
| "write_all write (m # ms) =
     (if write m then (let (sent, ok) = write_all write ms in (m # sent, ok)) else ([], False))"

type_synonym streams = "(string, 32 word) gomap"

definition live_streams :: "streams \<Rightarrow> string list" where
  "live_streams active = map fst (filter (\<lambda>(_, refCount). 0 < sint refCount) active)"

text \<open>The symbol and interval of a stream key; \<open>None\<close> where the loop continues with the next.\<close>

definition stream_parts :: "string \<Rightarrow> (string \<times> string) option" where
  "stream_parts stream = (case split stream ''@'' of [p, i] \<Rightarrow> Some (p, i) | _ \<Rightarrow> None)"

definition subscribeBinance :: "(sub_msg \<Rightarrow> bool) \<Rightarrow> streams \<Rightarrow> sub_msg list \<times> bool" where
  "subscribeBinance write active =
     (let streams = concat (map (\<lambda>stream. case stream_parts stream of
            None \<Rightarrow> [] | Some (p, i) \<Rightarrow> [to_lower p @ ''@kline_'' @ i]) (live_streams active))
      in if length streams = 0 then ([], True)
         else write_all write
           (map (\<lambda>(i, batch). BinanceSub batch (int i + 1)) (enumerate 0 (batches 200 streams))))"

definition subscribeKraken :: "(sub_msg \<Rightarrow> bool) \<Rightarrow> streams \<Rightarrow> sub_msg list \<times> bool" where
  "subscribeKraken write active =
     (let streams = live_streams active in
      if length streams = 0 then ([], True)
      else write_all write (concat (map (\<lambda>streamKey. case stream_parts streamKey of
          None \<Rightarrow> []
        | Some (p, interval) \<Rightarrow> [KrakenSub (krakenPair (to_upper p)) (convertIntervalToKraken interval)]) streams)))"

definition subscribeCoinbase :: "(sub_msg \<Rightarrow> bool) \<Rightarrow> streams \<Rightarrow> sub_msg list \<times> bool" where
  "subscribeCoinbase write active =
     (let streams = live_streams active in
      if length streams = 0 then ([], True)
      else
        (let intervalGroups = foldl (\<lambda>g streamKey. case stream_parts streamKey of
               None \<Rightarrow> g
             | Some (p, interval) \<Rightarrow>
                 (let ci = convertIntervalToCoinbase interval; pair = pairWith ''-'' (to_upper p);
                      old = (case map_of g ci of None \<Rightarrow> [] | Some ps \<Rightarrow> ps)
                  in store ci (old @ [pair]) g)) ([] :: (string, string list) gomap) streams
         in write_all write (concat (map (\<lambda>(coinbaseInterval, products).
              map (\<lambda>batch. CoinbaseSub batch coinbaseInterval) (batches 50 products)) intervalGroups))))"

definition subscribeBybit :: "(sub_msg \<Rightarrow> bool) \<Rightarrow> streams \<Rightarrow> sub_msg list \<times> bool" where
  "subscribeBybit write active =
     (let streams = live_streams active in
      if length streams = 0 then ([], True)
      else
        (let args = concat (map (\<lambda>streamKey. case stream_parts streamKey of
               None \<Rightarrow> []
             | Some (p, interval) \<Rightarrow> [''kline.'' @ convertIntervalToBybit interval @ ''.'' @ to_upper p]) streams)
         in write_all write (map BybitSub (batches 10 args))))"

definition subscribeOKX :: "(sub_msg \<Rightarrow> bool) \<Rightarrow> streams \<Rightarrow> sub_msg list \<times> bool" where
  "subscribeOKX write active =
     (let streams = live_streams active in
      if length streams = 0 then ([], True)
      else
        (let args = concat (map (\<lambda>streamKey. case stream_parts streamKey of
               None \<Rightarrow> []
             | Some (p, interval) \<Rightarrow> [(convertIntervalToOKX interval, pairWith ''-'' (to_upper p))]) streams)
         in write_all write (map OKXSub (batches 20 args))))"

definition subscribeGateIO :: "gotime \<Rightarrow> (sub_msg \<Rightarrow> bool) \<Rightarrow> streams \<Rightarrow> sub_msg list \<times> bool" where
  "subscribeGateIO now write active =
     (let streams = live_streams active in
      if length streams = 0 then ([], True)
      else write_all write (concat (map (\<lambda>streamKey. case stream_parts streamKey of
          None \<Rightarrow> []
        | Some (p, interval) \<Rightarrow>
            [GateIOSub (t_Unix now) (convertIntervalToGateIO interval) (pairWith ''_'' (to_upper p))]) streams)))"

section \<open>Round trips\<close>

text \<open>
  What an interval becomes when it is sent to an exchange and the exchange's name for it is read
  back. For Gate.io every supported interval comes back; for the others the ones listed do, and
  the rest (a week on Kraken; 3m, 2h, 6h and a month on Bybit and OKX; 12h on OKX) come back as 1m.
\<close>

theorem interval_round_trips:
  "(intervalFromKraken (convertIntervalToKraken i) = i \<longleftrightarrow>
      i \<in> {''1m'', ''5m'', ''15m'', ''30m'', ''1h'', ''4h'', ''1d''}) \<and>
   (intervalFromBybit (convertIntervalToBybit i) = i \<longleftrightarrow>
      i \<in> {''1m'', ''5m'', ''15m'', ''30m'', ''1h'', ''4h'', ''1d'', ''1w''}) \<and>
   (intervalFromOKX (convertIntervalToOKX i) = i \<longleftrightarrow>
      i \<in> {''1m'', ''5m'', ''15m'', ''30m'', ''1h'', ''4h'', ''1d'', ''1w''}) \<and>
   (convertGateIOIntervalToStandard (convertIntervalToGateIO i) = i \<longleftrightarrow>
      i \<in> {''1m'', ''5m'', ''15m'', ''30m'', ''1h'', ''4h'', ''8h'', ''1d'', ''1w''})"
proof (intro conjI)
  show "intervalFromKraken (convertIntervalToKraken i) = i \<longleftrightarrow>
      i \<in> {''1m'', ''5m'', ''15m'', ''30m'', ''1h'', ''4h'', ''1d''}"
    by (simp add: convertIntervalToKraken_def intervalFromKraken_def)
  show "intervalFromBybit (convertIntervalToBybit i) = i \<longleftrightarrow>
      i \<in> {''1m'', ''5m'', ''15m'', ''30m'', ''1h'', ''4h'', ''1d'', ''1w''}"
    by (simp add: convertIntervalToBybit_def intervalFromBybit_def)
  show "intervalFromOKX (convertIntervalToOKX i) = i \<longleftrightarrow>
      i \<in> {''1m'', ''5m'', ''15m'', ''30m'', ''1h'', ''4h'', ''1d'', ''1w''}"
    by (simp add: convertIntervalToOKX_def intervalFromOKX_def has_prefix_def trim_prefix_def)
  show "convertGateIOIntervalToStandard (convertIntervalToGateIO i) = i \<longleftrightarrow>
      i \<in> {''1m'', ''5m'', ''15m'', ''30m'', ''1h'', ''4h'', ''8h'', ''1d'', ''1w''}"
    by (simp add: convertIntervalToGateIO_def convertGateIOIntervalToStandard_def)
qed

lemma has_prefix_append_short: "length p \<le> length s \<Longrightarrow> has_prefix (s @ t) p = has_prefix s p"
  by (simp add: has_prefix_def)

text \<open>A pattern none of whose proper prefixes is a suffix of it is found where it was appended.\<close>

lemma cut_at_end:
  assumes "\<not> contains base pat" "pat \<noteq> []"
    and "\<And>k. 0 < k \<Longrightarrow> k < length pat \<Longrightarrow> drop k pat \<noteq> take (length pat - k) pat"
  shows "cut_at pat (base @ pat) = Some (base, [])"
  using assms(1)
proof (induction base)
  case Nil
  show ?case using assms(2) by (cases pat) (simp_all add: has_prefix_def)
next
  case (Cons c base)
  have "\<not> has_prefix ((c # base) @ pat) pat"
  proof
    assume hp: "has_prefix ((c # base) @ pat) pat"
    show False
    proof (cases "length pat \<le> length (c # base)")
      case True
      then have "has_prefix (c # base) pat" using hp has_prefix_append_short by blast
      then show False using Cons.prems by (simp add: contains_Cons)
    next
      case False
      let ?k = "length (c # base)"
      have "take (length pat) ((c # base) @ pat) = pat" using hp by (simp add: has_prefix_def)
      then have "drop ?k pat = drop ?k (take (length pat) ((c # base) @ pat))" by (simp only:)
      also have "\<dots> = take (length pat - ?k) pat"
        by (simp only: drop_take append_eq_conv_conj [symmetric]) simp
      finally show False using assms(3) [of ?k] False by simp
    qed
  qed
  then show ?case using Cons by (simp add: contains_Cons)
qed

lemma replace_at_end:
  assumes "\<not> contains base pat" "pat \<noteq> []"
    and "\<And>k. 0 < k \<Longrightarrow> k < length pat \<Longrightarrow> drop k pat \<noteq> take (length pat - k) pat"
  shows "replace_all (base @ pat) pat new = base @ new"
  using cut_at_end [OF assms] split_no_sep [of "[]" pat] contains_Nil [OF assms(2)] assms(2)
  by (simp add: replace_all_def split.simps [of "base @ pat"])

lemma replace_single:
  assumes "c \<notin> set a" "c \<notin> set b"
  shows "replace_all (a @ c # b) [c] new = a @ new @ b"
proof -
  have "cut_at [c] (a @ c # b) = Some (a, b)"
    using assms(1) by (induction a) (auto simp: has_prefix_def)
  then show ?thesis
    using split_no_sep [of b "[c]"] assms(2) contains_single [of b c]
    by (simp add: replace_all_def split.simps [of "a @ c # b"])
qed

lemma USD_border: "0 < k \<Longrightarrow> k < length ''USD'' \<Longrightarrow> drop k ''USD'' \<noteq> take (length ''USD'' - k) ''USD''"
  and USDT_border: "0 < k \<Longrightarrow> k < length ''USDT'' \<Longrightarrow> drop k ''USDT'' \<noteq> take (length ''USDT'' - k) ''USDT''"
  by (auto simp: less_Suc_eq numeral_eq_Suc)

lemma has_prefix_append: "has_prefix s (p @ q) \<Longrightarrow> has_prefix s p"
proof -
  assume "has_prefix s (p @ q)"
  then obtain r where "s = p @ q @ r"
    unfolding has_prefix_def by (metis append_assoc append_take_drop_id)
  then show "has_prefix s p" by (simp add: has_prefix_def)
qed

lemma contains_prefix: "contains s (p @ q) \<Longrightarrow> contains s p"
proof (induction s)
  case (Cons c s)
  then show ?case using has_prefix_append [of "c # s" p q] by (auto simp: contains_Cons)
qed (simp add: contains_def split: if_splits)

text \<open>
  Kraken symbols. A symbol quoted in USDT whose base has no slash and does not contain USD survives
  the translation to Kraken's name and back. A base that contains USD does not: the candles of
  USDCUSDT come back under the name USDTCUSDT.
\<close>

theorem kraken_symbol_round_trip:
  assumes "base \<noteq> ''''" "\<not> contains base ''USD''" "CHR ''/'' \<notin> set base"
  shows "krakenPair (base @ ''USDT'') = base @ ''/USD'' \<and> krakenToSymbol (base @ ''/USD'') = base @ ''USDT'' \<and>
    krakenToSymbol (krakenPair ''USDCUSDT'') = ''USDTCUSDT''"
proof (intro conjI)
  have "\<not> contains base ''USDT''" using contains_prefix [of base "''USD''" "''T''"] assms(2) by auto
  then have "replace_all (base @ ''USDT'') ''USDT'' ''USD'' = base @ ''USD''"
    by (intro replace_at_end USDT_border) simp_all
  then show "krakenPair (base @ ''USDT'') = base @ ''/USD''"
    using assms(1) by (cases base) (simp_all add: krakenPair_def Let_def)
  have "replace_all (base @ ''/USD'') ''/'' '''' = base @ ''USD''"
    using replace_single [of "CHR ''/''" base "''USD''" "''''"] assms(3) by simp
  moreover have "replace_all (base @ ''USD'') ''USD'' ''USDT'' = base @ ''USDT''"
    using assms(2) by (intro replace_at_end USD_border) simp_all
  ultimately show "krakenToSymbol (base @ ''/USD'') = base @ ''USDT''"
    by (simp add: krakenToSymbol_def Let_def)
  show "krakenToSymbol (krakenPair ''USDCUSDT'') = ''USDTCUSDT''" by code_simp
qed

theorem kraken_symbol_round_trip_witness:
  "krakenPair ''BTCUSDT'' = ''BTC/USD'' \<and> krakenToSymbol ''BTC/USD'' = ''BTCUSDT''"
proof -
  have "\<not> contains ''BTC'' ''USD''" "CHR ''/'' \<notin> set ''BTC''" "''BTC'' \<noteq> ''''"
    by code_simp+
  then show ?thesis using kraken_symbol_round_trip [of "''BTC''"] by simp
qed

section \<open>Binance messages\<close>

lemma decode_error_sticky: "snd st \<Longrightarrow> snd (foldl (decode_member fs) st obj)"
proof (induction obj arbitrary: st)
  case (Cons kv obj)
  have "snd (decode_member fs st kv)"
    using Cons.prems by (auto simp: decode_member_def split: prod.splits option.splits json.splits if_splits)
  then show ?case using Cons.IH by simp
qed simp

lemma decode_error:
  assumes "(key, x) \<in> set obj" "field_for fs key = Some (f, ty)" "x \<noteq> JNull" "\<not> accepts ty x"
  shows "snd (decode_struct fs obj)"
proof -
  obtain before after where obj: "obj = before @ (key, x) # after"
    using split_list [OF assms(1)] by blast
  have "snd (decode_member fs st (key, x))" for st
    using assms(2-4) by (auto simp: decode_member_def split: prod.split)
  then show ?thesis unfolding decode_struct_def obj by (simp add: decode_error_sticky)
qed

lemma binance_field_for:
  "field_for binance_fields ''E'' = Some (''e'', FStr)" "field_for kline_fields ''L'' = Some (''l'', FStr)"
  "field_for binance_fields ''k'' = Some (''k'', FStruct)"
  by code_simp+

text \<open>The kline object, once decoded, only grows.\<close>

lemma decode_k_step:
  assumes "map_of (fst st) ''k'' = Some (JObj o')"
  shows "\<exists>more. map_of (fst (decode_member binance_fields st kv)) ''k'' = Some (JObj (o' @ more))"
proof -
  obtain vals err where st: "st = (vals, err)" by (cases st)
  show ?thesis
  proof (cases "field_for binance_fields (fst kv)")
    case None
    then show ?thesis using assms by (simp add: decode_member_def st)
  next
    case (Some p)
    obtain f ty where p: "p = (f, ty)" by (cases p)
    have fk: "f = ''k'' \<Longrightarrow> ty = FStruct"
      using Some p by (auto simp: field_for_def binance_fields_def split: if_splits option.splits)
    show ?thesis
      using assms Some p fk
      by (cases "snd kv"; cases "f = ''k''") (auto simp: decode_member_def st split: json.split option.split)
  qed
qed

lemma decode_k_rest:
  "map_of (fst st) ''k'' = Some (JObj o') \<Longrightarrow>
   \<exists>more. map_of (fst (foldl (decode_member binance_fields) st post)) ''k'' = Some (JObj (o' @ more))"
proof (induction post arbitrary: st o')
  case (Cons kv post)
  obtain m1 where "map_of (fst (decode_member binance_fields st kv)) ''k'' = Some (JObj (o' @ m1))"
    using decode_k_step [OF Cons.prems] by blast
  from Cons.IH [OF this] show ?case by (auto simp: append_assoc)
qed simp

lemma decode_k_now:
  "\<exists>old. map_of (fst (decode_member binance_fields st (''k'', JObj kline))) ''k'' = Some (JObj (old @ kline))"
  by (auto simp: decode_member_def binance_field_for split: prod.split option.split json.split)

text \<open>
  C23. Every Binance kline message that carries its event time (member \<open>E\<close>, a number) or the identifier
  of the last trade (member \<open>L\<close> of the kline, a number) is dropped: \<open>encoding/json\<close> matches these
  members to the string fields tagged \<open>e\<close> and \<open>l\<close>, because no field has their exact name, and
  returns an error.
\<close>

theorem binance_message_dropped:
  assumes "(''E'', JNum x) \<in> set msg \<or>
    (\<exists>kline. msg = pre @ (''k'', JObj kline) # post \<and> (''L'', JNum x) \<in> set kline)"
  shows "processBinanceMessage D now (Some msg) = []"
proof -
  have "unmarshal_binance (Some msg) = None"
    using assms
  proof (elim disjE exE conjE)
    assume "(''E'', JNum x) \<in> set msg"
    then have "snd (decode_struct binance_fields msg)" by (rule decode_error [OF _ binance_field_for(1)]) simp_all
    then show ?thesis by (simp add: unmarshal_binance_def case_prod_unfold Let_def)
  next
    fix kline assume msg: "msg = pre @ (''k'', JObj kline) # post" and L: "(''L'', JNum x) \<in> set kline"
    obtain obj where obj: "map_of (fst (decode_struct binance_fields msg)) ''k'' = Some (JObj obj)"
        "set kline \<subseteq> set obj"
      using decode_k_rest decode_k_now unfolding decode_struct_def msg foldl_append foldl_Cons
      by (metis Un_iff set_append subsetI)
    then have "snd (decode_struct kline_fields obj)"
      using L by (intro decode_error [OF _ binance_field_for(2)]) auto
    then show ?thesis using obj(1) by (simp add: unmarshal_binance_def case_prod_unfold Let_def)
  qed
  then show ?thesis by (simp add: processBinanceMessage_def)
qed

theorem binance_message_dropped_witness:
  "processBinanceMessage fd_ops zero_time (Some [(''e'', JStr ''kline''), (''E'', JNum 1700000000123), (''s'', JStr ''BTCUSDT''),
     (''k'', JObj [(''t'', JNum 1699999980000), (''o'', JStr ''36500.1'')])]) = []"
  by (rule binance_message_dropped [where x = 1700000000123]) simp

text \<open>
  A Binance kline message with exactly the members the program names becomes one candle: its
  prices, volumes and trade count are those of the message, it is closed when the message says so,
  and its open and close times are the message's milliseconds, kept to the millisecond, in UTC.
\<close>

theorem binance_message_decoded:
  assumes "0 \<le> t0" "t0 < 2 ^ 63" "0 \<le> t1" "t1 < 2 ^ 63" "0 \<le> n" "n < 2 ^ 63"
  shows "\<exists>c. processBinanceMessage D now (Some [(''e'', JStr ''kline''), (''s'', JStr symbol),
      (''k'', JObj [(''t'', JNum (of_int t0)), (''T'', JNum (of_int t1)), (''s'', JStr symbol), (''i'', JStr interval),
        (''o'', JStr po), (''c'', JStr pc), (''h'', JStr ph), (''l'', JStr pl), (''v'', JStr vol),
        (''n'', JNum (of_int n)), (''x'', JBool closed'), (''q'', JStr quote), (''V'', JStr tb), (''Q'', JStr tq)])]) = [c] \<and>
    c_Symbol c = symbol \<and> c_Interval c = interval \<and> t_UnixMilli (c_OpenTime c) = t0 \<and> t_UnixMilli (c_CloseTime c) = t1 \<and>
    t_ns (c_OpenTime c) = t0 * Millisecond \<and> t_off (c_OpenTime c) = 0 \<and>
    c_Open c = d_NewFromString D po \<and> c_High c = d_NewFromString D ph \<and> c_Low c = d_NewFromString D pl \<and>
    c_Close c = d_NewFromString D pc \<and> c_Volume c = d_NewFromString D vol \<and> c_QuoteVolume c = d_NewFromString D quote \<and> c_TradeCount c = n \<and>
    c_IsClosed c = closed' \<and> c_Source c = ''binance''"
proof -
  have time: "t_ns (binance_time ms) = ms * Millisecond \<and> t_off (binance_time ms) = 0" if "0 \<le> ms" for ms
  proof -
    define q r where "q = ms div 1000" and "r = ms mod 1000"
    have "ms = q * 1000 + r" by (simp add: q_def r_def)
    then have "q * Second + r * Millisecond = ms * Millisecond" by simp
    then show ?thesis
      using that by (simp add: binance_time_def time_Unix_def t_UTC_def sdiv_nonneg smod_nonneg q_def r_def)
  qed
  have milli: "t_UnixMilli (binance_time ms) = ms" if "0 \<le> ms" for ms
    using time [OF that] by (simp add: t_UnixMilli_def)
  show ?thesis
    using assms time milli
    by (simp add: processBinanceMessage_def unmarshal_binance_def decode_struct_def decode_member_def field_for_def
        binance_fields_def kline_fields_def get_string_def get_float_def get_bool_def Let_def)
qed

theorem binance_message_decoded_witness:
  "\<exists>c. processBinanceMessage fd_ops zero_time (Some [(''e'', JStr ''kline''), (''s'', JStr ''BTCUSDT''),
      (''k'', JObj [(''t'', JNum (of_int 1699999980000)), (''T'', JNum (of_int 1700000039999)), (''s'', JStr ''BTCUSDT''), (''i'', JStr ''1m''),
        (''o'', JStr ''36.5''), (''c'', JStr ''36.6''), (''h'', JStr ''36.7''), (''l'', JStr ''36.4''), (''v'', JStr ''12''),
        (''n'', JNum (of_int 7)), (''x'', JBool True), (''q'', JStr ''438''), (''V'', JStr ''6''), (''Q'', JStr ''219'')])]) = [c] \<and>
     t_UnixMilli (c_OpenTime c) = 1699999980000 \<and> c_TradeCount c = 7 \<and> c_Close c = fd_parse ''36.6''"
  using binance_message_decoded [of 1699999980000 1700000039999 7 fd_ops zero_time "''BTCUSDT''" "''1m''"
    "''36.5''" "''36.6''" "''36.7''" "''36.4''" "''12''" True "''438''" "''6''" "''219''"]
  by (auto simp: fd_ops_def)

section \<open>Every active stream is subscribed to\<close>

lemma write_all_takeWhile: "write_all write ms = (takeWhile write ms, list_all write ms)"
  by (induction ms) (auto simp: case_prod_unfold)

lemma write_all_ok [simp]: "write_all (\<lambda>_. True) ms = (ms, True)"
  by (simp add: write_all_takeWhile list_all_iff)

lemma to_lower_char_idem [simp]: "to_lower_char (to_lower_char c) = to_lower_char c"
  by (auto simp: to_lower_char_def Let_def)

lemma to_lower_idem [simp]: "to_lower (to_lower s) = to_lower s"
  by (simp add: to_lower_def)

lemma to_upper_lower_char: "to_upper_char (to_lower_char (to_upper_char c)) = to_upper_char c"
  by (auto simp: to_lower_char_def to_upper_char_def Let_def)

lemma to_upper_lower_upper [simp]: "to_upper (to_lower (to_upper s)) = to_upper s"
  by (simp add: to_upper_def to_lower_def to_upper_lower_char)

lemma at_char_case: "to_lower_char c = CHR ''@'' \<longleftrightarrow> c = CHR ''@''" "to_upper_char c = CHR ''@'' \<longleftrightarrow> c = CHR ''@''"
proof -
  have "(of_char c :: nat) = 64 \<longleftrightarrow> c = CHR ''@''" for c :: char
    using of_char_eq_iff [of c "CHR ''@''", where ?'a = nat] by simp
  moreover have "(of_char (to_lower_char c) :: nat) = 64 \<longleftrightarrow> (of_char c :: nat) = 64"
    "(of_char (to_upper_char c) :: nat) = 64 \<longleftrightarrow> (of_char c :: nat) = 64"
    by (auto simp: to_lower_char_def to_upper_char_def Let_def)
  ultimately show "to_lower_char c = CHR ''@'' \<longleftrightarrow> c = CHR ''@''" "to_upper_char c = CHR ''@'' \<longleftrightarrow> c = CHR ''@''"
    by blast+
qed

lemma at_lower: "CHR ''@'' \<in> set (to_lower s) \<longleftrightarrow> CHR ''@'' \<in> set s"
  unfolding to_lower_def by (metis (no_types, lifting) at_char_case(1) image_iff list.set_map)

text \<open>The key under which a symbol's one-minute stream is kept.\<close>

lemma stream_parts_key:
  assumes "CHR ''@'' \<notin> set symbol"
  shows "stream_parts (to_lower symbol @ ''@1m'') = Some (to_lower symbol, ''1m'')"
proof -
  have "cut_at ''@'' (a @ ''@1m'') = Some (a, ''1m'')" if "CHR ''@'' \<notin> set a" for a
    using that by (induction a) (auto simp: has_prefix_def)
  then have "cut_at ''@'' (to_lower symbol @ ''@1m'') = Some (to_lower symbol, ''1m'')"
    using assms by (simp add: at_lower)
  moreover have "split ''1m'' ''@'' = [''1m'']" by code_simp
  ultimately show ?thesis by (simp add: stream_parts_def split.simps [of "to_lower symbol @ ''@1m''"])
qed

definition stream_map :: "(string \<times> 32 word) list \<Rightarrow> streams" where
  "stream_map subs = map (\<lambda>(symbol, n). (to_lower symbol @ ''@1m'', n)) subs"

lemma live_stream_map:
  "\<forall>(symbol, n)\<in>set subs. 0 < sint n \<Longrightarrow> live_streams (stream_map subs) = map (\<lambda>(symbol, n). to_lower symbol @ ''@1m'') subs"
  by (induction subs) (auto simp: live_streams_def stream_map_def)

lemma map_streams:
  assumes "\<forall>(symbol, n)\<in>set subs. CHR ''@'' \<notin> set symbol"
  shows "concat (map (\<lambda>s. case stream_parts s of None \<Rightarrow> [] | Some (p, i) \<Rightarrow> [f p i]) (map (\<lambda>(symbol, n). to_lower symbol @ ''@1m'') subs)) =
    map (\<lambda>(symbol, n). f (to_lower symbol) ''1m'') subs"
  using assms by (induction subs) (auto simp: stream_parts_key)

primrec binance_params :: "sub_msg \<Rightarrow> string list" where
  "binance_params (BinanceSub ps _) = ps"
| "binance_params (KrakenSub _ _) = []"
| "binance_params (CoinbaseSub _ _) = []"
| "binance_params (BybitSub _) = []"
| "binance_params (OKXSub _) = []"
| "binance_params (GateIOSub _ _ _) = []"

primrec bybit_args :: "sub_msg \<Rightarrow> string list" where
  "bybit_args (BybitSub ps) = ps"
| "bybit_args (KrakenSub _ _) = []"
| "bybit_args (CoinbaseSub _ _) = []"
| "bybit_args (BinanceSub _ _) = []"
| "bybit_args (OKXSub _) = []"
| "bybit_args (GateIOSub _ _ _) = []"

primrec okx_args :: "sub_msg \<Rightarrow> (string \<times> string) list" where
  "okx_args (OKXSub ps) = ps"
| "okx_args (KrakenSub _ _) = []"
| "okx_args (CoinbaseSub _ _) = []"
| "okx_args (BinanceSub _ _) = []"
| "okx_args (BybitSub _) = []"
| "okx_args (GateIOSub _ _ _) = []"

lemma enumerate_batches: "map (\<lambda>(i, batch). binance_params (BinanceSub batch (int i + 1))) (enumerate k bs) = bs"
  by (induction bs arbitrary: k) auto

text \<open>The messages for the one-minute streams of a list of symbols.\<close>

lemma subscribe_messages:
  assumes "\<forall>(symbol, n)\<in>set subs. CHR ''@'' \<notin> set symbol \<and> 0 < sint n" "subs \<noteq> []"
  shows "map binance_params (fst (subscribeBinance (\<lambda>_. True) (stream_map subs))) =
      batches 200 (map (\<lambda>(s, n). to_lower s @ ''@kline_1m'') subs)"
    "fst (subscribeKraken (\<lambda>_. True) (stream_map subs)) = map (\<lambda>(s, n). KrakenSub (krakenPair (to_upper (to_lower s))) 1) subs"
    "subscribeBybit wr (stream_map subs) =
      write_all wr (map BybitSub (batches 10 (map (\<lambda>(s, n). ''kline.1.'' @ to_upper (to_lower s)) subs)))"
    "fst (subscribeOKX (\<lambda>_. True) (stream_map subs)) =
      map OKXSub (batches 20 (map (\<lambda>(s, n). (''candle1m'', pairWith ''-'' (to_upper (to_lower s)))) subs))"
    "fst (subscribeGateIO now (\<lambda>_. True) (stream_map subs)) =
      map (\<lambda>(s, n). GateIOSub (t_Unix now) ''1m'' (pairWith ''_'' (to_upper (to_lower s)))) subs"
proof -
  have live: "live_streams (stream_map subs) = map (\<lambda>(symbol, n). to_lower symbol @ ''@1m'') subs"
    using assms(1) by (intro live_stream_map) auto
  have at_free: "\<forall>(symbol, n)\<in>set subs. CHR ''@'' \<notin> set symbol" using assms(1) by auto
  note ms = map_streams [OF at_free]
  have "fst (subscribeBinance (\<lambda>_. True) (stream_map subs)) =
      map (\<lambda>(i, batch). BinanceSub batch (int i + 1)) (enumerate 0 (batches 200 (map (\<lambda>(s, n). to_lower s @ ''@kline_1m'') subs)))"
    using assms(2) ms [of "\<lambda>p i. to_lower p @ ''@kline_'' @ i"] by (simp add: subscribeBinance_def live Let_def)
  then show "map binance_params (fst (subscribeBinance (\<lambda>_. True) (stream_map subs))) =
      batches 200 (map (\<lambda>(s, n). to_lower s @ ''@kline_1m'') subs)"
    using enumerate_batches [of 0] by (simp add: comp_def case_prod_unfold)
  show "fst (subscribeKraken (\<lambda>_. True) (stream_map subs)) = map (\<lambda>(s, n). KrakenSub (krakenPair (to_upper (to_lower s))) 1) subs"
    using assms(2) ms [of "\<lambda>p i. KrakenSub (krakenPair (to_upper p)) (convertIntervalToKraken i)"]
    by (simp add: subscribeKraken_def live Let_def convertIntervalToKraken_def)
  show "subscribeBybit wr (stream_map subs) =
      write_all wr (map BybitSub (batches 10 (map (\<lambda>(s, n). ''kline.1.'' @ to_upper (to_lower s)) subs)))"
    using assms(2) ms [of "\<lambda>p i. ''kline.'' @ convertIntervalToBybit i @ ''.'' @ to_upper p"]
    by (simp add: subscribeBybit_def live Let_def convertIntervalToBybit_def)
  show "fst (subscribeOKX (\<lambda>_. True) (stream_map subs)) =
      map OKXSub (batches 20 (map (\<lambda>(s, n). (''candle1m'', pairWith ''-'' (to_upper (to_lower s)))) subs))"
    using assms(2) ms [of "\<lambda>p i. (convertIntervalToOKX i, pairWith ''-'' (to_upper p))"]
    by (simp add: subscribeOKX_def live Let_def convertIntervalToOKX_def)
  show "fst (subscribeGateIO now (\<lambda>_. True) (stream_map subs)) =
      map (\<lambda>(s, n). GateIOSub (t_Unix now) ''1m'' (pairWith ''_'' (to_upper (to_lower s)))) subs"
    using assms(2) ms [of "\<lambda>p i. GateIOSub (t_Unix now) (convertIntervalToGateIO i) (pairWith ''_'' (to_upper p))"]
    by (simp add: subscribeGateIO_def live Let_def convertIntervalToGateIO_def)
qed

lemma batches_length: "list_all (\<lambda>b. length b \<le> n) (batches n xs)"
  using batches_size [of _ n xs] by (auto simp: list_all_iff)



end
