(* ===== verification/Exchange_Aggregator.thy ===== *)
theory Exchange_Aggregator
  imports Realtime_Aggregator Rate_Limiter Exchange_Handlers Interfaces
begin

text \<open>
  \<open>internal/services/aggregator/exchange_aggregator.go\<close>: the component that keeps the exchange
  connections. Modelled are the reference-counted subscriptions, the circuit breaker, the connection
  attempt with its proxies and its rate limiter, the decisions of the connection manager, the batched
  subscriptions, the shared write batch, the fallback queries and start and stop.

  What the network does is an argument: \<open>dial\<close> says how dialling through a proxy ends, \<open>wr\<close> which
  messages a connection takes, \<open>bucket\<close> what the token bucket answers. Reference counts are
  \<open>int32\<close> values, the failure count is an \<open>int64\<close>.
\<close>

section \<open>Connections\<close>

record exchange =
  ex_Name :: string
  ex_WSUrl :: string
  ex_IsEnabled :: bool
  ex_conn :: bool                    \<comment> \<open>whether the connection is not nil\<close>
  ex_isHealthy :: bool
  ex_msgCount :: int
  ex_errorCount :: int
  ex_lastUpdate :: gotime
  ex_failureCount :: "64 word"
  ex_lastFailureTime :: gotime
  ex_backoffUntil :: gotime
  ex_isConnecting :: bool
  ex_isSubscribed :: bool
  ex_lastConnectTime :: gotime

definition new_exchange :: "gotime \<Rightarrow> string \<Rightarrow> string \<Rightarrow> bool \<Rightarrow> exchange" where
  "new_exchange now name url enabled = \<lparr>ex_Name = name, ex_WSUrl = url, ex_IsEnabled = enabled, ex_conn = False,
     ex_isHealthy = False, ex_msgCount = 0, ex_errorCount = 0, ex_lastUpdate = now, ex_failureCount = 0,
     ex_lastFailureTime = zero_time, ex_backoffUntil = zero_time, ex_isConnecting = False,
     ex_isSubscribed = False, ex_lastConnectTime = zero_time\<rparr>"

text \<open>The circuit breaker: \<open>time.Duration(n * n) * time.Second\<close>, at most a minute, in 64-bit arithmetic.\<close>

definition backoff_word :: "64 word \<Rightarrow> 64 word" where
  "backoff_word n =
     (let d = n * n * 1000000000 in if sint d > 60 * Second then 60 * 1000000000 else d)"

definition handleConnectionError :: "gotime \<Rightarrow> exchange \<Rightarrow> exchange" where
  "handleConnectionError now ex =
     (let ex = ex\<lparr>ex_isHealthy := False, ex_errorCount := ex_errorCount ex + 1,
            ex_failureCount := ex_failureCount ex + 1, ex_lastFailureTime := now\<rparr>;
          backoffDuration = sint (backoff_word (ex_failureCount ex))
      in ex\<lparr>ex_backoffUntil := t_Add now backoffDuration\<rparr>)"

datatype dial_result = Dialed | Forbidden | DialFailed

text \<open>The loop over the proxies, from index \<open>i\<close>; \<open>None\<close> is an error.\<close>

fun dial_loop :: "(string \<Rightarrow> dial_result) \<Rightarrow> nat \<Rightarrow> string list \<Rightarrow> string option" where
  "dial_loop dial i [] = None"
| "dial_loop dial i (proxyURL # rest) =
     (case dial proxyURL of
        Dialed \<Rightarrow> Some proxyURL
      | Forbidden \<Rightarrow> dial_loop dial (i + 1) rest
      | DialFailed \<Rightarrow> if i = 0 \<and> proxyURL = '''' then None else dial_loop dial (i + 1) rest)"

definition dialWithProxy :: "string list option \<Rightarrow> (string \<Rightarrow> dial_result) \<Rightarrow> string option" where
  "dialWithProxy service dial =
     (let proxies = (case service of None \<Rightarrow> [''''] | Some ps \<Rightarrow> ps) in dial_loop dial 0 proxies)"

definition subscribe_exchange ::
  "gotime \<Rightarrow> (sub_msg \<Rightarrow> bool) \<Rightarrow> streams \<Rightarrow> string \<Rightarrow> sub_msg list \<times> bool" where
  "subscribe_exchange now wr active name =
     (if name = ''Binance'' then subscribeBinance wr active
      else if name = ''Kraken'' then subscribeKraken wr active
      else if name = ''Coinbase'' then subscribeCoinbase wr active
      else if name = ''Bybit'' then subscribeBybit wr active
      else if name = ''OKX'' then subscribeOKX wr active
      else if name = ''Gate.io'' then subscribeGateIO now wr active
      else ([], True))"

record connect_env =
  ce_now :: gotime
  ce_proxies :: "string list option"
  ce_dial :: "string \<Rightarrow> dial_result"
  ce_tie :: bool
  ce_bucket :: bool
  ce_wr :: "sub_msg \<Rightarrow> bool"

record connect_result =
  cr_ok :: bool
  cr_ex :: exchange
  cr_mgr :: rate_limiter_manager
  cr_working :: "string option"       \<comment> \<open>the argument of \<open>SetWorkingProxy\<close>, when it is called\<close>
  cr_sent :: "sub_msg list"

definition connectExchange ::
  "connect_env \<Rightarrow> streams \<Rightarrow> exchange \<Rightarrow> rate_limiter_manager \<Rightarrow> connect_result" where
  "connectExchange e active ex mgr =
     (let done = (\<lambda>ok ex mgr used sent. \<lparr>cr_ok = ok, cr_ex = ex\<lparr>ex_isConnecting := False\<rparr>, cr_mgr = mgr,
                    cr_working = used, cr_sent = sent\<rparr>);
          ex = ex\<lparr>ex_isConnecting := True\<rparr>;
          ex = ex\<lparr>ex_conn := False\<rparr>
      in case dialWithProxy (ce_proxies e) (ce_dial e) of
           None \<Rightarrow> done False ex mgr None []
         | Some proxyUsed \<Rightarrow>
             (let used = (if proxyUsed \<noteq> '''' \<and> ce_proxies e \<noteq> None then Some proxyUsed else None);
                  ex = ex\<lparr>ex_conn := True, ex_isHealthy := True, ex_lastUpdate := ce_now e,
                         ex_lastConnectTime := ce_now e, ex_failureCount := 0, ex_isSubscribed := False\<rparr>
              in case GetLimiter (ex_Name ex) mgr of
                   None \<Rightarrow> done False ex mgr used []
                 | Some limiter \<Rightarrow>
                     if \<not> rl_Wait (10 * Second) (ce_tie e) (ce_bucket e) limiter then done False ex mgr used []
                     else
                       (let (sent, subOk) = subscribe_exchange (ce_now e) (ce_wr e) active (ex_Name ex) in
                        if \<not> subOk then
                          done False (ex\<lparr>ex_isHealthy := False\<rparr>)
                            (store (ex_Name ex) (RecordRateLimitHit (ce_now e) limiter) mgr) used sent
                        else
                          done True (ex\<lparr>ex_isSubscribed := True\<rparr>)
                            (store (ex_Name ex) (RecordSuccess (ce_now e) limiter) mgr) used sent)))"

section \<open>The connection manager\<close>

text \<open>What \<open>manageExchangeConnection\<close> does with a reconnect signal and with a tick of its timer.\<close>

definition connect_on_signal :: "gotime \<Rightarrow> exchange \<Rightarrow> bool" where
  "connect_on_signal now ex =
     (\<not> ex_isConnecting ex \<and> \<not> (ex_isHealthy ex \<and> t_Sub now (ex_lastConnectTime ex) < 5 * Second) \<and>
      \<not> t_Before now (ex_backoffUntil ex))"

definition connect_on_tick :: "gotime \<Rightarrow> exchange \<Rightarrow> bool" where
  "connect_on_tick now ex =
     (\<not> ex_isConnecting ex \<and> \<not> (ex_isHealthy ex \<and> t_Sub now (ex_lastUpdate ex) < 60 * Second) \<and>
      \<not> t_Before now (ex_backoffUntil ex))"

datatype manager_state = Idle | Listening | Returned

datatype manager_event =
    StopClosed
  | Signal connect_env
  | TickAt connect_env
  | ReadMessage gotime          \<comment> \<open>\<open>conn.ReadMessage\<close> returned a message\<close>
  | ReadError gotime

record manager =
  m_state :: manager_state
  m_ex :: exchange
  m_mgr :: rate_limiter_manager
  m_subscribed :: "sub_msg list"  \<comment> \<open>what the present connection was asked for\<close>

definition try_connect :: "connect_env \<Rightarrow> streams \<Rightarrow> manager \<Rightarrow> manager" where
  "try_connect e active m =
     (let r = connectExchange e active (m_ex m) (m_mgr m) in
      if cr_ok r then m\<lparr>m_state := Listening, m_ex := cr_ex r, m_mgr := cr_mgr r, m_subscribed := cr_sent r\<rparr>
      else m\<lparr>m_ex := handleConnectionError (ce_now e) (cr_ex r), m_mgr := cr_mgr r\<rparr>)"

text \<open>
  One turn of the manager goroutine. While it listens it is inside \<open>listenExchange\<close>, which reads the
  connection and the stop channel only; a reconnect signal stays in the channel.
\<close>

definition manager_step :: "streams \<Rightarrow> manager_event \<Rightarrow> manager \<Rightarrow> manager" where
  "manager_step active ev m =
     (case m_state m of
        Returned \<Rightarrow> m
      | Idle \<Rightarrow>
          (case ev of
             StopClosed \<Rightarrow> m\<lparr>m_state := Returned\<rparr>
           | Signal e \<Rightarrow> if connect_on_signal (ce_now e) (m_ex m) then try_connect e active m else m
           | TickAt e \<Rightarrow> if connect_on_tick (ce_now e) (m_ex m) then try_connect e active m else m
           | _ \<Rightarrow> m)
      | Listening \<Rightarrow>
          (case ev of
             StopClosed \<Rightarrow> m\<lparr>m_state := Returned\<rparr>
           | ReadMessage now \<Rightarrow>
               m\<lparr>m_ex := (m_ex m)\<lparr>ex_msgCount := ex_msgCount (m_ex m) + 1, ex_lastUpdate := now\<rparr>\<rparr>
           | ReadError now \<Rightarrow> m\<lparr>m_state := Idle, m_ex := handleConnectionError now (m_ex m)\<rparr>
           | _ \<Rightarrow> m))"

section \<open>Subscriptions\<close>

record 'd exchange_aggregator =
  ea_exchanges :: "exchange list"
  ea_activeStreams :: streams
  ea_subscriptions :: "(string, (string, 32 word) gomap) gomap"
  ea_aggregatedPrices :: "(string, (string, 'd) gomap) gomap"
  ea_pendingCandles :: "(string, (string, (int, (string, 'd candle) gomap) gomap) gomap) gomap"
  ea_currentBatch :: "'d candle list"
  ea_written :: "'d candle list list"  \<comment> \<open>batches given to \<open>candleSvc.BatchCreateCandles\<close>\<close>
  ea_reconnectChan :: nat
  ea_stopClosed :: bool
  ea_isRunning :: bool
  ea_rateLimitMgr :: rate_limiter_manager
  ea_realtime :: "'d realtime"

record exchange_config =
  EnableBinance :: bool
  EnableKraken :: bool
  EnableCoinbase :: bool
  EnableBybit :: bool
  EnableOKX :: bool
  EnableGateIO :: bool

definition reconnectCap :: nat where
  "reconnectCap = 10"

definition NewExchangeAggregator :: "gotime \<Rightarrow> exchange_config \<Rightarrow> 'd exchange_aggregator" where
  "NewExchangeAggregator now cfg = \<lparr>
     ea_exchanges =
       [new_exchange now ''Binance'' ''wss://stream.binance.com:443/stream'' (EnableBinance cfg),
        new_exchange now ''Kraken'' ''wss://ws.kraken.com/v2'' (EnableKraken cfg),
        new_exchange now ''Coinbase'' ''wss://ws-feed.exchange.coinbase.com'' (EnableCoinbase cfg),
        new_exchange now ''Bybit'' ''wss://stream.bybit.com/v5/public/spot'' (EnableBybit cfg),
        new_exchange now ''OKX'' ''wss://ws.okx.com:8443/ws/v5/public'' (EnableOKX cfg),
        new_exchange now ''Gate.io'' ''wss://api.gateio.ws/ws/v4/'' (EnableGateIO cfg)],
     ea_activeStreams = [], ea_subscriptions = [], ea_aggregatedPrices = [], ea_pendingCandles = [],
     ea_currentBatch = [], ea_written = [], ea_reconnectChan = 0, ea_stopClosed = False, ea_isRunning = False,
     ea_rateLimitMgr = RegisterExchange ''Gate.io'' (RegisterExchange ''OKX'' (RegisterExchange ''Bybit''
       (RegisterExchange ''Coinbase'' (RegisterExchange ''Kraken'' (RegisterExchange ''Binance'' NewRateLimiterManager))))),
     ea_realtime = SetCandleService NewRealtimeCandleAggregator\<rparr>"

definition ea_SetIntervalAggregator :: "'d exchange_aggregator \<Rightarrow> 'd exchange_aggregator" where
  "ea_SetIntervalAggregator a = a\<lparr>ea_realtime := SetIntervalAggregator (ea_realtime a)\<rparr>"

definition stream_key :: "string \<Rightarrow> string" where
  "stream_key symbol = to_lower symbol @ ''@1m''"

text \<open>One signal per exchange; a full channel drops it.\<close>

definition signal_all :: "'d exchange_aggregator \<Rightarrow> 'd exchange_aggregator" where
  "signal_all a = a\<lparr>ea_reconnectChan := min reconnectCap (ea_reconnectChan a + length (ea_exchanges a))\<rparr>"

definition SubscribeToInterval :: "string \<Rightarrow> string \<Rightarrow> 'd exchange_aggregator \<Rightarrow> 'd exchange_aggregator" where
  "SubscribeToInterval symbol interval a =
     (let symbol = to_upper symbol;
          streamKey = stream_key symbol;
          inner = (case map_of (ea_subscriptions a) symbol of None \<Rightarrow> [] | Some m \<Rightarrow> m);
          refCount = (case map_of inner interval of None \<Rightarrow> 0 | Some w \<Rightarrow> w) + 1;
          a = a\<lparr>ea_subscriptions := store symbol (store interval refCount inner) (ea_subscriptions a)\<rparr>
      in case map_of (ea_activeStreams a) streamKey of
           None \<Rightarrow> signal_all (a\<lparr>ea_activeStreams := store streamKey 1 (ea_activeStreams a)\<rparr>)
         | Some w \<Rightarrow> a\<lparr>ea_activeStreams := store streamKey (w + 1) (ea_activeStreams a)\<rparr>)"

definition UnsubscribeFromInterval :: "string \<Rightarrow> string \<Rightarrow> 'd exchange_aggregator \<Rightarrow> 'd exchange_aggregator" where
  "UnsubscribeFromInterval symbol interval a =
     (let symbol = to_upper symbol;
          streamKey = stream_key symbol;
          a = (case map_of (ea_subscriptions a) symbol of
                 None \<Rightarrow> a
               | Some inner \<Rightarrow>
                   (case map_of inner interval of
                      None \<Rightarrow> a
                    | Some w \<Rightarrow>
                        if sint w > 0 then
                          (let inner = store interval (w - 1) inner in
                           if w - 1 = 0 then
                             (let inner = remove interval inner in
                              if length inner = 0
                              then a\<lparr>ea_subscriptions := remove symbol (ea_subscriptions a)\<rparr>
                              else a\<lparr>ea_subscriptions := store symbol inner (ea_subscriptions a)\<rparr>)
                           else a\<lparr>ea_subscriptions := store symbol inner (ea_subscriptions a)\<rparr>)
                        else a))
      in case map_of (ea_activeStreams a) streamKey of
           None \<Rightarrow> a
         | Some w \<Rightarrow>
             (let n = w - 1 in
              if sint n \<le> 0 then a\<lparr>ea_activeStreams := remove streamKey (ea_activeStreams a)\<rparr>
              else a\<lparr>ea_activeStreams := store streamKey n (ea_activeStreams a)\<rparr>))"

definition SubscribeToSymbol :: "string \<Rightarrow> string \<Rightarrow> 'd exchange_aggregator \<Rightarrow> 'd exchange_aggregator" where
  "SubscribeToSymbol symbol interval a = SubscribeToInterval symbol interval a"

definition TriggerReconnectAll :: "'d exchange_aggregator \<Rightarrow> 'd exchange_aggregator" where
  "TriggerReconnectAll a = signal_all a"

section \<open>Messages\<close>

text \<open>The \<open>switch\<close> of \<open>listenExchange\<close>: each candle of the message goes to the real-time aggregator.\<close>

definition message_candles ::
  "'d decimal_ops \<Rightarrow> int \<Rightarrow> gotime \<Rightarrow> string \<Rightarrow> (string \<times> json) list option \<Rightarrow> 'd candle list" where
  "message_candles D lz now name message =
     (if name = ''Binance'' then processBinanceMessage D now message
      else if name = ''Kraken'' then processKrakenMessage D lz now message
      else if name = ''Coinbase'' then processCoinbaseMessage D lz now message
      else if name = ''Bybit'' then processBybitMessage D lz now message
      else if name = ''OKX'' then processOKXMessage D lz now message
      else if name = ''Gate.io'' then processGateIOMessage D lz now message
      else [])"

definition process_message ::
  "'d decimal_ops \<Rightarrow> int \<Rightarrow> gotime \<Rightarrow> string \<Rightarrow> (string \<times> json) list option \<Rightarrow>
   'd exchange_aggregator \<Rightarrow> 'd exchange_aggregator" where
  "process_message D lz now name message a =
     a\<lparr>ea_realtime := foldl (\<lambda>s c. ProcessCandleUpdate D now name c s) (ea_realtime a)
         (message_candles D lz now name message)\<rparr>"

section \<open>The write batch\<close>

definition flushBatch :: "'d exchange_aggregator \<Rightarrow> 'd exchange_aggregator" where
  "flushBatch a =
     (if length (ea_currentBatch a) = 0 then a
      else a\<lparr>ea_currentBatch := [], ea_written := ea_written a @ [ea_currentBatch a]\<rparr>)"

text \<open>
  The turns of the five \<open>batchWriterWorker\<close> goroutines on the shared state: a worker takes a candle
  from the channel and appends it, and then flushes when the batch has reached \<open>BatchWriteSize\<close>; the
  flush comes after the lock is released, so other workers may run in between.
\<close>

datatype worker_event = WReceive | WFlush

definition worker_step :: "worker_event \<Rightarrow> 'd exchange_aggregator \<Rightarrow> 'd exchange_aggregator" where
  "worker_step ev a =
     (case ev of
        WReceive \<Rightarrow>
          (case rt_batchChan (ea_realtime a) of
             [] \<Rightarrow> a
           | c # rest \<Rightarrow>
               a\<lparr>ea_currentBatch := ea_currentBatch a @ [c],
                 ea_realtime := (ea_realtime a)\<lparr>rt_batchChan := rest\<rparr>\<rparr>)
      | WFlush \<Rightarrow> flushBatch a)"

definition shouldFlush :: "int \<Rightarrow> 'd exchange_aggregator \<Rightarrow> bool" where
  "shouldFlush batchWriteSize a = (int (length (ea_currentBatch a)) \<ge> batchWriteSize)"

section \<open>Start and stop\<close>

definition ea_Start :: "'d exchange_aggregator \<Rightarrow> bool \<times> 'd exchange_aggregator" where
  "ea_Start a = (if ea_isRunning a then (False, a) else (True, a\<lparr>ea_isRunning := True\<rparr>))"

definition ea_Stop :: "'d decimal_ops \<Rightarrow> gotime \<Rightarrow> 'd exchange_aggregator \<Rightarrow> 'd exchange_aggregator outcome" where
  "ea_Stop D now a =
     (if \<not> ea_isRunning a then Inr a
      else if ea_stopClosed a then Inl CloseOfClosedChannel
      else
        (let a = a\<lparr>ea_stopClosed := True\<rparr>;
             a = a\<lparr>ea_realtime := rt_Stop D now (ea_realtime a)\<rparr>;
             a = flushBatch a
         in Inr (a\<lparr>ea_isRunning := False\<rparr>)))"

section \<open>Queries\<close>

definition ea_GetAggregatedPrice :: "'d decimal_ops \<Rightarrow> string \<Rightarrow> 'd exchange_aggregator \<Rightarrow> 'd \<times> int" where
  "ea_GetAggregatedPrice D symbol a =
     (let (price, n) = GetAggregatedPrice D symbol (ea_realtime a) in
      if n > 0 then (price, n)
      else
        (case map_of (ea_aggregatedPrices a) symbol of
           None \<Rightarrow> (d_Zero D, 0)
         | Some priceMap \<Rightarrow>
             (let (sum, n) = foldl (\<lambda>(sum, n) (_, p). (d_Add D sum p, n + 1)) (d_Zero D, 0 :: int) priceMap in
              if n = 0 then (d_Zero D, 0) else (d_Div D sum (d_NewFromInt D n), n))))"

record 'd merge_acc =
  ma_totalOpen :: 'd
  ma_totalClose :: 'd
  ma_totalVolume :: 'd
  ma_totalQuoteVolume :: 'd
  ma_maxHigh :: 'd
  ma_minLow :: 'd
  ma_totalTradeCount :: int
  ma_validCount :: int
  ma_firstCandle :: bool
  ma_openTime :: gotime
  ma_closeTime :: gotime

definition merge_start :: "'d decimal_ops \<Rightarrow> 'd merge_acc" where
  "merge_start D = \<lparr>ma_totalOpen = d_Zero D, ma_totalClose = d_Zero D, ma_totalVolume = d_Zero D,
     ma_totalQuoteVolume = d_Zero D, ma_maxHigh = d_Zero D, ma_minLow = d_Zero D, ma_totalTradeCount = 0,
     ma_validCount = 0, ma_firstCandle = True, ma_openTime = zero_time, ma_closeTime = zero_time\<rparr>"

definition merge_step :: "'d decimal_ops \<Rightarrow> 'd merge_acc \<Rightarrow> 'd candle \<Rightarrow> 'd merge_acc" where
  "merge_step D m c =
     (if d_IsZero D (c_Open c) \<and> d_IsZero D (c_Close c) then m
      else
        (let m = m\<lparr>ma_validCount := ma_validCount m + 1\<rparr>;
             m = (if ma_firstCandle m \<or> d_GreaterThan D (c_High c) (ma_maxHigh m) then m\<lparr>ma_maxHigh := c_High c\<rparr> else m);
             m = (if ma_firstCandle m \<or> d_LessThan D (c_Low c) (ma_minLow m) then m\<lparr>ma_minLow := c_Low c\<rparr> else m);
             m = m\<lparr>ma_totalOpen := d_Add D (ma_totalOpen m) (c_Open c),
                   ma_totalClose := d_Add D (ma_totalClose m) (c_Close c),
                   ma_totalVolume := d_Add D (ma_totalVolume m) (c_Volume c),
                   ma_totalQuoteVolume := d_Add D (ma_totalQuoteVolume m) (c_QuoteVolume c),
                   ma_totalTradeCount := ma_totalTradeCount m + c_TradeCount c\<rparr>
         in if ma_firstCandle m
            then m\<lparr>ma_closeTime := c_CloseTime c, ma_openTime := c_OpenTime c, ma_firstCandle := False\<rparr> else m))"

definition merged_candle ::
  "'d decimal_ops \<Rightarrow> gotime \<Rightarrow> string \<Rightarrow> string \<Rightarrow> 'd merge_acc \<Rightarrow> int \<Rightarrow> bool \<Rightarrow> 'd candle" where
  "merged_candle D now symbol interval m trades isClosed =
     (let n = d_NewFromInt D (ma_validCount m) in
      \<lparr>c_Symbol = symbol, c_Interval = interval, c_OpenTime = ma_openTime m, c_CloseTime = ma_closeTime m,
       c_Open = d_Div D (ma_totalOpen m) n, c_High = ma_maxHigh m, c_Low = ma_minLow m,
       c_Close = d_Div D (ma_totalClose m) n, c_Volume = ma_totalVolume m, c_QuoteVolume = ma_totalQuoteVolume m,
       c_TradeCount = trades, c_Source = ''aggregated'', c_IsClosed = isClosed, c_ContractType = ''spot'',
       c_CreatedAt = now, c_UpdatedAt = now,
       c_TakerBuyBaseVolume = d_Zero D, c_TakerBuyQuoteVolume = d_Zero D\<rparr>)"

definition aggregateCandles ::
  "'d decimal_ops \<Rightarrow> gotime \<Rightarrow> string \<Rightarrow> string \<Rightarrow> (string, 'd candle) gomap \<Rightarrow> 'd candle option" where
  "aggregateCandles D now symbol interval candles =
     (if candles = [] then None
      else
        (let m = foldl (merge_step D) (merge_start D) (map snd candles) in
         if ma_validCount m = 0 then None
         else
           (let allClosed = list_all c_IsClosed (map snd candles);
                isClosed = (allClosed \<and> ma_validCount m \<ge> 3)
            in Some (merged_candle D now symbol interval m (ma_totalTradeCount m) isClosed))))"

text \<open>
  The fallback of \<open>GetLatestInMemoryCandle\<close> to the deprecated pending candles: of the timestamps
  after 1970 the latest, merged like above except that one closed candle closes the result and the
  trade count is the number of exchanges.
\<close>

definition latest_pending :: "(int, (string, 'd candle) gomap) gomap \<Rightarrow> (string, 'd candle) gomap" where
  "latest_pending m = snd (foldl (\<lambda>(latestTimestamp, best) (timestamp, candles).
     if timestamp > latestTimestamp then (timestamp, candles) else (latestTimestamp, best)) (0, []) m)"

definition pendingCandle ::
  "'d decimal_ops \<Rightarrow> gotime \<Rightarrow> string \<Rightarrow> string \<Rightarrow> 'd exchange_aggregator \<Rightarrow> 'd candle option" where
  "pendingCandle D now symbol interval a =
     (case map_of (ea_pendingCandles a) symbol of
        None \<Rightarrow> None
      | Some byInterval \<Rightarrow>
          (case map_of byInterval interval of
             None \<Rightarrow> None
           | Some byTime \<Rightarrow>
               (let selectedCandles = latest_pending byTime in
                if selectedCandles = [] then None
                else
                  (let m = foldl (merge_step D) (merge_start D) (map snd selectedCandles) in
                   if ma_validCount m = 0 then None
                   else Some (merged_candle D now symbol interval m (ma_validCount m)
                          (list_ex c_IsClosed (map snd selectedCandles)))))))"

text \<open>\<open>ia\<close> is the interval aggregator, when it is connected.\<close>

definition GetLatestInMemoryCandle ::
  "'d decimal_ops \<Rightarrow> 'd get_candles \<Rightarrow> gotime \<Rightarrow> string \<Rightarrow> string \<Rightarrow> 'd interval_aggregator option \<Rightarrow>
   'd exchange_aggregator \<Rightarrow> 'd candle option \<times> 'd interval_aggregator option \<times> 'd exchange_aggregator" where
  "GetLatestInMemoryCandle D getc now symbol interval ia a =
     (let (found, ia, a) =
        (if interval = ''1m'' then
           (let (c, rt) = rt_GetLatestCandle (Some getc) now symbol interval (ea_realtime a)
            in (c, ia, a\<lparr>ea_realtime := rt\<rparr>))
         else
           (case ia of
              None \<Rightarrow> (None, ia, a)
            | Some i \<Rightarrow> (let (c, i) = ia_GetLatestCandle D getc now symbol interval i in (c, Some i, a))))
      in case found of
           Some c \<Rightarrow> (Some c, ia, a)
         | None \<Rightarrow> (pendingCandle D now symbol interval a, ia, a))"

section \<open>Batched subscriptions\<close>

record batch_env =
  be_now :: gotime
  be_tie :: "string \<Rightarrow> bool"
  be_wait :: "string \<Rightarrow> bool"        \<comment> \<open>the token bucket's answers to \<open>Wait\<close> and to \<open>Allow\<close>\<close>
  be_allow :: "string \<Rightarrow> bool"
  be_wr :: "sub_msg \<Rightarrow> bool"

definition group_requests :: "subscription_request list \<Rightarrow> (string, subscription_request list) gomap" where
  "group_requests reqs = foldl (\<lambda>g req.
     store (sr_Exchange req) ((case map_of g (sr_Exchange req) of None \<Rightarrow> [] | Some rs \<Rightarrow> rs) @ [req]) g) [] reqs"

definition subscribeWithLimiter ::
  "batch_env \<Rightarrow> streams \<Rightarrow> string \<Rightarrow> exchange_rate_limiter \<Rightarrow> sub_msg list \<times> bool" where
  "subscribeWithLimiter e active name limiter =
     (if name \<notin> set [''Binance'', ''Kraken'', ''Coinbase'', ''Bybit'', ''OKX'', ''Gate.io''] then ([], True)
      else if \<not> rl_Allow (be_now e) (be_allow e name) limiter then ([], False)
      else subscribe_exchange (be_now e) (be_wr e) active name)"

text \<open>One exchange of \<open>processBatchedSubscriptions\<close>: the manager and the callbacks called with success or failure.\<close>

definition process_exchange_requests ::
  "batch_env \<Rightarrow> 'd exchange_aggregator \<Rightarrow> string \<times> subscription_request list \<Rightarrow>
   rate_limiter_manager \<times> (nat \<times> bool) list \<Rightarrow> rate_limiter_manager \<times> (nat \<times> bool) list" where
  "process_exchange_requests e a g st =
     (case st of (mgr, calls) \<Rightarrow>
      case g of (exchange, exchangeReqs) \<Rightarrow>
      case GetLimiter exchange mgr of
        None \<Rightarrow> (mgr, calls)
      | Some limiter \<Rightarrow>
          if \<not> rl_Wait (10 * Second) (be_tie e exchange) (be_wait e exchange) limiter
          then (store exchange (RecordRateLimitHit (be_now e) limiter) mgr, calls)
          else
            (case find (\<lambda>ex. ex_Name ex = exchange) (ea_exchanges a) of
               None \<Rightarrow> (mgr, calls)
             | Some ex \<Rightarrow>
                 if \<not> ex_conn ex then (mgr, calls)
                 else
                   (let (sent, ok) = subscribeWithLimiter e (ea_activeStreams a) exchange limiter;
                        callbacks = concat (map (\<lambda>r. case sr_Callback r of None \<Rightarrow> [] | Some cb \<Rightarrow> [(cb, ok)]) exchangeReqs)
                    in if \<not> ok then (store exchange (RecordRateLimitHit (be_now e) limiter) mgr, calls @ callbacks)
                       else (store exchange (RecordSuccess (be_now e) limiter) mgr, calls @ callbacks))))"

definition processBatchedSubscriptions ::
  "batch_env \<Rightarrow> subscription_request list \<Rightarrow> 'd exchange_aggregator \<Rightarrow> 'd exchange_aggregator \<times> (nat \<times> bool) list" where
  "processBatchedSubscriptions e reqs a =
     (let (mgr, calls) = fold (process_exchange_requests e a) (group_requests reqs) (ea_rateLimitMgr a, [])
      in (a\<lparr>ea_rateLimitMgr := mgr\<rparr>, calls))"

section \<open>Statistics and direct subscribers\<close>

record exchange_stats =
  es_is_healthy :: bool
  es_msg_count :: int
  es_error_count :: int
  es_last_update :: gotime
  es_limiter :: "limiter_stats option"

definition GetExchangeStats :: "'d exchange_aggregator \<Rightarrow> (string, exchange_stats) gomap" where
  "GetExchangeStats a = foldl (\<lambda>stats ex. store (ex_Name ex)
     \<lparr>es_is_healthy = ex_isHealthy ex, es_msg_count = ex_msgCount ex, es_error_count = ex_errorCount ex,
      es_last_update = ex_lastUpdate ex, es_limiter = map_option rl_GetStats (GetLimiter (ex_Name ex) (ea_rateLimitMgr a))\<rparr>
     stats) [] (ea_exchanges a)"

definition ea_SubscribePrice :: "string \<Rightarrow> nat \<Rightarrow> 'd exchange_aggregator \<Rightarrow> 'd exchange_aggregator" where
  "ea_SubscribePrice symbol callback a = a\<lparr>ea_realtime := SubscribePrice symbol callback (ea_realtime a)\<rparr>"

definition ea_SubscribeCandle :: "string \<Rightarrow> string \<Rightarrow> nat \<Rightarrow> 'd exchange_aggregator \<Rightarrow> 'd exchange_aggregator" where
  "ea_SubscribeCandle symbol interval callback a =
     a\<lparr>ea_realtime := SubscribeCandle symbol interval callback (ea_realtime a)\<rparr>"

section \<open>Background goroutines\<close>

text \<open>
  \<open>sendPeriodicPing\<close> writes an OKX ping at every tick. A tick carries whether the connection is still
  there and whether the write succeeds; the goroutine returns when either is not so. The result is whether
  it returned and the messages it wrote.
\<close>

fun sendPeriodicPing :: "(bool \<times> bool) loop_event list \<Rightarrow> json list \<Rightarrow> bool \<times> json list" where
  "sendPeriodicPing [] sent = (False, sent)"
| "sendPeriodicPing (Stopped # evs) sent = (True, sent)"
| "sendPeriodicPing (Ticked (conn, ok) # evs) sent =
     (if \<not> conn then (True, sent)
      else if \<not> ok then (True, sent)
      else sendPeriodicPing evs (sent @ [JObj [(''op'', JStr ''ping'')]]))"

text \<open>What the two monitors log at their ticks: \<open>priceUpdateCount\<close>, which nothing increments, with the number of symbols; and the limiters' statistics.\<close>

definition monitorPriceAggregation :: "'d exchange_aggregator loop_event list \<Rightarrow> bool \<times> (int \<times> nat) list" where
  "monitorPriceAggregation evs = ticker_loop (\<lambda>a logged. logged @ [(0, length (ea_aggregatedPrices a))]) evs []"

definition monitorRateLimiters :: "'d exchange_aggregator loop_event list \<Rightarrow> bool \<times> (string \<times> limiter_stats) list" where
  "monitorRateLimiters evs = ticker_loop
     (\<lambda>a logged. logged @ concat (map (\<lambda>ex.
        if \<not> ex_IsEnabled ex then []
        else case GetLimiter (ex_Name ex) (ea_rateLimitMgr a) of None \<Rightarrow> [] | Some limiter \<Rightarrow> [(ex_Name ex, rl_GetStats limiter)])
        (ea_exchanges a))) evs []"

text \<open>Operations kept for compatibility, with empty bodies.\<close>

definition updateAggregatedPrice :: "string \<Rightarrow> string \<Rightarrow> 'd \<Rightarrow> 'd exchange_aggregator \<Rightarrow> 'd exchange_aggregator" where
  "updateAggregatedPrice symbol exchange price a = a"

definition addPendingCandle :: "string \<Rightarrow> string \<Rightarrow> string \<Rightarrow> 'd candle \<Rightarrow> 'd exchange_aggregator \<Rightarrow> 'd exchange_aggregator" where
  "addPendingCandle exchange symbol interval candle a = a"

definition aggregatePendingCandles :: "string \<Rightarrow> string \<Rightarrow> gotime \<Rightarrow> 'd exchange_aggregator \<Rightarrow> 'd exchange_aggregator" where
  "aggregatePendingCandles symbol interval openTime a = a"

text \<open>\<open>createDialerWithProxy\<close>; \<open>parse\<close> is \<open>url.Parse\<close>.\<close>

record 'u ws_dialer =
  wd_HandshakeTimeout :: int
  wd_InsecureSkipVerify :: bool
  wd_Proxy :: "'u option"

definition createDialerWithProxy :: "(string \<Rightarrow> 'u option) \<Rightarrow> string \<Rightarrow> 'u ws_dialer" where
  "createDialerWithProxy parse proxyURL =
     (let dialer = \<lparr>wd_HandshakeTimeout = 15 * Second, wd_InsecureSkipVerify = True, wd_Proxy = None\<rparr> in
      if proxyURL \<noteq> '''' then
        (case parse proxyURL of Some parsedURL \<Rightarrow> dialer\<lparr>wd_Proxy := Some parsedURL\<rparr> | None \<Rightarrow> dialer)
      else dialer)"

text \<open>The keep-alive writes one ping per tick and nothing after it returned.\<close>

lemma sendPeriodicPing_sent:
  "snd (sendPeriodicPing evs sent) =
   sent @ replicate (length (takeWhile (\<lambda>e. e = Ticked (True, True)) evs)) (JObj [(''op'', JStr ''ping'')])"
  by (induction evs sent rule: sendPeriodicPing.induct) auto

section \<open>Reference counts\<close>

text \<open>
  The specification: a multiset of held subscriptions. \<open>held\<close> counts a symbol and interval,
  \<open>stream_refs\<close> is the reference count of the symbol's stream.
\<close>

definition held :: "'d exchange_aggregator \<Rightarrow> string \<Rightarrow> string \<Rightarrow> int" where
  "held a symbol interval =
     (case map_of (ea_subscriptions a) symbol of
        None \<Rightarrow> 0 | Some m \<Rightarrow> (case map_of m interval of None \<Rightarrow> 0 | Some w \<Rightarrow> sint w))"

definition stream_refs :: "'d exchange_aggregator \<Rightarrow> string \<Rightarrow> int" where
  "stream_refs a symbol = (case map_of (ea_activeStreams a) (stream_key symbol) of None \<Rightarrow> 0 | Some w \<Rightarrow> sint w)"

definition inner_total :: "(string, 32 word) gomap \<Rightarrow> int" where
  "inner_total m = (\<Sum>(i, w)\<leftarrow>m. sint w)"

text \<open>
  Every count is positive, the count of a stream is the number of subscriptions of its symbol, and a
  stream is there exactly when its symbol has a subscription.
\<close>

definition refs_ok :: "'d exchange_aggregator \<Rightarrow> bool" where
  "refs_ok a \<longleftrightarrow> wf_map (ea_subscriptions a) \<and> wf_map (ea_activeStreams a) \<and>
     (\<forall>(S, m)\<in>set (ea_subscriptions a). to_upper S = S \<and> wf_map m \<and> m \<noteq> [] \<and> (\<forall>(i, w)\<in>set m. 0 < sint w)) \<and>
     (\<forall>S. to_upper S = S \<longrightarrow> stream_refs a S =
        (case map_of (ea_subscriptions a) S of None \<Rightarrow> 0 | Some m \<Rightarrow> inner_total m)) \<and>
     (\<forall>(k, w)\<in>set (ea_activeStreams a). 0 < sint w \<and> (\<exists>S. to_upper S = S \<and> k = stream_key S))"

lemma stream_key_inj: "to_upper S = S \<Longrightarrow> to_upper T = T \<Longrightarrow> stream_key S = stream_key T \<longleftrightarrow> S = T"
  using to_lower_upper_inj [of S T] by (auto simp: stream_key_def)

lemma inner_total_mset: "inner_total m = (\<Sum>(i, w)\<in>#mset m. sint w)"
  unfolding inner_total_def by (simp flip: sum_mset_sum_list)

lemma inner_total_store:
  assumes "wf_map m"
  shows "inner_total (store i w m) = inner_total m - (case map_of m i of None \<Rightarrow> 0 | Some x \<Rightarrow> sint x) + sint w"
proof (cases "map_of m i")
  case None
  then show ?thesis by (simp add: inner_total_mset mset_store_new)
next
  case (Some x)
  then have "(i, x) \<in># mset m" by (simp add: map_of_SomeD)
  then have "inner_total m = sint x + (\<Sum>(i, w)\<in>#mset m - {#(i, x)#}. sint w)"
    unfolding inner_total_mset by (metis (no_types, lifting) case_prod_conv image_mset_add_mset insert_DiffM sum_mset.add_mset)
  then show ?thesis by (simp add: inner_total_mset [of "store i w m"] mset_store_old [OF assms Some] Some)
qed

lemma inner_total_remove:
  assumes "wf_map m" "map_of m i = Some x"
  shows "inner_total (remove i m) = inner_total m - sint x"
proof -
  have "(i, x) \<in># mset m" using assms(2) by (simp add: map_of_SomeD)
  then have "inner_total m = sint x + (\<Sum>(i, w)\<in>#mset m - {#(i, x)#}. sint w)"
    unfolding inner_total_mset by (metis (no_types, lifting) case_prod_conv image_mset_add_mset insert_DiffM sum_mset.add_mset)
  then show ?thesis by (simp add: inner_total_mset [of "remove i m"] mset_remove_old [OF assms])
qed

lemma inner_total_Cons: "inner_total ((i, w) # m) = sint w + inner_total m"
  by (simp add: inner_total_def)

lemma inner_total_nonneg: "\<forall>(i, w)\<in>set m. 0 < sint (w :: 32 word) \<Longrightarrow> 0 \<le> inner_total m"
proof (induction m)
  case (Cons p m)
  then show ?case by (cases p) (auto simp: inner_total_Cons)
qed (simp add: inner_total_def)

lemma inner_total_ge: "\<forall>(i, w)\<in>set m. 0 < sint (w :: 32 word) \<Longrightarrow> (i, w) \<in> set m \<Longrightarrow> sint w \<le> inner_total m"
proof (induction m)
  case (Cons p m)
  then show ?case using inner_total_nonneg [of m] by (cases p) (auto simp: inner_total_Cons)
qed simp

lemma inner_total_pos: "\<forall>(i, w)\<in>set m. 0 < sint (w :: 32 word) \<Longrightarrow> m \<noteq> [] \<Longrightarrow> 0 < inner_total m"
  using inner_total_nonneg [of "tl m"] by (cases m) (auto simp: inner_total_Cons)

text \<open>Adding and subtracting one does not wrap around in the range of the counts.\<close>

lemma sint_inc: "0 \<le> sint w \<Longrightarrow> sint w < 2 ^ 31 - 1 \<Longrightarrow> sint (w + 1 :: 32 word) = sint w + 1"
  by (simp add: sint_word_ariths signed_take_bit_int_eq_self)

lemma sint_dec: "0 < sint w \<Longrightarrow> sint (w - 1 :: 32 word) = sint w - 1"
  using sint_lt [of w] by (simp add: sint_word_ariths signed_take_bit_int_eq_self)

lemma refs_okD:
  assumes "refs_ok a"
  shows "wf_map (ea_subscriptions a)" "wf_map (ea_activeStreams a)"
    "map_of (ea_subscriptions a) S = Some m \<Longrightarrow> to_upper S = S \<and> wf_map m \<and> m \<noteq> [] \<and> (\<forall>(i, w)\<in>set m. 0 < sint w)"
    "to_upper S = S \<Longrightarrow> stream_refs a S = (case map_of (ea_subscriptions a) S of None \<Rightarrow> 0 | Some m \<Rightarrow> inner_total m)"
    "map_of (ea_activeStreams a) k = Some w \<Longrightarrow> 0 < sint w"
  using assms unfolding refs_ok_def by (auto dest!: map_of_SomeD)

text \<open>The two maps after an update of one symbol keep the invariant when the new counts agree.\<close>

lemma refs_ok_change:
  assumes "refs_ok a" "to_upper S = S"
    and subs: "ea_subscriptions a' = (case m of None \<Rightarrow> remove S (ea_subscriptions a) | Some m \<Rightarrow> store S m (ea_subscriptions a))"
    and act: "ea_activeStreams a' = (case w of None \<Rightarrow> remove (stream_key S) (ea_activeStreams a)
        | Some w \<Rightarrow> store (stream_key S) w (ea_activeStreams a))"
    and m: "\<And>x. m = Some x \<Longrightarrow> wf_map x \<and> x \<noteq> [] \<and> (\<forall>(i, w)\<in>set x. 0 < sint w)"
    and w: "\<And>x. w = Some x \<Longrightarrow> 0 < sint x"
    and eq: "(case w of None \<Rightarrow> 0 | Some x \<Rightarrow> sint x) = (case m of None \<Rightarrow> 0 | Some x \<Rightarrow> inner_total x)"
  shows "refs_ok a'"
proof -
  have wf: "wf_map (ea_subscriptions a)" "wf_map (ea_activeStreams a)" using refs_okD [OF assms(1)] by blast+
  have refs: "stream_refs a' T = (if T = S then (case w of None \<Rightarrow> 0 | Some x \<Rightarrow> sint x) else stream_refs a T)"
    if "to_upper T = T" for T
    using that assms(2) stream_key_inj [of T S] stream_key_inj [of S T]
    by (auto simp: stream_refs_def act split: option.split)
  have "stream_refs a' T = (case map_of (ea_subscriptions a') T of None \<Rightarrow> 0 | Some m \<Rightarrow> inner_total m)" if "to_upper T = T" for T
    using refs [OF that] refs_okD(4) [OF assms(1) that] eq by (auto simp: subs split: option.split)
  moreover have "\<forall>(T, m)\<in>set (ea_subscriptions a'). to_upper T = T \<and> wf_map m \<and> m \<noteq> [] \<and> (\<forall>(i, w)\<in>set m. 0 < sint w)"
    using assms(1,2) m wf(1) unfolding refs_ok_def
    by (cases m) (auto simp: subs set_store_wf set_remove_wf)
  moreover have "\<forall>(k, w)\<in>set (ea_activeStreams a'). 0 < sint w \<and> (\<exists>S. to_upper S = S \<and> k = stream_key S)"
    using assms(1,2) w wf(2) unfolding refs_ok_def
    by (cases w) (auto simp: act set_store_wf set_remove_wf)
  ultimately show ?thesis
    using wf unfolding refs_ok_def by (auto simp: subs act split: option.split)
qed

definition inner_of :: "'d exchange_aggregator \<Rightarrow> string \<Rightarrow> (string, 32 word) gomap" where
  "inner_of a S = (case map_of (ea_subscriptions a) S of None \<Rightarrow> [] | Some m \<Rightarrow> m)"

definition count_of :: "(string, 32 word) gomap \<Rightarrow> string \<Rightarrow> 32 word" where
  "count_of m i = (case map_of m i of None \<Rightarrow> 0 | Some w \<Rightarrow> w)"

lemma Subscribe_sel:
  fixes symbol
  defines "S \<equiv> to_upper symbol"
  shows "ea_subscriptions (SubscribeToInterval symbol i a) =
      store S (store i (count_of (inner_of a S) i + 1) (inner_of a S)) (ea_subscriptions a)"
    "ea_activeStreams (SubscribeToInterval symbol i a) =
      store (stream_key S) (case map_of (ea_activeStreams a) (stream_key S) of None \<Rightarrow> 1 | Some w \<Rightarrow> w + 1) (ea_activeStreams a)"
  by (auto simp: SubscribeToInterval_def signal_all_def S_def inner_of_def count_of_def Let_def split: option.split)

lemma inner_of_ok:
  assumes "refs_ok a" "to_upper S = S"
  shows "wf_map (inner_of a S)" "\<forall>(i, w)\<in>set (inner_of a S). 0 < sint w" "inner_total (inner_of a S) = stream_refs a S"
    "held a S i = sint (count_of (inner_of a S) i)" "0 \<le> held a S i" "held a S i \<le> stream_refs a S"
proof -
  show wf: "wf_map (inner_of a S)" and pos: "\<forall>(i, w)\<in>set (inner_of a S). 0 < sint w"
    using refs_okD(3) [OF assms(1), of S] by (cases "map_of (ea_subscriptions a) S"; auto simp: inner_of_def)+
  show tot: "inner_total (inner_of a S) = stream_refs a S"
    using refs_okD(4) [OF assms] by (simp add: inner_of_def inner_total_def split: option.split)
  show h: "held a S i = sint (count_of (inner_of a S) i)"
    by (simp add: held_def count_of_def inner_of_def split: option.split)
  have "0 \<le> sint (count_of (inner_of a S) i) \<and> sint (count_of (inner_of a S) i) \<le> inner_total (inner_of a S)"
  proof (cases "map_of (inner_of a S) i")
    case None
    then show ?thesis using inner_total_nonneg [OF pos] by (simp add: count_of_def)
  next
    case (Some w)
    then have "(i, w) \<in> set (inner_of a S)" by (rule map_of_SomeD)
    then show ?thesis using pos inner_total_ge [OF pos, of i w] Some by (auto simp: count_of_def)
  qed
  then show "0 \<le> held a S i" "held a S i \<le> stream_refs a S" using h tot by simp_all
qed

lemma stream_word: "refs_ok a \<Longrightarrow> map_of (ea_activeStreams a) (stream_key S) = Some w \<Longrightarrow> sint w = stream_refs a S \<and> 0 < sint w"
  using refs_okD(5) [of a "stream_key S" w] by (simp add: stream_refs_def)

lemma Subscribe_refs:
  assumes "refs_ok a" "stream_refs a (to_upper symbol) < 2 ^ 31 - 1"
  shows "refs_ok (SubscribeToInterval symbol i a)"
    "held (SubscribeToInterval symbol i a) T j = held a T j + (if T = to_upper symbol \<and> j = i then 1 else 0)"
    "stream_refs (SubscribeToInterval symbol i a) (to_upper symbol) = stream_refs a (to_upper symbol) + 1"
proof -
  let ?S = "to_upper symbol" let ?m = "inner_of a ?S" let ?a = "SubscribeToInterval symbol i a"
  let ?m' = "store i (count_of ?m i + 1) ?m"
  let ?w = "case map_of (ea_activeStreams a) (stream_key ?S) of None \<Rightarrow> 1 | Some w \<Rightarrow> w + 1"
  have up: "to_upper ?S = ?S" by simp
  note m = inner_of_ok [OF assms(1) up]
  have cnt: "sint (count_of ?m i + 1) = sint (count_of ?m i) + 1"
    using m(4,5,6) [of i] assms(2) by (intro sint_inc) auto
  have w: "sint ?w = stream_refs a ?S + 1"
    using stream_word [OF assms(1), of ?S] assms(2) by (auto simp: stream_refs_def sint_inc split: option.split)
  have tot: "inner_total ?m' = inner_total ?m + 1"
    using inner_total_store [OF m(1), of i "count_of ?m i + 1"] cnt by (simp add: count_of_def split: option.split)
  have pos: "0 < sint (count_of ?m i + 1)" using cnt m(4,5) [of i] by simp
  show "refs_ok ?a"
    using m(1,2) pos w tot m(3) m(5,6) [of i]
    by (intro refs_ok_change [OF assms(1) up, where m = "Some ?m'" and w = "Some ?w"])
      (auto simp: Subscribe_sel set_store_wf)
  show "held ?a T j = held a T j + (if T = ?S \<and> j = i then 1 else 0)"
    using cnt by (auto simp: held_def Subscribe_sel inner_of_def count_of_def split: option.split)
  show "stream_refs ?a ?S = stream_refs a ?S + 1"
    using w by (simp add: stream_refs_def [of ?a] Subscribe_sel)
qed

lemma Unsubscribe_sel:
  fixes symbol
  defines "S \<equiv> to_upper symbol"
  assumes "map_of (ea_subscriptions a) S = Some m" "map_of m i = Some w" "0 < sint w"
    "map_of (ea_activeStreams a) (stream_key S) = Some n"
  shows "ea_subscriptions (UnsubscribeFromInterval symbol i a) =
      (if w - 1 = 0 then
         (if remove i m = [] then remove S (ea_subscriptions a) else store S (remove i m) (ea_subscriptions a))
       else store S (store i (w - 1) m) (ea_subscriptions a))"
    "ea_activeStreams (UnsubscribeFromInterval symbol i a) =
      (if sint (n - 1) \<le> 0 then remove (stream_key S) (ea_activeStreams a)
       else store (stream_key S) (n - 1) (ea_activeStreams a))"
  using assms by (simp_all add: UnsubscribeFromInterval_def Let_def)

lemma Unsubscribe_refs:
  assumes "refs_ok a" "0 < held a (to_upper symbol) i"
  shows "refs_ok (UnsubscribeFromInterval symbol i a)"
    "held (UnsubscribeFromInterval symbol i a) T j = held a T j - (if T = to_upper symbol \<and> j = i then 1 else 0)"
    "stream_refs (UnsubscribeFromInterval symbol i a) (to_upper symbol) = stream_refs a (to_upper symbol) - 1"
proof -
  let ?S = "to_upper symbol" let ?a = "UnsubscribeFromInterval symbol i a"
  have up: "to_upper ?S = ?S" by simp
  obtain m w where mw: "map_of (ea_subscriptions a) ?S = Some m" "map_of m i = Some w" "0 < sint w"
    using assms(2) by (auto simp: held_def split: option.splits)
  note m = refs_okD(3) [OF assms(1) mw(1)]
  have tot: "stream_refs a ?S = inner_total m" using refs_okD(4) [OF assms(1) up] mw(1) by simp
  have "sint w \<le> inner_total m" using m inner_total_ge [of m i w] map_of_SomeD [OF mw(2)] by blast
  then obtain n where n: "map_of (ea_activeStreams a) (stream_key ?S) = Some n" "sint n = inner_total m"
    using mw(3) tot by (auto simp: stream_refs_def split: option.splits)
  have dec: "sint (w - 1) = sint w - 1" "sint (n - 1) = inner_total m - 1"
    using mw(3) n(2) \<open>sint w \<le> inner_total m\<close> sint_dec [of w] sint_dec [of n] by simp_all
  have zero: "w - 1 = 0 \<longleftrightarrow> sint w = 1" using dec(1) by (metis diff_eq_eq add.left_neutral signed_eq_0_iff diff_self)
  let ?m = "if w - 1 = 0 then (if remove i m = [] then None else Some (remove i m)) else Some (store i (w - 1) m)"
  let ?n = "if sint (n - 1) \<le> 0 then None else Some (n - 1)"
  note sel = Unsubscribe_sel [OF mw n(1)]
  have newtot: "inner_total (if w - 1 = 0 then remove i m else store i (w - 1) m) = inner_total m - 1"
    using inner_total_remove [of m i w] inner_total_store [of m i "w - 1"] m mw(2) dec(1) zero by auto
  have ok: "wf_map x \<and> x \<noteq> [] \<and> (\<forall>(i, w)\<in>set x. 0 < sint w)" if "?m = Some x" for x
    using that m dec(1) zero mw(3) by (auto simp: set_store_wf set_remove_wf split: if_splits)
  have cnt: "(case ?n of None \<Rightarrow> 0 | Some x \<Rightarrow> sint x) = (case ?m of None \<Rightarrow> 0 | Some x \<Rightarrow> inner_total x)"
  proof (cases ?m)
    case None
    then have "w - 1 = 0" "remove i m = []" by (auto split: if_splits)
    then have "inner_total m - 1 = 0" using newtot by (simp add: inner_total_def)
    with None dec(2) show ?thesis by simp
  next
    case (Some x)
    then have "inner_total x = inner_total m - 1" using newtot by (auto split: if_splits)
    moreover have "0 < inner_total x" using ok [OF Some] by (intro inner_total_pos) auto
    ultimately show ?thesis using Some dec(2) by simp
  qed
  show "refs_ok ?a"
  proof (rule refs_ok_change [OF assms(1) up, where m = ?m and w = ?n])
    show "ea_subscriptions ?a = (case ?m of None \<Rightarrow> remove ?S (ea_subscriptions a) | Some m \<Rightarrow> store ?S m (ea_subscriptions a))"
      by (simp add: sel(1))
    show "ea_activeStreams ?a = (case ?n of None \<Rightarrow> remove (stream_key ?S) (ea_activeStreams a)
        | Some w \<Rightarrow> store (stream_key ?S) w (ea_activeStreams a))"
      by (simp add: sel(2))
    show "0 < sint x" if "?n = Some x" for x using that by (simp split: if_splits)
  qed (use ok cnt in blast)+
  have "held ?a T j = (if T = ?S then (case map_of (if w - 1 = 0 then remove i m else store i (w - 1) m) j of
      None \<Rightarrow> 0 | Some w \<Rightarrow> sint w) else held a T j)"
    by (cases "w - 1 = 0"; cases "remove i m = []") (simp_all add: held_def sel(1))
  then show "held ?a T j = held a T j - (if T = ?S \<and> j = i then 1 else 0)"
    using mw dec(1) zero by (simp add: held_def split: option.split)
  show "stream_refs ?a ?S = stream_refs a ?S - 1"
    using dec(2) n tot \<open>sint w \<le> inner_total m\<close> mw(3) by (auto simp: stream_refs_def [of ?a] sel)
qed

lemma Subscribe_other:
  assumes "to_upper T = T" "T \<noteq> to_upper symbol"
  shows "stream_refs (SubscribeToInterval symbol i a) T = stream_refs a T"
  using assms stream_key_inj [of "to_upper symbol" T] by (simp add: stream_refs_def Subscribe_sel)

lemma Unsubscribe_other:
  assumes "to_upper T = T" "T \<noteq> to_upper symbol"
  shows "stream_refs (UnsubscribeFromInterval symbol i a) T = stream_refs a T"
  using assms stream_key_inj [of "to_upper symbol" T]
  by (auto simp: stream_refs_def UnsubscribeFromInterval_def Let_def split: option.split)

datatype sub_op = Sub string string | Unsub string string

primrec run_sub :: "sub_op \<Rightarrow> 'd exchange_aggregator \<Rightarrow> 'd exchange_aggregator" where
  "run_sub (Sub symbol i) a = SubscribeToInterval symbol i a"
| "run_sub (Unsub symbol i) a = UnsubscribeFromInterval symbol i a"

text \<open>The specification of an operation on the multiset of held subscriptions; releasing one that is not held is refused.\<close>

primrec spec_sub :: "sub_op \<Rightarrow> (string \<times> string) multiset option \<Rightarrow> (string \<times> string) multiset option" where
  "spec_sub (Sub symbol i) M = map_option (add_mset (to_upper symbol, i)) M"
| "spec_sub (Unsub symbol i) M =
     (case M of None \<Rightarrow> None
      | Some M \<Rightarrow> if (to_upper symbol, i) \<in># M then Some (M - {#(to_upper symbol, i)#}) else None)"

definition sub_sim :: "'d exchange_aggregator \<Rightarrow> (string \<times> string) multiset \<Rightarrow> bool" where
  "sub_sim a M \<longleftrightarrow> refs_ok a \<and> (\<forall>S i. held a S i = int (count M (S, i))) \<and>
     (\<forall>S. to_upper S = S \<longrightarrow> stream_refs a S = int (size (filter_mset (\<lambda>p. fst p = S) M)))"

lemma sub_sim_Sub:
  assumes "sub_sim a M" "size M < 2 ^ 31 - 1"
  shows "sub_sim (SubscribeToInterval symbol i a) (add_mset (to_upper symbol, i) M)"
proof -
  have ok: "refs_ok a" using assms(1) by (simp add: sub_sim_def)
  have "size M < 2147483647" using assms(2) by simp
  then have "size (filter_mset (\<lambda>p. fst p = to_upper symbol) M) < 2147483647"
    by (rule le_less_trans [OF size_filter_mset_lesseq])
  then have lt: "stream_refs a (to_upper symbol) < 2 ^ 31 - 1" using assms(1) by (simp add: sub_sim_def)
  note s = Subscribe_refs [OF ok lt]
  show ?thesis
    using assms(1) s unfolding sub_sim_def by (auto simp: Subscribe_other)
qed

lemma sub_sim_Unsub:
  assumes "sub_sim a M" "(to_upper symbol, i) \<in># M"
  shows "sub_sim (UnsubscribeFromInterval symbol i a) (M - {#(to_upper symbol, i)#})"
proof -
  have ok: "refs_ok a" using assms(1) by (simp add: sub_sim_def)
  have "0 < held a (to_upper symbol) i" using assms by (simp add: sub_sim_def)
  note u = Unsubscribe_refs [OF ok this]
  have in_filter: "(to_upper symbol, i) \<in># filter_mset (\<lambda>p. fst p = to_upper symbol) M" using assms(2) by simp
  have sz: "size (filter_mset (\<lambda>p. fst p = S) (M - {#(to_upper symbol, i)#})) =
      (if S = to_upper symbol then size (filter_mset (\<lambda>p. fst p = S) M) - 1 else size (filter_mset (\<lambda>p. fst p = S) M))" for S
    using in_filter by (auto simp: size_Diff_singleton)
  have "0 < size (filter_mset (\<lambda>p. fst p = to_upper symbol) M)" using in_filter by (metis nonempty_has_size emptyE set_mset_empty)
  moreover have "int (count (M - {#(to_upper symbol, i)#}) (S, j)) =
      int (count M (S, j)) - (if S = to_upper symbol \<and> j = i then 1 else 0)" for S j
    using assms(2) by (auto simp: Suc_le_eq)
  ultimately show ?thesis
    using assms(1) u unfolding sub_sim_def sz by (auto simp: Unsubscribe_other of_nat_diff)
qed

interpretation subs: subscription_interface SubscribeToInterval UnsubscribeFromInterval to_upper sub_sim "2 ^ 31 - 1"
  by unfold_locales (simp_all add: sub_sim_Sub sub_sim_Unsub)

lemma spec_sub_None [simp]: "spec_sub op None = None" "fold spec_sub ops None = None"
proof -
  show *: "spec_sub op None = None" for op by (cases op) simp_all
  show "fold spec_sub ops None = None" by (induction ops) (simp_all add: *)
qed

lemma sub_sim_run:
  assumes "sub_sim a M0" "fold spec_sub ops (Some M0) = Some M" "size M0 + length ops < 2 ^ 31 - 1"
  shows "sub_sim (fold run_sub ops a) M"
  using assms
proof (induction ops arbitrary: a M0)
  case (Cons op ops)
  show ?case
  proof (cases op)
    case (Sub symbol i)
    then show ?thesis
      using Cons.prems by (auto intro!: Cons.IH sub_sim_Sub)
  next
    case (Unsub symbol i)
    then have mem: "(to_upper symbol, i) \<in># M0" using Cons.prems(2) by (auto split: if_splits)
    then have "size (M0 - {#(to_upper symbol, i)#}) + length ops < 2 ^ 31 - 1"
      using Cons.prems(3) by (simp add: size_Diff_singleton)
    then show ?thesis
      using Cons.prems(1,2) Unsub mem sub_sim_Unsub by (auto intro!: Cons.IH)
  qed
qed simp

lemma sub_sim_New: "sub_sim (NewExchangeAggregator now cfg) {#}"
  by (simp add: sub_sim_def refs_ok_def NewExchangeAggregator_def held_def stream_refs_def)

text \<open>
  C5. Reference counting. Run any sequence of fewer than two thousand million subscribe and
  unsubscribe calls in which only held subscriptions are released, in any letter case, on a new
  aggregator. Then the count of each symbol and interval is the number of times it is held, the
  reference count of a symbol's one-minute stream is the number of subscriptions of that symbol over
  all intervals, and the stream is active exactly as long as that number is positive.
\<close>

theorem subscriptions_refine_multiset:
  assumes "fold spec_sub ops (Some {#}) = Some M" "length ops < 2 ^ 31 - 1"
  shows "let a = fold run_sub ops (NewExchangeAggregator now cfg :: 'd exchange_aggregator) in
    (\<forall>S i. held a S i = int (count M (S, i))) \<and>
    (\<forall>symbol. stream_refs a (to_upper symbol) = int (size (filter_mset (\<lambda>p. fst p = to_upper symbol) M)) \<and>
       (map_of (ea_activeStreams a) (to_lower (to_upper symbol) @ ''@1m'') \<noteq> None \<longleftrightarrow>
        (\<exists>i. (to_upper symbol, i) \<in># M)))"
proof -
  let ?a = "fold run_sub ops (NewExchangeAggregator now cfg) :: 'd exchange_aggregator"
  have sim: "sub_sim ?a M" using sub_sim_run [OF sub_sim_New assms(1)] assms(2) by simp
  have "map_of (ea_activeStreams ?a) (stream_key S) \<noteq> None \<longleftrightarrow> stream_refs ?a S > 0" for S
  proof (cases "map_of (ea_activeStreams ?a) (stream_key S)")
    case (Some w)
    moreover have "0 < stream_refs ?a S"
      using sim stream_word [of ?a S w, OF _ Some] by (simp add: sub_sim_def)
    ultimately show ?thesis by simp
  qed (simp add: stream_refs_def)
  moreover have "0 < size (filter_mset (\<lambda>p. fst p = S) M) \<longleftrightarrow> (\<exists>i. (S, i) \<in># M)" for S
  proof -
    have "0 < size (filter_mset (\<lambda>p. fst p = S) M) \<longleftrightarrow> (\<exists>p. p \<in># filter_mset (\<lambda>p. fst p = S) M)"
      by (simp flip: nonempty_has_size add: multiset_nonemptyE ex_in_conv [symmetric] set_mset_eq_empty_iff [symmetric] del: set_mset_eq_empty_iff)
    then show ?thesis by auto
  qed
  moreover have "to_upper (to_upper s) = to_upper s" for s by simp
  ultimately show ?thesis
    using sim unfolding sub_sim_def Let_def stream_key_def by (metis of_nat_0_less_iff)
qed

theorem subscriptions_refine_multiset_witness:
  "let a = fold run_sub [Sub ''btcusdt'' ''1m'', Sub ''BTCUSDT'' ''1h'', Unsub ''BtcUsdt'' ''1m'']
       (NewExchangeAggregator zero_time
         \<lparr>EnableBinance = True, EnableKraken = True, EnableCoinbase = True, EnableBybit = True,
          EnableOKX = True, EnableGateIO = True\<rparr> :: int exchange_aggregator) in
    held a ''BTCUSDT'' ''1m'' = 0 \<and> held a ''BTCUSDT'' ''1h'' = 1 \<and> stream_refs a (to_upper ''btcusdt'') = 1 \<and>
    map_of (ea_activeStreams a) (to_lower (to_upper ''btcusdt'') @ ''@1m'') \<noteq> None"
proof -
  have up: "to_upper ''btcusdt'' = ''BTCUSDT''" "to_upper ''BTCUSDT'' = ''BTCUSDT''" "to_upper ''BtcUsdt'' = ''BTCUSDT''"
    by code_simp+
  have "fold spec_sub [Sub ''btcusdt'' ''1m'', Sub ''BTCUSDT'' ''1h'', Unsub ''BtcUsdt'' ''1m''] (Some {#}) =
      Some {#(''BTCUSDT'', ''1h'')#}"
    by (simp add: up)
  note facts = subscriptions_refine_multiset [OF this, where 'd = int and now = zero_time and
      cfg = "\<lparr>EnableBinance = True, EnableKraken = True, EnableCoinbase = True, EnableBybit = True,
          EnableOKX = True, EnableGateIO = True\<rparr>", unfolded Let_def]
  have "length [Sub ''btcusdt'' ''1m'', Sub ''BTCUSDT'' ''1h'', Unsub ''BtcUsdt'' ''1m''] < 2 ^ 31 - 1" by simp
  note facts = facts [OF this]
  note counts = conjunct1 [OF facts, rule_format] and refs = spec [OF conjunct2 [OF facts], of "''btcusdt''"]
  show ?thesis
    unfolding Let_def counts conjunct1 [OF refs] conjunct2 [OF refs] by (simp add: up)
qed

end
