(* ===== verification/Mark_Price.thy ===== *)
theory Mark_Price
  imports Candle_Service Exchange_Aggregator
begin

text \<open>
  \<open>internal/services/markprice/markprice_service.go\<close>: the mark price of a symbol from the aggregated spot
  price and a moving average of the funding basis, its cache and its publication. The aggregated
  price is an argument of the calculation and is supplied by the exchange aggregator; a call is one step,
  and goroutines that update the same symbol only ever store a basis of the same value.
\<close>

section \<open>The service\<close>

record mark_config =
  mc_EMAPeriod :: "64 word"                     \<comment> \<open>\<open>config.MarkPrice.EMAPeriod\<close>, an \<open>int\<close>\<close>
  mc_MarkPriceTTL :: int

record ('d, 'r) mark_service =
  ms_cache :: 'r
  ms_published :: "'d redis_msg list"
  ms_fundingBasisEMA :: "(string, 'd) gomap"

definition NewMarkService :: "'r \<Rightarrow> ('d, 'r) mark_service" where
  "NewMarkService r = \<lparr>ms_cache = r, ms_published = [], ms_fundingBasisEMA = []\<rparr>"

text \<open>Every eight hours at 00:00, 08:00 and 16:00 UTC.\<close>

definition nextFundingTime :: "gotime \<Rightarrow> gotime" where
  "nextFundingTime now =
     (let hour = t_Hour now;
          nextFundingHour = (hour div 8 + 1) * 8;
          nextFundingHour = (if nextFundingHour \<ge> 24 then 0 else nextFundingHour);
          next = time_Date (t_Year now) (t_Month now) (t_Day now) nextFundingHour 0 0 0 0
      in if t_Before next now then t_Add next (24 * Hour_d) else next)"

text \<open>
  \<open>agg\<close> is \<open>aggregator.GetAggregatedPrice\<close>. The result \<open>None\<close> is the error for a symbol without a price;
  \<open>Div\<close> panics on a zero divisor, which is a period of -1.
\<close>

definition CalculateMarkPrice ::
  "'d decimal_ops \<Rightarrow> mark_config \<Rightarrow> (string \<Rightarrow> 'd \<times> int) \<Rightarrow> gotime \<Rightarrow> string \<Rightarrow> ('d, 'r) mark_service \<Rightarrow>
   ('d mark_price option \<times> ('d, 'r) mark_service) outcome" where
  "CalculateMarkPrice D cfg agg clock symbol s =
     (let (indexPrice, exchangeCount) = agg symbol in
      if exchangeCount = 0 then Inr (None, s)
      else
        let lastPrice = indexPrice;
            fundingBasis = d_Sub D lastPrice indexPrice;
            previousEMA = (case map_of (ms_fundingBasisEMA s) symbol of Some e \<Rightarrow> e | None \<Rightarrow> fundingBasis);
            period = sint (mc_EMAPeriod cfg + 1)
        in if period = 0 then Inl DivisionByZero
           else
             let alpha = d_Div D (d_NewFromInt D 2) (d_NewFromInt D period);
                 ema = d_Add D (d_Mul D fundingBasis alpha) (d_Mul D previousEMA (d_Sub D (d_NewFromInt D 1) alpha));
                 markPriceValue = d_Add D indexPrice ema;
                 estimatedFundingRate = (if d_IsZero D indexPrice then d_Zero D else d_Div D ema indexPrice);
                 now = t_UTC clock
             in Inr (Some \<lparr>mp_Symbol = symbol, mp_MarkPrice = markPriceValue, mp_IndexPrice = indexPrice,
                       mp_LastPrice = lastPrice, mp_FundingBasis = ema, mp_EstimatedFundingRate = estimatedFundingRate,
                       mp_NextFundingTime = nextFundingTime now, mp_Timestamp = now\<rparr>,
                     s\<lparr>ms_fundingBasisEMA := store symbol ema (ms_fundingBasisEMA s)\<rparr>))"

definition mk_GetMarkPrice ::
  "'d decimal_ops \<Rightarrow> ('r, 'd cached) redis_ops \<Rightarrow> mark_config \<Rightarrow> (string \<Rightarrow> 'd \<times> int) \<Rightarrow> gotime \<Rightarrow> string \<Rightarrow>
   ('d, 'r) mark_service \<Rightarrow> ('d mark_price option \<times> ('d, 'r) mark_service) outcome" where
  "mk_GetMarkPrice D R cfg agg now symbol s =
     (case cache_GetMarkPrice R now symbol (ms_cache s) of
        Some cached \<Rightarrow> Inr (Some cached, s)
      | None \<Rightarrow>
          obind (CalculateMarkPrice D cfg agg now symbol s) (\<lambda>(markPrice, s).
            case markPrice of
              None \<Rightarrow> Inr (None, s)
            | Some m \<Rightarrow> Inr (Some m, s\<lparr>ms_cache := cache_SetMarkPrice R now symbol m (mc_MarkPriceTTL cfg) (ms_cache s)\<rparr>)))"

text \<open>The flag says whether there was no error.\<close>

definition UpdateMarkPrice ::
  "'d decimal_ops \<Rightarrow> ('r, 'd cached) redis_ops \<Rightarrow> mark_config \<Rightarrow> (string \<Rightarrow> 'd \<times> int) \<Rightarrow> gotime \<Rightarrow> string \<Rightarrow>
   ('d, 'r) mark_service \<Rightarrow> (bool \<times> ('d, 'r) mark_service) outcome" where
  "UpdateMarkPrice D R cfg agg now symbol s =
     obind (CalculateMarkPrice D cfg agg now symbol s) (\<lambda>(markPrice, s).
       case markPrice of
         None \<Rightarrow> Inr (False, s)
       | Some m \<Rightarrow>
           Inr (True, s\<lparr>ms_cache := cache_SetMarkPrice R now symbol m (mc_MarkPriceTTL cfg) (ms_cache s),
                        ms_published := ms_published s @ [PublishMarkPrice symbol m]\<rparr>))"

text \<open>
  \<open>StartMarkPriceUpdater\<close> registers one callback per symbol with the aggregator; \<open>callbacks\<close> are their numbers
  there. Afterwards every price update of a symbol and every tick of the timer is a call of
  \<open>UpdateMarkPrice\<close>, a tick one for each symbol in an order the scheduler chooses.
\<close>

definition register_updates :: "(string \<times> nat) list \<Rightarrow> 'd exchange_aggregator \<Rightarrow> 'd exchange_aggregator" where
  "register_updates callbacks a = fold (\<lambda>(symbol, callback). ea_SubscribePrice symbol callback) callbacks a"

definition updater_tick ::
  "'d decimal_ops \<Rightarrow> ('r, 'd cached) redis_ops \<Rightarrow> mark_config \<Rightarrow> (string \<Rightarrow> 'd \<times> int) \<Rightarrow> gotime \<Rightarrow> string list \<Rightarrow>
   ('d, 'r) mark_service \<Rightarrow> ('d, 'r) mark_service outcome" where
  "updater_tick D R cfg agg now order s =
     ofold (\<lambda>symbol s. obind (UpdateMarkPrice D R cfg agg now symbol s) (\<lambda>(_, s). Inr s)) order s"

section \<open>The next funding time\<close>

lemma t_UTC_sel: "t_ns (t_UTC t) = t_ns t" "t_off (t_UTC t) = 0"
  by (simp_all add: t_UTC_def)

lemma nextFundingTime_eq:
  assumes "t_off now = 0"
  shows "nextFundingTime now = \<lparr>t_ns = (t_ns now div (8 * Hour_d) + 1) * (8 * Hour_d), t_off = 0\<rparr>"
proof -
  define S where "S = t_ns now div Second"
  define h where "h = t_Hour now div 8"
  have S: "t_Unix now + t_off now = S" by (simp add: S_def t_Unix_def assms)
  have sod: "0 \<le> t_sod now" "t_sod now < 86400" by (simp_all add: t_sod_def)
  have h: "h = t_sod now div 28800" by (simp add: h_def t_Hour_def div_div_mult)
  have "t_sod now div 28800 \<le> 86399 div 28800" using sod by (intro zdiv_mono1) simp_all
  then have hr: "0 \<le> h" "h \<le> 2" unfolding h using sod by (simp_all add: pos_imp_zdiv_nonneg_iff)
  have "S = t_sod now + t_day now * 3 * 28800" unfolding t_day_def t_sod_def S by simp
  then have q: "S div 28800 = t_day now * 3 + h" unfolding h by (metis div_mult_self1 zero_neq_numeral add.commute)
  have ns: "t_ns now div (8 * Hour_d) = t_day now * 3 + h"
    using q by (simp add: S_def flip: zdiv_zmult2_eq)
  have lo: "(t_day now * 3 + h) * (8 * Hour_d) \<le> t_ns now"
    unfolding ns [symmetric] using div_bounds(1) [of "8 * Hour_d" "t_ns now"] by (simp add: mult.commute)
  have hi: "t_ns now < (t_day now * 3 + h + 1) * (8 * Hour_d)"
    unfolding ns [symmetric] using div_bounds(2) [of "8 * Hour_d" "t_ns now"] by (simp add: algebra_simps)
  show ?thesis
  proof (cases "h = 2")
    case True
    then have "(t_Hour now div 8 + 1) * 8 = 24" by (simp add: h_def)
    then show ?thesis
      using date_of_self [of now 0 0 0 0 0] lo ns True
      by (simp add: nextFundingTime_def assms t_Before_def t_Add_def algebra_simps)
  next
    case False
    then have "(t_Hour now div 8 + 1) * 8 < 24" using hr by (simp add: h_def)
    then show ?thesis
      using date_of_self [of now 0 "(h + 1) * 8" 0 0 0] hi ns
      by (simp add: nextFundingTime_def assms t_Before_def t_Add_def algebra_simps flip: h_def)
  qed
qed

lemma nextFundingTime_bounds:
  assumes "t_off now = 0"
  shows "t_ns now < t_ns (nextFundingTime now)" "t_ns (nextFundingTime now) \<le> t_ns now + 8 * Hour_d"
    "8 * Hour_d dvd t_ns (nextFundingTime now)"
  using div_bounds [of "8 * Hour_d" "t_ns now"] by (simp_all add: nextFundingTime_eq [OF assms] algebra_simps)

section \<open>The mark price\<close>

text \<open>What holds of the stored averages: each has the value zero.\<close>

definition ms_ok :: "('d \<Rightarrow> rat) \<Rightarrow> ('d, 'r) mark_service \<Rightarrow> bool" where
  "ms_ok v s \<longleftrightarrow> (\<forall>symbol e. map_of (ms_fundingBasisEMA s) symbol = Some e \<longrightarrow> v e = 0)"

text \<open>The calls of the service.\<close>

inductive ms_step ::
  "'d decimal_ops \<Rightarrow> ('r, 'd cached) redis_ops \<Rightarrow> mark_config \<Rightarrow> ('d, 'r) mark_service \<Rightarrow> ('d, 'r) mark_service \<Rightarrow> bool"
  for D R cfg where
  ms_get: "mk_GetMarkPrice D R cfg agg now symbol s = Inr (m, s') \<Longrightarrow> ms_step D R cfg s s'"
| ms_update: "UpdateMarkPrice D R cfg agg now symbol s = Inr (b, s') \<Longrightarrow> ms_step D R cfg s s'"

inductive ms_reachable ::
  "'d decimal_ops \<Rightarrow> ('r, 'd cached) redis_ops \<Rightarrow> mark_config \<Rightarrow> 'r \<Rightarrow> ('d, 'r) mark_service \<Rightarrow> bool"
  for D R cfg r where
  ms_start: "ms_reachable D R cfg r (NewMarkService r)"
| ms_more: "ms_reachable D R cfg r s \<Longrightarrow> ms_step D R cfg s s' \<Longrightarrow> ms_reachable D R cfg r s'"

inductive_cases ms_stepE: "ms_step D R cfg s s'"

lemma period_zero: "sint (p + 1 :: 64 word) = 0 \<longleftrightarrow> p = - 1"
  by (metis eq_neg_iff_add_eq_0 signed_0 signed_word_eqI)

lemma Calculate_eq:
  assumes "snd (agg symbol) \<noteq> 0" "mc_EMAPeriod cfg \<noteq> - 1"
  shows "CalculateMarkPrice D cfg agg clock symbol s =
    (let alpha = d_Div D (d_NewFromInt D 2) (d_NewFromInt D (sint (mc_EMAPeriod cfg + 1)));
         index = fst (agg symbol); basis = d_Sub D index index;
         prev = (case map_of (ms_fundingBasisEMA s) symbol of Some e \<Rightarrow> e | None \<Rightarrow> basis);
         ema = d_Add D (d_Mul D basis alpha) (d_Mul D prev (d_Sub D (d_NewFromInt D 1) alpha))
     in Inr (Some \<lparr>mp_Symbol = symbol, mp_MarkPrice = d_Add D index ema, mp_IndexPrice = index, mp_LastPrice = index,
          mp_FundingBasis = ema, mp_EstimatedFundingRate = (if d_IsZero D index then d_Zero D else d_Div D ema index),
          mp_NextFundingTime = nextFundingTime (t_UTC clock), mp_Timestamp = t_UTC clock\<rparr>,
        s\<lparr>ms_fundingBasisEMA := store symbol ema (ms_fundingBasisEMA s)\<rparr>))"
  using assms by (simp add: period_zero CalculateMarkPrice_def Let_def split_beta)

lemma Calculate_none:
  assumes "CalculateMarkPrice D cfg agg clock symbol s = Inr (None, s')"
  shows "snd (agg symbol) = 0" "s' = s"
  using assms by (simp_all add: CalculateMarkPrice_def Let_def split_beta split: if_splits)

lemma Calculate_returns:
  assumes "CalculateMarkPrice D cfg agg clock symbol s = Inr (Some m, s')"
  shows "snd (agg symbol) \<noteq> 0" "mc_EMAPeriod cfg \<noteq> - 1"
  using assms by (auto simp: CalculateMarkPrice_def Let_def split_beta split: if_splits)

lemma ema_zero:
  assumes api: "decimal_api D v" and "ms_ok v s"
  shows "v (d_Add D (d_Mul D (d_Sub D x x) alpha)
      (d_Mul D (case map_of (ms_fundingBasisEMA s) symbol of Some e \<Rightarrow> e | None \<Rightarrow> d_Sub D x x) beta)) = 0"
  using assms(2) by (simp add: decimal_api.v_simps [OF api] ms_ok_def split: option.split)

lemma Calculate_value:
  assumes api: "decimal_api D v" and ok: "ms_ok v s" and calc: "CalculateMarkPrice D cfg agg clock symbol s = Inr (Some m, s')"
  shows "v (mp_MarkPrice m) = v (fst (agg symbol)) \<and> mp_IndexPrice m = fst (agg symbol) \<and>
    v (mp_FundingBasis m) = 0 \<and> v (mp_EstimatedFundingRate m) = 0 \<and> mp_NextFundingTime m = nextFundingTime (t_UTC clock)"
    "s' = s\<lparr>ms_fundingBasisEMA := store symbol (mp_FundingBasis m) (ms_fundingBasisEMA s)\<rparr>"
proof -
  note zero = ema_zero [OF api ok]
  note eq = Calculate_eq [where agg = agg and D = D and clock = clock and s = s, OF Calculate_returns [OF calc]]
  obtain e where e: "v e = 0"
      "m = \<lparr>mp_Symbol = symbol, mp_MarkPrice = d_Add D (fst (agg symbol)) e, mp_IndexPrice = fst (agg symbol),
         mp_LastPrice = fst (agg symbol), mp_FundingBasis = e,
         mp_EstimatedFundingRate = (if d_IsZero D (fst (agg symbol)) then d_Zero D else d_Div D e (fst (agg symbol))),
         mp_NextFundingTime = nextFundingTime (t_UTC clock), mp_Timestamp = t_UTC clock\<rparr>"
      "s' = s\<lparr>ms_fundingBasisEMA := store symbol e (ms_fundingBasisEMA s)\<rparr>"
    using calc unfolding eq Let_def by (intro that [OF zero]) auto
  show "v (mp_MarkPrice m) = v (fst (agg symbol)) \<and> mp_IndexPrice m = fst (agg symbol) \<and>
      v (mp_FundingBasis m) = 0 \<and> v (mp_EstimatedFundingRate m) = 0 \<and> mp_NextFundingTime m = nextFundingTime (t_UTC clock)"
    by (simp add: e(1,2) decimal_api.v_simps [OF api] decimal_api.v_Div_zero [OF api _ e(1)])
  show "s' = s\<lparr>ms_fundingBasisEMA := store symbol (mp_FundingBasis m) (ms_fundingBasisEMA s)\<rparr>"
    by (simp add: e(2,3))
qed

lemma ms_ok_calculate:
  assumes "decimal_api D v" "ms_ok v s" "CalculateMarkPrice D cfg agg clock symbol s = Inr (m, s')"
  shows "ms_ok v s'"
proof (cases m)
  case None
  then show ?thesis using Calculate_none assms(2,3) by metis
next
  case (Some x)
  then show ?thesis
    using Calculate_value [OF assms(1,2), of cfg agg clock symbol x s'] assms(2,3) by (simp add: ms_ok_def)
qed

lemma ms_ok_step:
  assumes "decimal_api D v" "ms_ok v s" "ms_step D R cfg s s'"
  shows "ms_ok v s'"
proof -
  have "s' = s \<or> (\<exists>agg now symbol m0 s0. CalculateMarkPrice D cfg agg now symbol s = Inr (m0, s0) \<and>
      ms_fundingBasisEMA s' = ms_fundingBasisEMA s0)"
    using assms(3)
    by (cases rule: ms_step.cases)
      (force simp: mk_GetMarkPrice_def UpdateMarkPrice_def obind_Inr_iff split: option.splits prod.splits)+
  then show ?thesis using ms_ok_calculate [OF assms(1,2)] assms(2) by (metis ms_ok_def)
qed

lemma ms_ok_reachable:
  assumes "decimal_api D v" "ms_reachable D R cfg r s"
  shows "ms_ok v s"
  using assms(2)
proof induction
  case ms_start
  show ?case by (simp add: NewMarkService_def ms_ok_def)
qed (rule ms_ok_step [OF assms(1)])

text \<open>
  C32. The mark price is the index price. In every state the service can reach, whatever prices it saw
  before, an update for a symbol some exchange reports succeeds and publishes on the symbol's channel a mark
  price whose value is that of the aggregated price, with a funding basis and a funding rate of zero: the
  perpetual price is not connected, so the moving average never leaves zero. The next funding
  time is the first multiple of eight hours UTC after the call. Until its time to live has passed
  every request is answered with this mark price, whatever the exchanges report meanwhile.
\<close>

theorem mark_price_is_index:
  assumes api: "decimal_api D v" and "redis_api R" and reach: "ms_reachable D R cfg r s"
    and "mc_EMAPeriod cfg \<noteq> - 1" "0 < mc_MarkPriceTTL cfg" and agg: "agg symbol = (index, n)" "n \<noteq> 0"
  shows "\<exists>m s'. UpdateMarkPrice D R cfg agg now symbol s = Inr (True, s') \<and>
    ms_published s' = ms_published s @ [(''nyyu:market:markprice:'' @ symbol, PMarkPrice m)] \<and>
    v (mp_MarkPrice m) = v index \<and> mp_IndexPrice m = index \<and>
    v (mp_FundingBasis m) = 0 \<and> v (mp_EstimatedFundingRate m) = 0 \<and>
    t_ns now < t_ns (mp_NextFundingTime m) \<and> t_ns (mp_NextFundingTime m) \<le> t_ns now + 8 * Hour_d \<and>
    8 * Hour_d dvd t_ns (mp_NextFundingTime m) \<and>
    (\<forall>now' agg'. t_ns now \<le> t_ns now' \<and> t_ns now' < t_ns now + mc_MarkPriceTTL cfg \<longrightarrow>
      mk_GetMarkPrice D R cfg agg' now' symbol s' = Inr (Some m, s'))"
proof -
  obtain m s0 where calc: "CalculateMarkPrice D cfg agg now symbol s = Inr (Some m, s0)"
    using Calculate_eq [of agg symbol cfg D now s] agg assms(4) by (auto simp: Let_def)
  note val = Calculate_value [OF api ms_ok_reachable [OF api reach] calc]
  define s' where "s' = s0\<lparr>ms_cache := cache_SetMarkPrice R now symbol m (mc_MarkPriceTTL cfg) (ms_cache s0),
    ms_published := ms_published s0 @ [PublishMarkPrice symbol m]\<rparr>"
  have "UpdateMarkPrice D R cfg agg now symbol s = Inr (True, s')"
    by (simp add: UpdateMarkPrice_def calc s'_def)
  moreover have "ms_published s' = ms_published s @ [(''nyyu:market:markprice:'' @ symbol, PMarkPrice m)]"
    by (simp add: s'_def val(2) PublishMarkPrice_def)
  moreover have "mk_GetMarkPrice D R cfg agg' now' symbol s' = Inr (Some m, s')"
    if "t_ns now \<le> t_ns now'" "t_ns now' < t_ns now + mc_MarkPriceTTL cfg" for now' agg'
    using redis_api.get_set [OF assms(2,5) that]
    by (simp add: mk_GetMarkPrice_def s'_def cache_GetMarkPrice_def cache_SetMarkPrice_def)
  ultimately show ?thesis
    using val(1) nextFundingTime_bounds [of "t_UTC now"] agg(1) by (auto simp: t_UTC_sel)
qed

text \<open>A first update where one exchange reports 36.5; the request that follows it gets the same mark price.\<close>

definition sample_mark_config :: mark_config where
  "sample_mark_config = \<lparr>mc_EMAPeriod = 20, mc_MarkPriceTTL = 5 * Second\<rparr>"

theorem mark_price_is_index_witness:
  "\<exists>m s'. UpdateMarkPrice fd_ops map_redis sample_mark_config (\<lambda>_. (FD 365 1, 1)) sample_time ''BTCUSDT'' (NewMarkService []) = Inr (True, s') \<and>
    fd_val (mp_MarkPrice m) = 73 / 2 \<and>
    mk_GetMarkPrice fd_ops map_redis sample_mark_config (\<lambda>_. (FD 366 1, 1)) sample_time ''BTCUSDT'' s' = Inr (Some m, s')"
  using mark_price_is_index [OF fd.decimal_api_axioms map_redis.redis_api_axioms
      ms_start [of fd_ops map_redis sample_mark_config "[]"],
      where agg = "\<lambda>_. (FD 365 1, 1)" and symbol = "''BTCUSDT''" and index = "FD 365 1" and n = 1 and now = sample_time]
  by (auto simp: sample_mark_config_def)

text \<open>With a period of -1 every calculation for a symbol with a price panics.\<close>

lemma Calculate_panics:
  assumes "snd (agg symbol) \<noteq> 0"
  shows "CalculateMarkPrice D cfg agg now symbol s = Inl DivisionByZero \<longleftrightarrow> mc_EMAPeriod cfg = - 1"
  using assms by (simp add: period_zero CalculateMarkPrice_def Let_def split_beta)

end
