(* ===== verification/Symbols.thy ===== *)
theory Symbols
  imports Exchange_Aggregator
begin

text \<open>
  \<open>internal/services/symbols\<close>: the fetcher that keeps the list of symbols of the backend, the manager that
  subscribes to them by a strategy, and the loader of the symbol file. The answers of the backend and
  the contents of the file are arguments. A slice expression out of range is a panic.
\<close>

section \<open>Symbols\<close>

definition DefaultSymbols :: "string list" where
  "DefaultSymbols = [
     ''1INCHUSDT'', ''AAVEUSDT'', ''ADAUSDT'', ''ALCXUSDT'', ''ALICEUSDT'', ''ANKRUSDT'', ''APEUSDT'', ''ARBUSDT'',
     ''AUDIOUSDT'', ''AURORAUSDT'', ''AVAXUSDT'', ''AXSUSDT'', ''BATUSDT'', ''BLURUSDT'', ''BNBUSDT'', ''BOBAUSDT'',
     ''BONEUSDT'', ''BTCUSDT'', ''C98USDT'', ''CAKEUSDT'', ''CELOUSDT'', ''CHZUSDT'', ''COMPUSDT'', ''CRVUSDT'',
     ''CVXUSDT'', ''DOGEUSDT'', ''DOTUSDT'', ''DYDXUSDT'', ''ENJUSDT'', ''ETHUSDT'', ''FETUSDT'', ''FLOKIUSDT'',
     ''FXSUSDT'', ''GALAUSDT'', ''GLMRUSDT'', ''GMXUSDT'', ''GRTUSDT'', ''GTUSDT'', ''HOTUSDT'', ''ILVUSDT'',
     ''IMXUSDT'', ''INJUSDT'', ''IOTXUSDT'', ''JASMYUSDT'', ''KDAUSDT'', ''LDOUSDT'', ''LINKUSDT'', ''LOOKSUSDT'',
     ''LRCUSDT'', ''MAGICUSDT'', ''MANAUSDT'', ''MASKUSDT'', ''METISUSDT'', ''MINAUSDT'', ''MOVRUSDT'', ''NEXOUSDT'',
     ''OPUSDT'', ''PAXGUSDT'', ''PEPEUSDT'', ''POLSUSDT'', ''QNTUSDT'', ''RAYUSDT'', ''ROSEUSDT'', ''RPLUSDT'',
     ''RUNEUSDT'', ''SANDUSDT'', ''SFPUSDT'', ''SHIBUSDT'', ''SNXUSDT'', ''SOLUSDT'', ''SPELLUSDT'', ''STXUSDT'',
     ''SUSHIUSDT'', ''TFUELUSDT'', ''THETAUSDT'', ''TLMUSDT'', ''TRIBEUSDT'', ''TWTUSDT'', ''UNIUSDT'', ''WBTCUSDT'',
     ''WOOUSDT'', ''XCNUSDT'', ''XDCUSDT'', ''XRPUSDT'', ''XYOUSDT'', ''YFIUSDT'', ''ZRXUSDT'']"

text \<open>\<open>None\<close>: the file cannot be read; \<open>Some None\<close>: it cannot be parsed.\<close>

definition LoadSymbolsFromYAML :: "string list option option \<Rightarrow> string list option" where
  "LoadSymbolsFromYAML file =
     (case file of
        None \<Rightarrow> None
      | Some None \<Rightarrow> None
      | Some (Some symbols) \<Rightarrow> if length symbols = 0 then None else Some symbols)"

definition LoadSymbolsWithFallback :: "string list option option \<Rightarrow> string list" where
  "LoadSymbolsWithFallback file = (case LoadSymbolsFromYAML file of None \<Rightarrow> DefaultSymbols | Some symbols \<Rightarrow> symbols)"

section \<open>The fetcher\<close>

record backend_response =
  br_Success :: bool
  br_Message :: string
  br_Symbols :: "string list"

datatype symbols_answer = BadRequest | NoAnswer | Status int | Unreadable | Unparsable | Parsed backend_response

record symbol_fetcher =
  sf_symbols :: "string list"
  sf_lastFetch :: gotime
  sf_cacheTTL :: int

definition NewSymbolFetcher :: symbol_fetcher where
  "NewSymbolFetcher = \<lparr>sf_symbols = DefaultSymbols, sf_lastFetch = zero_time, sf_cacheTTL = 1 * Hour_d\<rparr>"

definition NewSymbolFetcherWithSymbols :: "string list \<Rightarrow> symbol_fetcher" where
  "NewSymbolFetcherWithSymbols customSymbols = \<lparr>sf_symbols = customSymbols, sf_lastFetch = zero_time, sf_cacheTTL = 1 * Hour_d\<rparr>"

definition getCachedSymbols :: "symbol_fetcher \<Rightarrow> string list" where
  "getCachedSymbols f = sf_symbols f"

text \<open>The symbols, whether the error is nil, and the fetcher; symbols come with an error too.\<close>

definition FetchSymbols :: "gotime \<Rightarrow> symbols_answer \<Rightarrow> symbol_fetcher \<Rightarrow> string list \<times> bool \<times> symbol_fetcher" where
  "FetchSymbols now answer f =
     (case answer of
        BadRequest \<Rightarrow> ([], False, f)
      | NoAnswer \<Rightarrow> (getCachedSymbols f, False, f)
      | Status code \<Rightarrow> (getCachedSymbols f, False, f)     \<comment> \<open>a code other than 200\<close>
      | Unreadable \<Rightarrow> (getCachedSymbols f, False, f)
      | Unparsable \<Rightarrow> (getCachedSymbols f, False, f)
      | Parsed resp \<Rightarrow>
          if \<not> br_Success resp then (getCachedSymbols f, False, f)
          else if length (br_Symbols resp) = 0 then (getCachedSymbols f, False, f)
          else (br_Symbols resp, True, f\<lparr>sf_symbols := br_Symbols resp, sf_lastFetch := now\<rparr>))"

definition GetSymbols :: "gotime \<Rightarrow> symbols_answer \<Rightarrow> symbol_fetcher \<Rightarrow> string list \<times> bool \<times> symbol_fetcher" where
  "GetSymbols now answer f =
     (if t_Sub now (sf_lastFetch f) < sf_cacheTTL f \<and> length (sf_symbols f) > 0 then (sf_symbols f, True, f)
      else FetchSymbols now answer f)"

definition GetPopularSymbols ::
  "gotime \<Rightarrow> symbols_answer \<Rightarrow> int \<Rightarrow> symbol_fetcher \<Rightarrow> (string list \<times> bool \<times> symbol_fetcher) outcome" where
  "GetPopularSymbols now answer limit f =
     (let (symbols, ok, f) = GetSymbols now answer f in
      if \<not> ok then Inr ([], False, f)
      else if int (length symbols) < limit then Inr (symbols, True, f)
      else if limit < 0 then Inl SliceOutOfRange
      else Inr (take (nat limit) symbols, True, f))"

definition RefreshSymbols :: "gotime \<Rightarrow> symbols_answer \<Rightarrow> symbol_fetcher \<Rightarrow> bool \<times> symbol_fetcher" where
  "RefreshSymbols now answer f = snd (FetchSymbols now answer f)"

definition GetSymbolCount :: "symbol_fetcher \<Rightarrow> int" where
  "GetSymbolCount f = int (length (sf_symbols f))"

text \<open>
  The goroutine \<open>StartAutoRefresh\<close>: it fetches at its start and at every tick, with the answers of the
  service, and goes on after an error.
\<close>

definition StartAutoRefresh ::
  "gotime \<Rightarrow> symbols_answer \<Rightarrow> (gotime \<times> symbols_answer) loop_event list \<Rightarrow> symbol_fetcher \<Rightarrow> (bool \<times> symbol_fetcher) outcome" where
  "StartAutoRefresh now answer evs f =
     obind (NewTicker (sf_cacheTTL f)) (\<lambda>_.
       Inr (ticker_loop (\<lambda>(now, answer) f. snd (snd (FetchSymbols now answer f))) evs (snd (snd (FetchSymbols now answer f)))))"

text \<open>
  A refresh that fails keeps the symbols: however the service answers, the fetcher always has symbols to
  offer, those of the last answer that had any.
\<close>

lemma FetchSymbols_state:
  "snd (snd (FetchSymbols now answer f)) = (case answer of Parsed resp \<Rightarrow>
     if br_Success resp \<and> br_Symbols resp \<noteq> [] then f\<lparr>sf_symbols := br_Symbols resp, sf_lastFetch := now\<rparr> else f | _ \<Rightarrow> f)"
  by (auto simp: FetchSymbols_def split: symbols_answer.split)

lemma StartAutoRefresh_has_symbols:
  assumes "sf_symbols f \<noteq> []" "0 < sf_cacheTTL f"
  shows "\<exists>r f'. StartAutoRefresh now answer evs f = Inr (r, f') \<and> sf_symbols f' \<noteq> [] \<and> sf_cacheTTL f' = sf_cacheTTL f"
proof -
  let ?P = "\<lambda>g. sf_symbols g \<noteq> [] \<and> sf_cacheTTL g = sf_cacheTTL f"
  have step: "?P g \<Longrightarrow> ?P (snd (snd (FetchSymbols now answer g)))" for now answer g
    by (auto simp: FetchSymbols_state split: symbols_answer.split)
  have "?P (snd (ticker_loop (\<lambda>(now, answer) f. snd (snd (FetchSymbols now answer f))) evs (snd (snd (FetchSymbols now answer f)))))"
    by (rule ticker_loop_keeps [where P = ?P]) (use step assms(1) in auto)
  then show ?thesis using assms(2)
    by (intro exI [of _ "fst (ticker_loop (\<lambda>(now, answer) f. snd (snd (FetchSymbols now answer f))) evs (snd (snd (FetchSymbols now answer f))))"]
        exI [of _ "snd (ticker_loop (\<lambda>(now, answer) f. snd (snd (FetchSymbols now answer f))) evs (snd (snd (FetchSymbols now answer f))))"])
      (simp add: StartAutoRefresh_def NewTicker_def)
qed

section \<open>The manager\<close>

record symbol_config =
  AutoSubscribe :: bool
  SubscriptionStrategy :: string
  MaxSymbols :: int

record symbol_manager =
  sm_fetcher :: symbol_fetcher
  sm_subscribedSymbols :: "(string, bool) gomap"
  sm_cancelled :: bool

definition NewSymbolManager :: "symbol_fetcher \<Rightarrow> symbol_manager" where
  "NewSymbolManager f = \<lparr>sm_fetcher = f, sm_subscribedSymbols = [], sm_cancelled = False\<rparr>"

definition popularList :: "string list" where
  "popularList = [
     ''BTCUSDT'', ''ETHUSDT'', ''BNBUSDT'', ''SOLUSDT'', ''XRPUSDT'',
     ''ADAUSDT'', ''DOGEUSDT'', ''AVAXUSDT'', ''DOTUSDT'', ''MATICUSDT'',
     ''LINKUSDT'', ''UNIUSDT'', ''ATOMUSDT'', ''LTCUSDT'', ''ETCUSDT'',
     ''TRXUSDT'', ''NEARUSDT'', ''XLMUSDT'', ''ALGOUSDT'', ''VETUSDT'',
     ''AAVEUSDT'', ''ARBUSDT'', ''OPUSDT'', ''INJUSDT'', ''IMXUSDT'',
     ''GMXUSDT'', ''DYDXUSDT'', ''RUNEUSDT'', ''CRVUSDT'', ''SUSHIUSDT'']"

definition getPopularSymbols :: "string list \<Rightarrow> string list" where
  "getPopularSymbols allSymbols = filter (\<lambda>symbol. symbol \<in> set allSymbols) popularList"

definition applyStrategy :: "symbol_config \<Rightarrow> string list \<Rightarrow> string list outcome" where
  "applyStrategy cfg allSymbols =
     (if SubscriptionStrategy cfg = ''all'' then Inr allSymbols
      else if SubscriptionStrategy cfg = ''popular'' then Inr (getPopularSymbols allSymbols)
      else if SubscriptionStrategy cfg = ''top_N'' then
        (if int (length allSymbols) \<le> MaxSymbols cfg then Inr allSymbols
         else if MaxSymbols cfg < 0 then Inl SliceOutOfRange
         else Inr (take (nat (MaxSymbols cfg)) allSymbols))
      else if length allSymbols \<le> 50 then Inr allSymbols
      else Inr (take 50 allSymbols))"

text \<open>The loop over the symbols; \<open>sub\<close> is the subscriber's \<open>SubscribeToInterval\<close>, \<open>None\<close> its error.\<close>

definition subscribe_new ::
  "(string \<Rightarrow> string \<Rightarrow> 'a \<Rightarrow> 'a option) \<Rightarrow> string \<Rightarrow> (string, bool) gomap \<times> 'a \<Rightarrow> (string, bool) gomap \<times> 'a" where
  "subscribe_new sub symbol st =
     (case st of (subscribed, a) \<Rightarrow>
        let alreadySubscribed = (map_of subscribed symbol = Some True) in
        if alreadySubscribed then (subscribed, a)
        else (case sub symbol ''1m'' a of
                None \<Rightarrow> (subscribed, a)
              | Some a \<Rightarrow> (store symbol True subscribed, a)))"

definition refreshAndSubscribe ::
  "(string \<Rightarrow> string \<Rightarrow> 'a \<Rightarrow> 'a option) \<Rightarrow> symbol_config \<Rightarrow> gotime \<Rightarrow> symbols_answer \<Rightarrow> symbol_manager \<times> 'a \<Rightarrow>
   (bool \<times> symbol_manager \<times> 'a) outcome" where
  "refreshAndSubscribe sub cfg now answer st =
     (case st of (m, a) \<Rightarrow>
      let (allSymbols, ok, f) = GetSymbols now answer (sm_fetcher m); m = m\<lparr>sm_fetcher := f\<rparr> in
      if \<not> ok then Inr (False, m, a)
      else
        (let allSymbols = (if length allSymbols = 0 then DefaultSymbols else allSymbols) in
         obind (applyStrategy cfg allSymbols) (\<lambda>symbolsToSubscribe.
           let (subscribed, a) = fold (subscribe_new sub) symbolsToSubscribe (sm_subscribedSymbols m, a)
           in Inr (True, m\<lparr>sm_subscribedSymbols := subscribed\<rparr>, a))))"

text \<open>\<open>Start\<close> and \<open>ForceRefresh\<close> refresh once; a tick of \<open>periodicRefresh\<close> does so until \<open>Stop\<close>.\<close>

definition sm_Start ::
  "(string \<Rightarrow> string \<Rightarrow> 'a \<Rightarrow> 'a option) \<Rightarrow> symbol_config \<Rightarrow> gotime \<Rightarrow> symbols_answer \<Rightarrow> symbol_manager \<times> 'a \<Rightarrow>
   (symbol_manager \<times> 'a) outcome" where
  "sm_Start sub cfg now answer st = obind (refreshAndSubscribe sub cfg now answer st) (\<lambda>(_, st). Inr st)"

definition periodicRefresh ::
  "(string \<Rightarrow> string \<Rightarrow> 'a \<Rightarrow> 'a option) \<Rightarrow> symbol_config \<Rightarrow> gotime \<Rightarrow> symbols_answer \<Rightarrow> symbol_manager \<times> 'a \<Rightarrow>
   (symbol_manager \<times> 'a) outcome" where
  "periodicRefresh sub cfg now answer st =
     (if sm_cancelled (fst st) then Inr st
      else obind (refreshAndSubscribe sub cfg now answer st) (\<lambda>(_, st). Inr st))"

definition sm_Stop :: "symbol_manager \<Rightarrow> symbol_manager" where
  "sm_Stop m = m\<lparr>sm_cancelled := True\<rparr>"

definition GetSubscribedSymbols :: "symbol_manager \<Rightarrow> string list" where
  "GetSubscribedSymbols m = map fst (sm_subscribedSymbols m)"

definition GetSubscribedCount :: "symbol_manager \<Rightarrow> int" where
  "GetSubscribedCount m = int (length (sm_subscribedSymbols m))"

definition ForceRefresh ::
  "(string \<Rightarrow> string \<Rightarrow> 'a \<Rightarrow> 'a option) \<Rightarrow> symbol_config \<Rightarrow> gotime \<Rightarrow> symbols_answer \<Rightarrow> symbol_manager \<times> 'a \<Rightarrow>
   (bool \<times> symbol_manager \<times> 'a) outcome" where
  "ForceRefresh sub cfg now answer st = refreshAndSubscribe sub cfg now answer st"

section \<open>Every symbol once\<close>

definition all_true :: "(string, bool) gomap \<Rightarrow> bool" where
  "all_true m \<longleftrightarrow> wf_map m \<and> (\<forall>(s, b)\<in>set m. b)"

lemma all_true_store: "all_true m \<Longrightarrow> all_true (store s True m)"
  by (auto simp: all_true_def set_store_wf)

lemma all_true_lookup: "all_true m \<Longrightarrow> map_of m s = Some True \<longleftrightarrow> s \<in> fst ` set m"
  by (force simp: all_true_def wf_map_in_set [symmetric])

context subscription_interface
begin

text \<open>The subscriptions the manager holds: one of one minute for each symbol it recorded.\<close>

lemma subscribe_new_sim:
  assumes "all_true m" "sim a (M + image_mset (\<lambda>s. (canon s, ''1m'')) (mset (map fst m)))"
    "size M + length m < cap" "subscribe_new (\<lambda>s i a. Some (subscribe s i a)) symbol (m, a) = (m', a')"
  shows "all_true m' \<and> sim a' (M + image_mset (\<lambda>s. (canon s, ''1m'')) (mset (map fst m'))) \<and>
    fst ` set m' = insert symbol (fst ` set m) \<and> length m' \<le> Suc (length m)"
proof (cases "symbol \<in> fst ` set m")
  case True
  then have "m' = m" "a' = a" using assms(1,4) by (simp_all add: subscribe_new_def Let_def all_true_lookup)
  then show ?thesis using assms(1,2) True by auto
next
  case False
  then have new: "map_of m symbol = None" by (simp add: map_of_eq_None_iff)
  then have m': "m' = store symbol True m" "a' = subscribe symbol ''1m'' a"
    using assms(4) by (simp_all add: subscribe_new_def Let_def)
  have ms: "mset m' = add_mset (symbol, True) (mset m)" unfolding m' by (rule mset_store_new [OF new])
  have "sim a' (add_mset (canon symbol, ''1m'') (M + image_mset (\<lambda>s. (canon s, ''1m'')) (mset (map fst m))))"
    unfolding m'(2) using assms(2,3) by (intro sim_subscribe) simp_all
  moreover have "mset (map fst m') = add_mset symbol (mset (map fst m))" using ms by (simp add: mset_map)
  ultimately have "sim a' (M + image_mset (\<lambda>s. (canon s, ''1m'')) (mset (map fst m')))" by simp
  moreover have "set m' = insert (symbol, True) (set m)" using ms by (metis set_mset_add_mset_insert set_mset_mset)
  moreover have "length m' = Suc (length m)" using ms by (metis size_add_mset size_mset)
  ultimately show ?thesis using all_true_store [OF assms(1)] m'(1) by auto
qed

lemma subscribe_loop_sim:
  assumes "all_true m" "sim a (M + image_mset (\<lambda>s. (canon s, ''1m'')) (mset (map fst m)))"
    "size M + length m + length ss \<le> cap" "fold (subscribe_new (\<lambda>s i a. Some (subscribe s i a))) ss (m, a) = (m', a')"
  shows "all_true m' \<and> sim a' (M + image_mset (\<lambda>s. (canon s, ''1m'')) (mset (map fst m'))) \<and>
    fst ` set m' = set ss \<union> fst ` set m \<and> length m' \<le> length m + length ss"
  using assms
proof (induction ss arbitrary: m a)
  case (Cons s ss)
  obtain m1 a1 where 1: "subscribe_new (\<lambda>s i a. Some (subscribe s i a)) s (m, a) = (m1, a1)" by fastforce
  have "size M + length m < cap" using Cons.prems(3) by simp
  note s = subscribe_new_sim [OF Cons.prems(1,2) this 1]
  have "fold (subscribe_new (\<lambda>s i a. Some (subscribe s i a))) ss (m1, a1) = (m', a')" using Cons.prems(4) 1 by simp
  moreover have "size M + length m1 + length ss \<le> cap" using s Cons.prems(3) by simp
  ultimately show ?case using Cons.IH [of m1 a1] s by auto
qed simp

end

lemma applyStrategy_length: "applyStrategy cfg ss = Inr ts \<Longrightarrow> length ts \<le> max (length ss) (length popularList)"
  by (auto simp: applyStrategy_def getPopularSymbols_def split: if_splits intro: le_trans [OF length_filter_le])

lemma popular_le_default: "length popularList \<le> length DefaultSymbols"
  by (simp add: popularList_def DefaultSymbols_def)

text \<open>The subscriber as the manager sees it: the aggregator behind the candle service.\<close>

abbreviation agg_subscribe :: "string \<Rightarrow> string \<Rightarrow> 'd exchange_aggregator \<Rightarrow> 'd exchange_aggregator option" where
  "agg_subscribe \<equiv> \<lambda>symbol i a. Some (SubscribeToInterval symbol i a)"

text \<open>How many symbols the backend or the fetcher can put forward.\<close>

definition answer_size :: "symbols_answer \<Rightarrow> nat" where
  "answer_size ans = (case ans of Parsed resp \<Rightarrow> length (br_Symbols resp) | _ \<Rightarrow> 0)"

lemma GetSymbols_size:
  assumes "GetSymbols now ans f = (ss, ok, f')" "answer_size ans \<le> K" "length (sf_symbols f) \<le> K"
  shows "length ss \<le> K \<and> length (sf_symbols f') \<le> K"
  using assms by (auto simp: GetSymbols_def FetchSymbols_def getCachedSymbols_def answer_size_def split: if_splits symbols_answer.splits)

definition manager_holds :: "nat \<Rightarrow> nat \<Rightarrow> (string \<times> string) multiset \<Rightarrow> symbol_manager \<times> 'd exchange_aggregator \<Rightarrow> bool" where
  "manager_holds K n M st \<longleftrightarrow> (case st of (m, a) \<Rightarrow>
     all_true (sm_subscribedSymbols m) \<and> length (sf_symbols (sm_fetcher m)) \<le> K \<and> length (sm_subscribedSymbols m) \<le> n * K \<and>
     sub_sim a (M + image_mset (\<lambda>s. (to_upper s, ''1m'')) (mset (GetSubscribedSymbols m))))"

text \<open>What that says of the counts.\<close>

lemma manager_holds_held:
  assumes "manager_holds K n M (m, a)"
  shows "distinct (GetSubscribedSymbols m)"
    and "held a S i = int (count M (S, i)) +
      (if i = ''1m'' then int (length (filter (\<lambda>s. to_upper s = S) (GetSubscribedSymbols m))) else 0)"
proof -
  have cnt: "count (image_mset (\<lambda>s. (to_upper s, ''1m'')) (mset L)) (S, i) =
      (if i = ''1m'' then length (filter (\<lambda>s. to_upper s = S) L) else 0)" for L
    by (induction L) auto
  have "held a S i = int (count (M + image_mset (\<lambda>s. (to_upper s, ''1m'')) (mset (GetSubscribedSymbols m))) (S, i))"
    using assms by (simp add: manager_holds_def sub_sim_def)
  then show "held a S i = int (count M (S, i)) +
      (if i = ''1m'' then int (length (filter (\<lambda>s. to_upper s = S) (GetSubscribedSymbols m))) else 0)" by (simp add: cnt)
  show "distinct (GetSubscribedSymbols m)"
    using assms by (simp add: manager_holds_def all_true_def wf_map_def GetSubscribedSymbols_def)
qed

lemma refresh_holds:
  assumes "manager_holds K n M st" "answer_size ans \<le> K" "length DefaultSymbols \<le> K" "size M + Suc n * K \<le> 2 ^ 31 - 1"
    and "refreshAndSubscribe agg_subscribe cfg now ans st = Inr (ok, st')"
  shows "manager_holds K (Suc n) M st'"
proof -
  obtain m a where st: "st = (m, a)" by (cases st)
  obtain ss b f where g: "GetSymbols now ans (sm_fetcher m) = (ss, b, f)" by (cases "GetSymbols now ans (sm_fetcher m)") auto
  note h = assms(1) [unfolded manager_holds_def st prod.case]
  have size: "length ss \<le> K" "length (sf_symbols f) \<le> K" using GetSymbols_size [OF g assms(2)] h by auto
  show ?thesis
  proof (cases b)
    case False
    then have "st' = (m\<lparr>sm_fetcher := f\<rparr>, a)" using assms(5) g by (simp add: st refreshAndSubscribe_def)
    then show ?thesis using h size by (simp add: manager_holds_def GetSubscribedSymbols_def le_trans)
  next
    case True
    let ?ss = "if length ss = 0 then DefaultSymbols else ss"
    obtain ts where ts: "applyStrategy cfg ?ss = Inr ts"
      using assms(5) g True by (cases "applyStrategy cfg ?ss") (auto simp: st refreshAndSubscribe_def Let_def)
    obtain m1 a1 where run: "fold (subscribe_new agg_subscribe) ts (sm_subscribedSymbols m, a) = (m1, a1)" by fastforce
    have st': "st' = (m\<lparr>sm_fetcher := f, sm_subscribedSymbols := m1\<rparr>, a1)"
      using assms(5) g True ts run by (simp add: st refreshAndSubscribe_def Let_def)
    have "length ts \<le> K"
      using applyStrategy_length [OF ts] size(1) assms(3) popular_le_default by (auto split: if_splits)
    moreover have "size M + length (sm_subscribedSymbols m) + length ts \<le> 2 ^ 31 - 1"
      using h assms(4) \<open>length ts \<le> K\<close> by (simp add: algebra_simps)
    moreover have "sub_sim a (M + image_mset (\<lambda>s. (to_upper s, ''1m'')) (mset (map fst (sm_subscribedSymbols m))))"
      using h by (simp add: GetSubscribedSymbols_def)
    ultimately show ?thesis
      using subs.subscribe_loop_sim [OF _ _ _ run, of M] h size(2)
      by (auto simp: st' manager_holds_def GetSubscribedSymbols_def algebra_simps)
  qed
qed

definition refresh_run ::
  "symbol_config \<Rightarrow> (gotime \<times> symbols_answer) list \<Rightarrow> symbol_manager \<times> 'd exchange_aggregator \<Rightarrow>
   (symbol_manager \<times> 'd exchange_aggregator) outcome" where
  "refresh_run cfg evs st = ofold (\<lambda>(now, ans). periodicRefresh agg_subscribe cfg now ans) evs st"

lemma refresh_run_holds:
  assumes "manager_holds K n M st" "\<forall>(now, ans)\<in>set evs. answer_size ans \<le> K" "length DefaultSymbols \<le> K"
    "size M + (n + length evs) * K \<le> 2 ^ 31 - 1" "refresh_run cfg evs st = Inr st'"
  shows "\<exists>n'. manager_holds K n' M st'"
  using assms
proof (induction evs arbitrary: st n)
  case Nil
  then show ?case by (auto simp: refresh_run_def)
next
  case (Cons ev evs)
  obtain now ans where ev: "ev = (now, ans)" by (cases ev)
  obtain st1 where st1: "periodicRefresh agg_subscribe cfg now ans st = Inr st1" "refresh_run cfg evs st1 = Inr st'"
    using Cons.prems(5) by (auto simp: refresh_run_def ev obind_Inr_iff)
  have "manager_holds K (Suc n) M st1 \<or> manager_holds K n M st1"
  proof (cases "sm_cancelled (fst st)")
    case True
    then show ?thesis using st1(1) Cons.prems(1) by (simp add: periodicRefresh_def)
  next
    case False
    then obtain ok where "refreshAndSubscribe agg_subscribe cfg now ans st = Inr (ok, st1)"
      using st1(1) by (auto simp: periodicRefresh_def obind_Inr_iff)
    then show ?thesis
      using Cons.prems ev by (intro disjI1 refresh_holds [OF Cons.prems(1)]) (simp_all add: algebra_simps)
  qed
  then obtain n1 where "manager_holds K n1 M st1" "n1 \<le> Suc n" by auto
  moreover have "size M + (n1 + length evs) * K \<le> 2 ^ 31 - 1"
  proof -
    have "(n1 + length evs) * K \<le> (n + length (ev # evs)) * K" using \<open>n1 \<le> Suc n\<close> by (intro mult_right_mono) auto
    then show ?thesis using Cons.prems(4) by linarith
  qed
  ultimately show ?case using Cons.IH [of n1 st1] Cons.prems(2,3) st1(2) by auto
qed

text \<open>
  The symbol manager and the aggregator. Refresh any number of times, with any answers of the backend, by any
  strategy: as long as the counts fit their 32 bits, the aggregator holds what it held before and exactly one
  one-minute subscription for every symbol the manager has recorded, and every symbol is recorded once.
\<close>

theorem symbols_held_once:
  assumes "sub_sim a M" "refresh_run cfg evs (NewSymbolManager f, a) = Inr (m', a')"
    and "\<forall>(now, ans)\<in>set evs. answer_size ans \<le> K" "length (sf_symbols f) \<le> K" "87 \<le> K"
    and "size M + length evs * K \<le> 2 ^ 31 - 1"
  shows "distinct (GetSubscribedSymbols m') \<and>
    (\<forall>S i. held a' S i = int (count M (S, i)) +
       (if i = ''1m'' then int (length (filter (\<lambda>s. to_upper s = S) (GetSubscribedSymbols m'))) else 0))"
proof -
  have "manager_holds K 0 M (NewSymbolManager f, a)"
    using assms(1,4) by (simp add: manager_holds_def NewSymbolManager_def all_true_def GetSubscribedSymbols_def)
  moreover have "length DefaultSymbols \<le> K" using assms(5) by (simp add: DefaultSymbols_def)
  ultimately obtain n where h: "manager_holds K n M (m', a')"
    using refresh_run_holds [OF _ assms(3) _ _ assms(2), of 0 M] assms(6) by auto
  then show ?thesis by (simp add: manager_holds_held)
qed

text \<open>
  A backend that cannot be reached at the start leaves nothing subscribed, although the fetcher returns the
  default symbols beside the error.
\<close>

lemma failed_fetch_subscribes_nothing:
  assumes "t_ns zero_time + Hour_d \<le> t_ns now" "answer_size ans = 0"
  shows "sm_Start sub cfg now ans (NewSymbolManager NewSymbolFetcher, a) = Inr (NewSymbolManager NewSymbolFetcher, a) \<and>
    GetSubscribedCount (NewSymbolManager NewSymbolFetcher) = 0 \<and>
    (ans \<noteq> BadRequest \<longrightarrow> fst (FetchSymbols now ans NewSymbolFetcher) = DefaultSymbols)"
proof -
  have old: "\<not> t_Sub now (sf_lastFetch NewSymbolFetcher) < sf_cacheTTL NewSymbolFetcher"
    using assms(1) by (simp add: NewSymbolFetcher_def t_Sub_def clamp_bits_def)
  have "fst (snd (FetchSymbols now ans NewSymbolFetcher)) = False" "snd (snd (FetchSymbols now ans NewSymbolFetcher)) = NewSymbolFetcher"
    "ans \<noteq> BadRequest \<longrightarrow> fst (FetchSymbols now ans NewSymbolFetcher) = DefaultSymbols"
    using assms(2) by (auto simp: FetchSymbols_def answer_size_def getCachedSymbols_def NewSymbolFetcher_def split: symbols_answer.split)
  then show ?thesis
    using old by (auto simp: sm_Start_def refreshAndSubscribe_def GetSymbols_def NewSymbolManager_def GetSubscribedCount_def split: prod.split)
qed

definition sample_answer :: symbols_answer where
  "sample_answer = Parsed \<lparr>br_Success = True, br_Message = '''', br_Symbols = [''BTCUSDT'', ''ETHUSDT'', ''BTCUSDT'']\<rparr>"

definition sample_aggregator :: "int exchange_aggregator" where
  "sample_aggregator = NewExchangeAggregator zero_time
     \<lparr>EnableBinance = True, EnableKraken = True, EnableCoinbase = True, EnableBybit = True, EnableOKX = True, EnableGateIO = True\<rparr>"

theorem symbols_held_once_witness:
  "\<exists>m' a'. refresh_run \<lparr>AutoSubscribe = True, SubscriptionStrategy = ''all'', MaxSymbols = 0\<rparr>
      [(sample_time, sample_answer), (sample_time, sample_answer)] (NewSymbolManager NewSymbolFetcher, sample_aggregator) = Inr (m', a') \<and>
    held a' ''BTCUSDT'' ''1m'' = 1"
proof -
  let ?cfg = "\<lparr>AutoSubscribe = True, SubscriptionStrategy = ''all'', MaxSymbols = 0\<rparr>"
  let ?evs = "[(sample_time, sample_answer), (sample_time, sample_answer)]"
  obtain m' a' where run: "refresh_run ?cfg ?evs (NewSymbolManager NewSymbolFetcher, sample_aggregator) = Inr (m', a')"
      "GetSubscribedSymbols m' = [''BTCUSDT'', ''ETHUSDT'']"
    by (simp add: refresh_run_def periodicRefresh_def refreshAndSubscribe_def NewSymbolManager_def NewSymbolFetcher_def
        GetSymbols_def FetchSymbols_def sample_answer_def applyStrategy_def subscribe_new_def GetSubscribedSymbols_def
        t_Sub_def clamp_bits_def sample_time_def zero_time_def)
  have "sub_sim sample_aggregator {#}" unfolding sample_aggregator_def by (rule sub_sim_New)
  from symbols_held_once [OF this run(1), of 87, unfolded run(2)]
  have "held a' ''BTCUSDT'' ''1m'' = int (length (filter (\<lambda>s. to_upper s = ''BTCUSDT'') [''BTCUSDT'', ''ETHUSDT'']))"
    by (simp add: answer_size_def sample_answer_def NewSymbolFetcher_def DefaultSymbols_def)
  also have "\<dots> = 1" by code_simp
  finally show ?thesis using run(1) by blast
qed

end
