(* ===== verification/Grpc_Handlers.thy ===== *)
theory Grpc_Handlers
  imports Candle_Service Mark_Price Symbols
begin

text \<open>
  \<open>internal/grpc\<close>: the handlers of candles, prices and mark prices and the conversion to protobuf messages.
  A handler works on the candle service and on the exchange aggregator behind it. The generated
  messages of \<open>proto/marketpb\<close> are records with the fields the handlers set; a timestamp is its seconds and nanoseconds.
\<close>

section \<open>Messages\<close>

datatype grpc_code = InvalidArgument | NotFound | Internal

definition toGRPCError :: "string \<Rightarrow> grpc_code" where
  "toGRPCError err =
     (if err = ''not found'' \<or> err = ''record not found'' then NotFound
      else if err = ''invalid argument'' \<or> err = ''invalid input'' then InvalidArgument
      else Internal)"

definition timestamp :: "gotime \<Rightarrow> int \<times> int" where
  "timestamp t = (t_Unix t, t_ns t mod Second)"

record pb_candle =
  pc_Symbol :: string
  pc_Interval :: string
  pc_OpenTime :: int
  pc_CloseTime :: int
  pc_Open :: string
  pc_High :: string
  pc_Low :: string
  pc_Close :: string
  pc_Volume :: string
  pc_QuoteVolume :: string
  pc_TradeCount :: "32 word"
  pc_IsClosed :: bool
  pc_Source :: string
  pc_ContractType :: string

definition candleToProto :: "'d decimal_ops \<Rightarrow> 'd candle \<Rightarrow> pb_candle" where
  "candleToProto D c = \<lparr>pc_Symbol = c_Symbol c, pc_Interval = c_Interval c, pc_OpenTime = t_UnixMilli (c_OpenTime c),
     pc_CloseTime = t_UnixMilli (c_CloseTime c), pc_Open = d_String D (c_Open c), pc_High = d_String D (c_High c),
     pc_Low = d_String D (c_Low c), pc_Close = d_String D (c_Close c), pc_Volume = d_String D (c_Volume c),
     pc_QuoteVolume = d_String D (c_QuoteVolume c), pc_TradeCount = word_of_int (c_TradeCount c),
     pc_IsClosed = c_IsClosed c, pc_Source = c_Source c, pc_ContractType = c_ContractType c\<rparr>"

record pb_price =
  pp_Symbol :: string
  pp_LastPrice :: string
  pp_PriceChange_24H :: string
  pp_PriceChange_24HPercent :: string
  pp_High_24H :: string
  pp_Low_24H :: string
  pp_Volume_24H :: string
  pp_QuoteVolume_24H :: string
  pp_UpdatedAt :: "int \<times> int"

definition priceToProto :: "'d decimal_ops \<Rightarrow> 'd price \<Rightarrow> pb_price" where
  "priceToProto D p = \<lparr>pp_Symbol = p_Symbol p, pp_LastPrice = d_String D (p_LastPrice p),
     pp_PriceChange_24H = d_String D (p_PriceChange24h p), pp_PriceChange_24HPercent = d_String D (p_PriceChange24P p),
     pp_High_24H = d_String D (p_High24h p), pp_Low_24H = d_String D (p_Low24h p), pp_Volume_24H = d_String D (p_Volume24h p),
     pp_QuoteVolume_24H = d_String D (p_QuoteVolume24h p), pp_UpdatedAt = timestamp (p_UpdatedAt p)\<rparr>"

record pb_mark_price =
  pm_Symbol :: string
  pm_MarkPrice :: string
  pm_IndexPrice :: string
  pm_LastPrice :: string
  pm_FundingBasis :: string
  pm_EstimatedFundingRate :: string
  pm_NextFundingTime :: "int \<times> int"
  pm_Timestamp :: "int \<times> int"

definition markPriceToProto :: "'d decimal_ops \<Rightarrow> 'd mark_price \<Rightarrow> pb_mark_price" where
  "markPriceToProto D mp = \<lparr>pm_Symbol = mp_Symbol mp, pm_MarkPrice = d_String D (mp_MarkPrice mp),
     pm_IndexPrice = d_String D (mp_IndexPrice mp), pm_LastPrice = d_String D (mp_LastPrice mp),
     pm_FundingBasis = d_String D (mp_FundingBasis mp), pm_EstimatedFundingRate = d_String D (mp_EstimatedFundingRate mp),
     pm_NextFundingTime = timestamp (mp_NextFundingTime mp), pm_Timestamp = timestamp (mp_Timestamp mp)\<rparr>"

section \<open>Candle and price handlers\<close>

text \<open>
  What the handlers reach through the services: the decimal package, Redis, the configuration, the
  repository, the aggregator's memory, and the text of the error the repository returns; \<open>b_zone\<close> is the offset of
  the local time zone that \<open>time.UnixMilli\<close> uses.
\<close>

record ('d, 'r) backend =
  b_D :: "'d decimal_ops"
  b_R :: "('r, 'd cached) redis_ops"
  b_cfg :: service_config
  b_getc :: "'d get_candles"
  b_mem :: "string \<Rightarrow> string \<Rightarrow> 'd candle option"
  b_latest :: "string \<Rightarrow> string \<Rightarrow> string \<Rightarrow> string \<Rightarrow> 'd candle option"
  b_avail :: "string list option"
  b_err :: string
  b_zone :: int

record ('d, 'r) server =
  gs_svc :: "('d, 'r) candle_service"
  gs_agg :: "'d exchange_aggregator"

text \<open>A failed subscription is logged and otherwise ignored.\<close>

definition srv_subscribe :: "string \<Rightarrow> string \<Rightarrow> ('d, 'r) server \<Rightarrow> ('d, 'r) server" where
  "srv_subscribe symbol interval g =
     (case sv_delegate (SubscribeToInterval symbol interval) (gs_svc g) (gs_agg g) of None \<Rightarrow> g | Some a \<Rightarrow> g\<lparr>gs_agg := a\<rparr>)"

definition srv_unsubscribe :: "string \<Rightarrow> string \<Rightarrow> ('d, 'r) server \<Rightarrow> ('d, 'r) server" where
  "srv_unsubscribe symbol interval g =
     (case sv_delegate (UnsubscribeFromInterval symbol interval) (gs_svc g) (gs_agg g) of None \<Rightarrow> g | Some a \<Rightarrow> g\<lparr>gs_agg := a\<rparr>)"

record candles_request =
  cr_Symbol :: string
  cr_Interval :: string
  cr_StartTime :: "int option"
  cr_EndTime :: "int option"
  cr_Limit :: int                        \<comment> \<open>0 when absent\<close>
  cr_Source :: string                    \<comment> \<open>empty when absent\<close>
  cr_ContractType :: string

definition grpc_GetCandles ::
  "('d, 'r) backend \<Rightarrow> gotime \<Rightarrow> candles_request \<Rightarrow> ('d, 'r) server \<Rightarrow> (grpc_code + pb_candle list) \<times> ('d, 'r) server" where
  "grpc_GetCandles B now req g =
     (if cr_Symbol req = '''' then (Inl InvalidArgument, g)
      else if cr_Interval req = '''' then (Inl InvalidArgument, g)
      else
        let g = srv_subscribe (cr_Symbol req) (cr_Interval req) g;
            startTime = (case cr_StartTime req of None \<Rightarrow> zero_time | Some ms \<Rightarrow> time_UnixMilli (b_zone B) ms);
            endTime = (case cr_EndTime req of None \<Rightarrow> zero_time | Some ms \<Rightarrow> time_UnixMilli (b_zone B) ms);
            limit = (if cr_Limit req = 0 then sc_DefaultCandlesLimit (b_cfg B) else cr_Limit req);
            contractType = (if cr_ContractType req = '''' then ''spot'' else cr_ContractType req)
        in case sv_GetCandles (b_R B) (b_cfg B) (b_getc B) now (cr_Symbol req) (cr_Interval req) (cr_Source req) contractType
                  startTime endTime limit (gs_svc g) of
             (None, s) \<Rightarrow> (Inl (toGRPCError (b_err B)), g\<lparr>gs_svc := s\<rparr>)
           | (Some candles, s) \<Rightarrow> (Inr (map (candleToProto (b_D B)) candles), g\<lparr>gs_svc := s\<rparr>))"

text \<open>The service never returns a nil candle without an error, so the branch for one does not occur.\<close>

definition grpc_GetLatestCandle ::
  "('d, 'r) backend \<Rightarrow> gotime \<Rightarrow> candles_request \<Rightarrow> ('d, 'r) server \<Rightarrow> (grpc_code + pb_candle) \<times> ('d, 'r) server" where
  "grpc_GetLatestCandle B now req g =
     (if cr_Symbol req = '''' then (Inl InvalidArgument, g)
      else if cr_Interval req = '''' then (Inl InvalidArgument, g)
      else
        let g = srv_subscribe (cr_Symbol req) (cr_Interval req) g;
            contractType = (if cr_ContractType req = '''' then ''spot'' else cr_ContractType req)
        in case sv_GetLatestCandle (b_D B) (b_R B) (b_cfg B) (b_mem B) (b_latest B) now (cr_Symbol req) (cr_Interval req)
                  (cr_Source req) contractType (gs_svc g) of
             (None, s) \<Rightarrow> (Inl (toGRPCError (b_err B)), g\<lparr>gs_svc := s\<rparr>)
           | (Some candle, s) \<Rightarrow> (Inr (candleToProto (b_D B) candle), g\<lparr>gs_svc := s\<rparr>))"

definition srv_ticker :: "('d, 'r) backend \<Rightarrow> gotime \<Rightarrow> string \<Rightarrow> ('d, 'r) candle_service \<Rightarrow> 'd price option \<times> ('d, 'r) candle_service" where
  "srv_ticker B now symbol s = GetPriceTicker (b_D B) (b_R B) (b_cfg B) (b_getc B) (b_mem B) (b_latest B) now symbol s"

text \<open>The error of \<open>GetPriceTicker\<close> carries the text of the repository's error behind a prefix, so its code is \<open>Internal\<close>.\<close>

definition grpc_GetPrice ::
  "('d, 'r) backend \<Rightarrow> gotime \<Rightarrow> string \<Rightarrow> ('d, 'r) server \<Rightarrow> (grpc_code + pb_price) \<times> ('d, 'r) server" where
  "grpc_GetPrice B now symbol g =
     (if symbol = '''' then (Inl InvalidArgument, g)
      else
        let g = srv_subscribe symbol ''1m'' g
        in case srv_ticker B now symbol (gs_svc g) of
             (None, s) \<Rightarrow> (Inl (toGRPCError (''failed to get latest candle: '' @ b_err B)), g\<lparr>gs_svc := s\<rparr>)
           | (Some price, s) \<Rightarrow> (Inr (priceToProto (b_D B) price), g\<lparr>gs_svc := s\<rparr>))"

definition grpc_GetPrices ::
  "('d, 'r) backend \<Rightarrow> gotime \<Rightarrow> string list \<Rightarrow> ('d, 'r) server \<Rightarrow> (grpc_code + pb_price list) \<times> ('d, 'r) server" where
  "grpc_GetPrices B now symbols g =
     (let g = fold (\<lambda>symbol. srv_subscribe symbol ''1m'') symbols g
      in case GetPriceTickers (b_D B) (b_R B) (b_cfg B) (b_getc B) (b_mem B) (b_latest B) (b_avail B) now symbols (gs_svc g) of
           (None, s) \<Rightarrow> (Inl (toGRPCError (''failed to get available symbols: '' @ b_err B)), g\<lparr>gs_svc := s\<rparr>)
         | (Some prices, s) \<Rightarrow> (Inr (map (priceToProto (b_D B)) prices), g\<lparr>gs_svc := s\<rparr>))"

section \<open>Streams\<close>

text \<open>
  The loop of a stream. An event is the end of the client's context, a nil message, a message that cannot be
  parsed, or a candle with the time of its arrival and the answer of \<open>stream.Send\<close>. The result is how the stream ended (\<open>None\<close> while it still waits for an
  event, \<open>Some True\<close> after a regular end) and what was sent; \<open>f\<close> makes the update of a candle, if any.
\<close>

datatype 'd stream_event = CtxDone | NilMessage | Unparsable | CandleMessage gotime "'d candle" bool

fun stream_loop ::
  "(gotime \<Rightarrow> 'd candle \<Rightarrow> 's \<Rightarrow> 'm option \<times> 's) \<Rightarrow> 'd stream_event list \<Rightarrow> 's \<Rightarrow> 'm list \<Rightarrow> bool option \<times> 'm list \<times> 's" where
  "stream_loop f [] s sent = (None, sent, s)"
| "stream_loop f (CtxDone # evs) s sent = (Some True, sent, s)"
| "stream_loop f (NilMessage # evs) s sent = stream_loop f evs s sent"
| "stream_loop f (Unparsable # evs) s sent = stream_loop f evs s sent"
| "stream_loop f (CandleMessage now c ok # evs) s sent =
     (case f now c s of
        (None, s) \<Rightarrow> stream_loop f evs s sent
      | (Some m, s) \<Rightarrow> if ok then stream_loop f evs s (sent @ [m]) else (Some False, sent, s))"

text \<open>
  A stream handler is a first part, up to the subscription of the Redis channels, the loop, and the deferred
  release. \<open>confirmed\<close> is whether Redis confirmed, \<open>first_ok\<close> the answer to sending the initial candle.
\<close>

definition candles_channel :: "string \<Rightarrow> string \<Rightarrow> string" where
  "candles_channel symbol interval = ''nyyu:market:candle:'' @ symbol @ '':'' @ interval"

definition SubscribeCandles_begin :: "string \<Rightarrow> string \<Rightarrow> ('d, 'r) server \<Rightarrow> grpc_code + ('d, 'r) server" where
  "SubscribeCandles_begin symbol interval g =
     (if symbol = '''' then Inl InvalidArgument
      else if interval = '''' then Inl InvalidArgument
      else Inr (srv_subscribe symbol interval g))"

definition SubscribeCandles_body ::
  "('d, 'r) backend \<Rightarrow> gotime \<Rightarrow> string \<Rightarrow> string \<Rightarrow> string \<Rightarrow> bool \<Rightarrow> bool \<Rightarrow> 'd stream_event list \<Rightarrow> ('d, 'r) server \<Rightarrow>
   bool option \<times> pb_candle list \<times> ('d, 'r) server" where
  "SubscribeCandles_body B now symbol interval source confirmed first_ok evs g =
     (if \<not> confirmed then (Some False, [], g)
      else
        let update = (\<lambda>_ c s. (Some (candleToProto (b_D B) c), s)) in
        case sv_GetLatestCandle (b_D B) (b_R B) (b_cfg B) (b_mem B) (b_latest B) now symbol interval source ''spot'' (gs_svc g) of
          (None, s) \<Rightarrow> stream_loop update evs (g\<lparr>gs_svc := s\<rparr>) []
        | (Some initial, s) \<Rightarrow>
            if first_ok then stream_loop update evs (g\<lparr>gs_svc := s\<rparr>) [candleToProto (b_D B) initial]
            else (Some False, [], g\<lparr>gs_svc := s\<rparr>))"

definition SubscribeCandles_end :: "string \<Rightarrow> string \<Rightarrow> ('d, 'r) server \<Rightarrow> ('d, 'r) server" where
  "SubscribeCandles_end symbol interval g = srv_unsubscribe symbol interval g"

definition SubscribePrices_begin :: "string list \<Rightarrow> ('d, 'r) server \<Rightarrow> grpc_code + ('d, 'r) server" where
  "SubscribePrices_begin symbols g =
     (if length symbols = 0 then Inl InvalidArgument
      else Inr (fold (\<lambda>symbol. srv_subscribe symbol ''1m'') symbols g))"

text \<open>The initial prices: each symbol with the time it is asked for and the answer to sending its price; a failed one ends the stream.\<close>

fun initial_prices ::
  "('d, 'r) backend \<Rightarrow> (string \<times> gotime \<times> bool) list \<Rightarrow> ('d, 'r) server \<Rightarrow> pb_price list \<Rightarrow> bool \<times> pb_price list \<times> ('d, 'r) server" where
  "initial_prices B [] g sent = (True, sent, g)"
| "initial_prices B ((symbol, now, ok) # ss) g sent =
     (case srv_ticker B now symbol (gs_svc g) of
        (None, s) \<Rightarrow> initial_prices B ss (g\<lparr>gs_svc := s\<rparr>) sent
      | (Some price, s) \<Rightarrow>
          if ok then initial_prices B ss (g\<lparr>gs_svc := s\<rparr>) (sent @ [priceToProto (b_D B) price])
          else (False, sent, g\<lparr>gs_svc := s\<rparr>))"

definition price_update :: "('d, 'r) backend \<Rightarrow> gotime \<Rightarrow> 'd candle \<Rightarrow> ('d, 'r) server \<Rightarrow> pb_price option \<times> ('d, 'r) server" where
  "price_update B now candle g =
     (let (p, s) = ConvertCandleToPrice (b_D B) (b_getc B) now (Some candle) (gs_svc g)
      in (map_option (priceToProto (b_D B)) p, g\<lparr>gs_svc := s\<rparr>))"

definition SubscribePrices_body ::
  "('d, 'r) backend \<Rightarrow> (string \<times> gotime \<times> bool) list \<Rightarrow> bool \<Rightarrow> 'd stream_event list \<Rightarrow> ('d, 'r) server \<Rightarrow>
   bool option \<times> pb_price list \<times> ('d, 'r) server" where
  "SubscribePrices_body B symbols confirmed evs g =
     (if \<not> confirmed then (Some False, [], g)
      else
        case initial_prices B symbols g [] of
          (False, sent, g) \<Rightarrow> (Some False, sent, g)
        | (True, sent, g) \<Rightarrow> stream_loop (price_update B) evs g sent)"

definition SubscribePrices_end :: "string list \<Rightarrow> ('d, 'r) server \<Rightarrow> ('d, 'r) server" where
  "SubscribePrices_end symbols g = fold (\<lambda>symbol. srv_unsubscribe symbol ''1m'') symbols g"

section \<open>Mark price handlers\<close>

definition grpc_GetMarkPrice ::
  "'d decimal_ops \<Rightarrow> ('r, 'd cached) redis_ops \<Rightarrow> mark_config \<Rightarrow> (string \<Rightarrow> 'd \<times> int) \<Rightarrow> gotime \<Rightarrow> string \<Rightarrow> ('d, 'r) mark_service \<Rightarrow>
   ((grpc_code + pb_mark_price) \<times> ('d, 'r) mark_service) outcome" where
  "grpc_GetMarkPrice D R cfg agg now symbol s =
     (if symbol = '''' then Inr (Inl InvalidArgument, s)
      else obind (mk_GetMarkPrice D R cfg agg now symbol s) (\<lambda>(mp, s).
        case mp of None \<Rightarrow> Inr (Inl Internal, s) | Some m \<Rightarrow> Inr (Inr (markPriceToProto D m), s)))"

text \<open>The goroutines of \<open>GetMarkPrices\<close> answer in the order \<open>order\<close>; a symbol with an error is left out.\<close>

definition collect_mark ::
  "'d decimal_ops \<Rightarrow> ('r, 'd cached) redis_ops \<Rightarrow> mark_config \<Rightarrow> (string \<Rightarrow> 'd \<times> int) \<Rightarrow> gotime \<Rightarrow> string \<Rightarrow>
   pb_mark_price list \<times> ('d, 'r) mark_service \<Rightarrow> (pb_mark_price list \<times> ('d, 'r) mark_service) outcome" where
  "collect_mark D R cfg agg now symbol st =
     (case st of (mps, s) \<Rightarrow> obind (mk_GetMarkPrice D R cfg agg now symbol s) (\<lambda>(mp, s).
        case mp of None \<Rightarrow> Inr (mps, s) | Some m \<Rightarrow> Inr (mps @ [markPriceToProto D m], s)))"

definition grpc_GetMarkPrices ::
  "'d decimal_ops \<Rightarrow> ('r, 'd cached) redis_ops \<Rightarrow> mark_config \<Rightarrow> (string \<Rightarrow> 'd \<times> int) \<Rightarrow> symbols_answer \<Rightarrow> (string list \<Rightarrow> string list) \<Rightarrow>
   gotime \<Rightarrow> string list \<Rightarrow> symbol_fetcher \<Rightarrow> ('d, 'r) mark_service \<Rightarrow>
   ((grpc_code + pb_mark_price list) \<times> symbol_fetcher \<times> ('d, 'r) mark_service) outcome" where
  "grpc_GetMarkPrices D R cfg agg ans order now symbols f s =
     obind (if length symbols = 0 then GetPopularSymbols now ans 10 f else Inr (symbols, True, f)) (\<lambda>(symbols, ok, f).
       if \<not> ok then Inr (Inl Internal, f, s)
       else obind (ofold (collect_mark D R cfg agg now) (order symbols) ([], s)) (\<lambda>(mps, s). Inr (Inr mps, f, s)))"

section \<open>Who holds the subscriptions\<close>

lemma service_keeps_agg [simp]:
  "sv_exchangeAgg (snd (sv_GetCandles R cfg getc now symbol interval source ct st en k s)) = sv_exchangeAgg s"
  "sv_exchangeAgg (snd (sv_GetLatestCandle D R cfg mem latest now symbol interval source ct s)) = sv_exchangeAgg s"
  "sv_exchangeAgg (snd (candle_price D getc now symbol c s)) = sv_exchangeAgg s"
  by (auto simp: sv_GetCandles_def sv_GetLatestCandle_def candle_price_def Let_def split: option.split list.split prod.split)

lemma ticker_keeps_agg [simp]:
  "sv_exchangeAgg (snd (GetPriceTicker D R cfg getc mem latest now symbol s)) = sv_exchangeAgg s"
proof -
  obtain c s1 where l: "sv_GetLatestCandle D R cfg mem latest now symbol ''1m'' '''' ''spot'' s = (c, s1)" by fastforce
  then have "sv_exchangeAgg s1 = sv_exchangeAgg s"
    using service_keeps_agg(2) [of D R cfg mem latest now symbol "''1m''" "''''" "''spot''" s] by simp
  then show ?thesis by (simp add: GetPriceTicker_def l split_beta split: option.split)
qed

lemma tickers_keep_agg:
  "sv_exchangeAgg (snd (fold (ticker_step (GetPriceTicker D R cfg getc mem latest now)) symbols (ps, s))) = sv_exchangeAgg s"
proof (induction symbols arbitrary: ps s)
  case (Cons x symbols)
  obtain p s1 where t: "GetPriceTicker D R cfg getc mem latest now x s = (p, s1)" by fastforce
  then have "sv_exchangeAgg s1 = sv_exchangeAgg s" using ticker_keeps_agg [of D R cfg getc mem latest now x s] by simp
  then show ?case using Cons.IH by (cases p) (simp_all add: ticker_step_def t)
qed simp

lemma srv_subscribe_eq:
  "sv_exchangeAgg (gs_svc g) \<Longrightarrow> srv_subscribe symbol i g = g\<lparr>gs_agg := SubscribeToInterval symbol i (gs_agg g)\<rparr>"
  "sv_exchangeAgg (gs_svc g) \<Longrightarrow> srv_unsubscribe symbol i g = g\<lparr>gs_agg := UnsubscribeFromInterval symbol i (gs_agg g)\<rparr>"
  by (simp_all add: srv_subscribe_def srv_unsubscribe_def sv_delegate_def)

lemma srv_subscribe_all:
  assumes "sv_exchangeAgg (gs_svc g)"
  shows "fold (\<lambda>symbol. srv_subscribe symbol i) symbols g = g\<lparr>gs_agg := fold (\<lambda>symbol. SubscribeToInterval symbol i) symbols (gs_agg g)\<rparr>"
  using assms by (induction symbols arbitrary: g) (simp_all add: srv_subscribe_eq)

lemma srv_unsubscribe_all:
  assumes "sv_exchangeAgg (gs_svc g)"
  shows "fold (\<lambda>symbol. srv_unsubscribe symbol i) symbols g = g\<lparr>gs_agg := fold (\<lambda>symbol. UnsubscribeFromInterval symbol i) symbols (gs_agg g)\<rparr>"
  using assms by (induction symbols arbitrary: g) (simp_all add: srv_subscribe_eq)

text \<open>A server whose aggregator is set and holds the multiset \<open>M\<close> of subscriptions.\<close>

definition srv_holds :: "('d, 'r) server \<Rightarrow> (string \<times> string) multiset \<Rightarrow> bool" where
  "srv_holds g M \<longleftrightarrow> sv_exchangeAgg (gs_svc g) \<and> sub_sim (gs_agg g) M"

definition asked :: "string \<Rightarrow> string list \<Rightarrow> (string \<times> string) multiset" where
  "asked i symbols = image_mset (\<lambda>symbol. (to_upper symbol, i)) (mset symbols)"

context subscription_interface
begin

lemma sim_unsubscribe_all:
  "sim a (M + image_mset (\<lambda>symbol. (canon symbol, i)) (mset ss)) \<Longrightarrow> sim (fold (\<lambda>symbol. unsubscribe symbol i) ss a) M"
proof (induction ss arbitrary: a)
  case (Cons symbol ss)
  have "sim (unsubscribe symbol i a) (M + image_mset (\<lambda>symbol. (canon symbol, i)) (mset ss))"
    using sim_unsubscribe [OF Cons.prems, of symbol i] by simp
  from Cons.IH [OF this] show ?case by simp
qed simp

end

lemma holds_subscribe:
  assumes "srv_holds g M" "size M + length symbols \<le> 2 ^ 31 - 1"
  shows "srv_holds (fold (\<lambda>symbol. srv_subscribe symbol i) symbols g) (M + asked i symbols)"
  using assms subs.sim_subscribe_all [of "gs_agg g" M symbols i]
  by (simp add: srv_holds_def srv_subscribe_all asked_def)

lemma holds_subscribe_one:
  assumes "srv_holds g M" "size M < 2 ^ 31 - 1"
  shows "srv_holds (srv_subscribe symbol i g) (add_mset (to_upper symbol, i) M)"
  using holds_subscribe [of g M "[symbol]" i] assms by (simp add: asked_def)

lemma holds_unsubscribe:
  assumes "srv_holds g (M + asked i symbols)"
  shows "srv_holds (fold (\<lambda>symbol. srv_unsubscribe symbol i) symbols g) M"
  using assms subs.sim_unsubscribe_all [of "gs_agg g" M i symbols]
  by (simp add: srv_holds_def srv_unsubscribe_all asked_def)

lemma holds_cong: "srv_holds g M \<Longrightarrow> gs_agg g' = gs_agg g \<Longrightarrow> sv_exchangeAgg (gs_svc g') = sv_exchangeAgg (gs_svc g) \<Longrightarrow> srv_holds g' M"
  by (simp add: srv_holds_def)

text \<open>What each call leaves behind: a unary call keeps the subscription it made.\<close>

definition request_subs :: "candles_request \<Rightarrow> (string \<times> string) multiset" where
  "request_subs req = (if cr_Symbol req = '''' \<or> cr_Interval req = '''' then {#} else {#(to_upper (cr_Symbol req), cr_Interval req)#})"

text \<open>Every unary handler ends by storing the service's new state, with or without an error.\<close>

lemma handler_end:
  "snd (case r of (None, s) \<Rightarrow> (e, g\<lparr>gs_svc := s\<rparr>) | (Some x, s) \<Rightarrow> (f x, g\<lparr>gs_svc := s\<rparr>)) = g\<lparr>gs_svc := snd r\<rparr>"
  by (simp split: prod.split option.split)

lemma GetCandles_holds:
  assumes "srv_holds g M" "size M < 2 ^ 31 - 1"
  shows "srv_holds (snd (grpc_GetCandles B now req g)) (M + request_subs req)"
proof (cases "cr_Symbol req = '''' \<or> cr_Interval req = ''''")
  case False
  then show ?thesis
    using holds_subscribe_one [OF assms, of "cr_Symbol req" "cr_Interval req"]
    by (simp add: grpc_GetCandles_def Let_def handler_end request_subs_def srv_holds_def)
qed (use assms(1) in \<open>auto simp: grpc_GetCandles_def request_subs_def\<close>)

lemma GetLatestCandle_holds:
  assumes "srv_holds g M" "size M < 2 ^ 31 - 1"
  shows "srv_holds (snd (grpc_GetLatestCandle B now req g)) (M + request_subs req)"
proof (cases "cr_Symbol req = '''' \<or> cr_Interval req = ''''")
  case False
  then show ?thesis
    using holds_subscribe_one [OF assms, of "cr_Symbol req" "cr_Interval req"]
    by (simp add: grpc_GetLatestCandle_def Let_def handler_end request_subs_def srv_holds_def)
qed (use assms(1) in \<open>auto simp: grpc_GetLatestCandle_def request_subs_def\<close>)

lemma GetPrice_holds:
  assumes "srv_holds g M" "size M < 2 ^ 31 - 1"
  shows "srv_holds (snd (grpc_GetPrice B now symbol g)) (M + (if symbol = '''' then {#} else asked ''1m'' [symbol]))"
proof (cases "symbol = ''''")
  case False
  then show ?thesis
    using holds_subscribe_one [OF assms, of symbol "''1m''"]
    by (simp add: grpc_GetPrice_def srv_ticker_def Let_def handler_end asked_def srv_holds_def)
qed (use assms(1) in \<open>simp add: grpc_GetPrice_def\<close>)

lemma GetPriceTickers_keeps_agg [simp]:
  "sv_exchangeAgg (snd (GetPriceTickers D R cfg getc mem latest avail now ss s)) = sv_exchangeAgg s"
  by (simp add: GetPriceTickers_def tickers_keep_agg split_beta split: option.split)

lemma GetPrices_holds:
  assumes "srv_holds g M" "size M + length symbols \<le> 2 ^ 31 - 1"
  shows "srv_holds (snd (grpc_GetPrices B now symbols g)) (M + asked ''1m'' symbols)"
  using holds_subscribe [OF assms, of "''1m''"]
  by (simp add: grpc_GetPrices_def Let_def handler_end srv_holds_def)

section \<open>The bodies of the streams leave the aggregator alone\<close>

lemma stream_loop_keeps:
  assumes step: "\<And>now c s. P s \<Longrightarrow> P (snd (f now c s))" and "P s"
  shows "P (snd (snd (stream_loop f evs s sent)))"
  using assms(2)
proof (induction evs arbitrary: s sent)
  case (Cons e evs)
  show ?case
  proof (cases e)
    case (CandleMessage now c ok)
    obtain m s1 where f: "f now c s = (m, s1)" by fastforce
    then have "P s1" using step [OF Cons.prems, of now c] by simp
    then show ?thesis using Cons.IH by (cases m) (simp_all add: CandleMessage f)
  qed (use Cons in simp_all)
qed simp

lemma candles_body_holds:
  assumes "srv_holds g M"
  shows "srv_holds (snd (snd (SubscribeCandles_body B now symbol interval source confirmed first_ok evs g))) M"
proof -
  let ?l = "sv_GetLatestCandle (b_D B) (b_R B) (b_cfg B) (b_mem B) (b_latest B) now symbol interval source ''spot'' (gs_svc g)"
  obtain c s where l: "?l = (c, s)" by (cases ?l)
  then have "sv_exchangeAgg s = sv_exchangeAgg (gs_svc g)" by (metis service_keeps_agg(2) snd_conv)
  then have s: "srv_holds (g\<lparr>gs_svc := s\<rparr>) M" using assms by (simp add: srv_holds_def)
  have "srv_holds (snd (snd (stream_loop (\<lambda>_ c s. (Some (candleToProto (b_D B) c), s)) evs (g\<lparr>gs_svc := s\<rparr>) sent))) M" for sent
    using s by (rule stream_loop_keeps [where P = "\<lambda>g. srv_holds g M", rotated]) simp
  then show ?thesis using assms s by (cases c) (simp_all add: SubscribeCandles_body_def l)
qed

lemma initial_prices_holds:
  assumes "srv_holds g M"
  shows "srv_holds (snd (snd (initial_prices B ss g sent))) M"
  using assms
proof (induction ss arbitrary: g sent)
  case (Cons x ss)
  obtain symbol now ok where x: "x = (symbol, now, ok)" by (cases x)
  obtain p s where t: "srv_ticker B now symbol (gs_svc g) = (p, s)" by (cases "srv_ticker B now symbol (gs_svc g)")
  then have "sv_exchangeAgg s = sv_exchangeAgg (gs_svc g)" unfolding srv_ticker_def by (metis ticker_keeps_agg snd_conv)
  then have "srv_holds (g\<lparr>gs_svc := s\<rparr>) M" using Cons.prems by (simp add: srv_holds_def)
  then show ?case using Cons.IH by (cases p) (simp_all add: x t)
qed simp

lemma prices_body_holds:
  assumes "srv_holds g M"
  shows "srv_holds (snd (snd (SubscribePrices_body B symbols confirmed evs g))) M"
proof -
  obtain ok sent g1 where i: "initial_prices B symbols g [] = (ok, sent, g1)" by (cases "initial_prices B symbols g []") auto
  then have "srv_holds g1 M" using initial_prices_holds [OF assms, of B symbols "[]"] by simp
  moreover have "srv_holds (snd (price_update B now c s)) M" if "srv_holds s M" for now c s
    using that by (simp add: price_update_def ConvertCandleToPrice_def srv_holds_def split_beta)
  ultimately have "srv_holds (snd (snd (stream_loop (price_update B) evs g1 sent))) M"
    by (rule stream_loop_keeps [where P = "\<lambda>g. srv_holds g M", rotated])
  then show ?thesis using assms \<open>srv_holds g1 M\<close> by (cases ok) (simp_all add: SubscribePrices_body_def i)
qed

section \<open>Any interleaving of requests\<close>

text \<open>
  The server with the streams that are open and, for the specification, the subscriptions made by unary
  calls. A stream begins, works and ends in separate steps, between which others run; a step that
  subscribes has room in the 32-bit counters.
\<close>

datatype open_stream = CandleStream string string | PriceStream "string list"

fun stream_subs :: "open_stream \<Rightarrow> (string \<times> string) multiset" where
  "stream_subs (CandleStream symbol interval) = {#(to_upper symbol, interval)#}"
| "stream_subs (PriceStream symbols) = asked ''1m'' symbols"

definition all_subs :: "open_stream multiset \<Rightarrow> (string \<times> string) multiset \<Rightarrow> (string \<times> string) multiset" where
  "all_subs os lk = lk + (\<Sum>st\<in>#os. stream_subs st)"

type_synonym ('d, 'r) serving = "('d, 'r) server \<times> open_stream multiset \<times> (string \<times> string) multiset"

inductive serve :: "('d, 'r) backend \<Rightarrow> ('d, 'r) serving \<Rightarrow> ('d, 'r) serving \<Rightarrow> bool" for B where
  serve_candles: "size (all_subs os lk) < 2 ^ 31 - 1 \<Longrightarrow>
    serve B (g, os, lk) (snd (grpc_GetCandles B now req g), os, lk + request_subs req)"
| serve_latest: "size (all_subs os lk) < 2 ^ 31 - 1 \<Longrightarrow>
    serve B (g, os, lk) (snd (grpc_GetLatestCandle B now req g), os, lk + request_subs req)"
| serve_price: "size (all_subs os lk) < 2 ^ 31 - 1 \<Longrightarrow>
    serve B (g, os, lk) (snd (grpc_GetPrice B now symbol g), os, lk + (if symbol = '''' then {#} else asked ''1m'' [symbol]))"
| serve_prices: "size (all_subs os lk) + length symbols \<le> 2 ^ 31 - 1 \<Longrightarrow>
    serve B (g, os, lk) (snd (grpc_GetPrices B now symbols g), os, lk + asked ''1m'' symbols)"
| candles_begin: "size (all_subs os lk) < 2 ^ 31 - 1 \<Longrightarrow> SubscribeCandles_begin symbol interval g = Inr g' \<Longrightarrow>
    serve B (g, os, lk) (g', add_mset (CandleStream symbol interval) os, lk)"
| candles_body: "CandleStream symbol interval \<in># os \<Longrightarrow>
    serve B (g, os, lk) (snd (snd (SubscribeCandles_body B now symbol interval source confirmed first_ok evs g)), os, lk)"
| candles_end: "CandleStream symbol interval \<in># os \<Longrightarrow>
    serve B (g, os, lk) (SubscribeCandles_end symbol interval g, os - {#CandleStream symbol interval#}, lk)"
| prices_begin: "size (all_subs os lk) + length symbols \<le> 2 ^ 31 - 1 \<Longrightarrow> SubscribePrices_begin symbols g = Inr g' \<Longrightarrow>
    serve B (g, os, lk) (g', add_mset (PriceStream symbols) os, lk)"
| prices_body: "PriceStream (map fst asks) \<in># os \<Longrightarrow>
    serve B (g, os, lk) (snd (snd (SubscribePrices_body B asks confirmed evs g)), os, lk)"
| prices_end: "PriceStream symbols \<in># os \<Longrightarrow>
    serve B (g, os, lk) (SubscribePrices_end symbols g, os - {#PriceStream symbols#}, lk)"

lemma all_subs_simps:
  "all_subs os (lk + X) = all_subs os lk + X"
  "all_subs (add_mset st os) lk = all_subs os lk + stream_subs st"
  "st \<in># os \<Longrightarrow> all_subs os lk = all_subs (os - {#st#}) lk + stream_subs st"
  by (auto simp: all_subs_def dest!: multi_member_split)

lemma serve_holds:
  assumes "serve B (g, os, lk) (g', os', lk')" "srv_holds g (all_subs os lk)"
  shows "srv_holds g' (all_subs os' lk')"
  using assms(1)
proof cases
  case serve_candles
  then show ?thesis using GetCandles_holds [OF assms(2)] by (simp add: all_subs_simps)
next
  case serve_latest
  then show ?thesis using GetLatestCandle_holds [OF assms(2)] by (simp add: all_subs_simps)
next
  case (serve_price now symbol)
  then show ?thesis using GetPrice_holds [OF assms(2), of B now symbol] by (simp add: all_subs_simps)
next
  case serve_prices
  then show ?thesis using GetPrices_holds [OF assms(2)] by (simp add: all_subs_simps)
next
  case (candles_begin symbol interval)
  then show ?thesis using holds_subscribe_one [OF assms(2), of symbol interval]
    by (auto simp: SubscribeCandles_begin_def all_subs_simps split: if_splits)
next
  case candles_body
  then show ?thesis using candles_body_holds [OF assms(2)] by simp
next
  case (candles_end symbol interval)
  then show ?thesis using holds_unsubscribe [of g "all_subs os' lk" interval "[symbol]"] assms(2) all_subs_simps(3) [OF candles_end(4), of lk]
    by (simp add: SubscribeCandles_end_def asked_def)
next
  case (prices_begin symbols)
  then show ?thesis using holds_subscribe [OF assms(2), of symbols "''1m''"]
    by (auto simp: SubscribePrices_begin_def all_subs_simps split: if_splits)
next
  case prices_body
  then show ?thesis using prices_body_holds [OF assms(2)] by simp
next
  case (prices_end symbols)
  then show ?thesis using holds_unsubscribe [of g "all_subs os' lk" "''1m''" symbols] assms(2) all_subs_simps(3) [OF prices_end(4), of lk]
    by (simp add: SubscribePrices_end_def)
qed

lemma serve_run_holds:
  assumes "(serve B)\<^sup>*\<^sup>* (g0, {#}, {#}) (g, os, lk)" "srv_holds g0 {#}"
  shows "srv_holds g (all_subs os lk)"
proof -
  have "case (g, os, lk) of (g, os, lk) \<Rightarrow> srv_holds g (all_subs os lk)"
    using assms(1)
  proof (induction rule: rtranclp_induct)
    case base
    then show ?case using assms(2) by (simp add: all_subs_def)
  next
    case (step y z)
    then show ?case using serve_holds by (auto split: prod.splits)
  qed
  then show ?thesis by simp
qed

text \<open>
  C10. Streams release, unary calls do not. Serve any sequence of requests, streams beginning, working and
  ending in any interleaving, from a server whose aggregator holds nothing. Then the aggregator holds exactly one
  subscription for each subscription of the streams that are open and for each one a unary call ever made. When no
  stream is open and no unary call was made, nothing is held and every exchange stream is down; a
  symbol that was once asked for by a unary call keeps its exchange stream up for good.
\<close>

theorem streams_release_unary_calls_leak:
  assumes "(serve B)\<^sup>*\<^sup>* (g0, {#}, {#}) (g, os, lk)"
    and "sv_exchangeAgg (gs_svc g0)" "gs_agg g0 = NewExchangeAggregator now cfg"
  shows "(\<forall>S i. held (gs_agg g) S i = int (count lk (S, i)) + (\<Sum>st\<in>#os. int (count (stream_subs st) (S, i)))) \<and>
    (os = {#} \<and> lk = {#} \<longrightarrow> (\<forall>S. to_upper S = S \<longrightarrow> stream_refs (gs_agg g) S = 0)) \<and>
    (\<forall>S i. (to_upper S, i) \<in># lk \<longrightarrow> 0 < stream_refs (gs_agg g) (to_upper S))"
proof -
  have "srv_holds g0 {#}" using assms(2,3) sub_sim_New by (simp add: srv_holds_def)
  then have sim: "sub_sim (gs_agg g) (all_subs os lk)" using serve_run_holds [OF assms(1)] by (simp add: srv_holds_def)
  have "int (count (\<Sum>st\<in>#os. stream_subs st) p) = (\<Sum>st\<in>#os. int (count (stream_subs st) p))" for p
    by (induction os) simp_all
  moreover have "0 < stream_refs (gs_agg g) (to_upper S)" if "(to_upper S, i) \<in># lk" for S i
  proof -
    have "(to_upper S, i) \<in># filter_mset (\<lambda>p. fst p = to_upper S) (all_subs os lk)" using that by (simp add: all_subs_def)
    then show ?thesis using sim nonempty_has_size unfolding sub_sim_def by fastforce
  qed
  ultimately show ?thesis using sim by (simp add: sub_sim_def all_subs_def)
qed

text \<open>A price request, then a price stream that comes and goes: the subscription of the request stays.\<close>

definition sample_backend :: "(fixdec, (string, fixdec cached \<times> int) gomap) backend" where
  "sample_backend = \<lparr>b_D = fd_ops, b_R = map_redis, b_cfg = sample_config, b_getc = (\<lambda>_ _ _ _ _ _ _. Some []),
     b_mem = (\<lambda>_ _. None), b_latest = (\<lambda>_ _ _ _. None), b_avail = Some [], b_err = ''sql: no rows in result set'', b_zone = 0\<rparr>"

definition sample_server :: "(fixdec, (string, fixdec cached \<times> int) gomap) server" where
  "sample_server = \<lparr>gs_svc = SetExchangeAggregator (NewService []), gs_agg = NewExchangeAggregator zero_time
     \<lparr>EnableBinance = True, EnableKraken = True, EnableCoinbase = True, EnableBybit = True, EnableOKX = True, EnableGateIO = True\<rparr>\<rparr>"

theorem streams_release_unary_calls_leak_witness:
  "\<exists>g. (serve sample_backend)\<^sup>*\<^sup>* (sample_server, {#}, {#}) (g, {#}, {#(''BTCUSDT'', ''1m'')#}) \<and>
    held (gs_agg g) ''BTCUSDT'' ''1m'' = 1 \<and> 0 < stream_refs (gs_agg g) ''BTCUSDT''"
proof -
  define g1 where "g1 = snd (grpc_GetPrice sample_backend zero_time ''BTCUSDT'' sample_server)"
  define g2 where "g2 = fold (\<lambda>symbol. srv_subscribe symbol ''1m'') [''ETHUSDT''] g1"
  define g3 where "g3 = SubscribePrices_end [''ETHUSDT''] g2"
  have up: "to_upper ''BTCUSDT'' = ''BTCUSDT''" "to_upper ''ETHUSDT'' = ''ETHUSDT''" by code_simp+
  have 1: "serve sample_backend (sample_server, {#}, {#}) (g1, {#}, {#(''BTCUSDT'', ''1m'')#})"
    using serve_price [of "{#}" "{#}" sample_backend sample_server zero_time "''BTCUSDT''"] by (simp add: all_subs_def asked_def up g1_def)
  have 2: "serve sample_backend (g1, {#}, {#(''BTCUSDT'', ''1m'')#}) (g2, {#PriceStream [''ETHUSDT'']#}, {#(''BTCUSDT'', ''1m'')#})"
    by (rule prices_begin) (simp_all add: all_subs_def SubscribePrices_begin_def g2_def)
  have 3: "serve sample_backend (g2, {#PriceStream [''ETHUSDT'']#}, {#(''BTCUSDT'', ''1m'')#}) (g3, {#}, {#(''BTCUSDT'', ''1m'')#})"
    using prices_end [of "[''ETHUSDT'']" "{#PriceStream [''ETHUSDT'']#}" sample_backend g2] by (simp add: g3_def)
  have "(serve sample_backend)\<^sup>*\<^sup>* (sample_server, {#}, {#}) (g1, {#}, {#(''BTCUSDT'', ''1m'')#})" using 1 by (rule r_into_rtranclp [of "serve sample_backend"])
  from rtranclp.rtrancl_into_rtrancl [of "serve sample_backend", OF this 2]
  have run: "(serve sample_backend)\<^sup>*\<^sup>* (sample_server, {#}, {#}) (g3, {#}, {#(''BTCUSDT'', ''1m'')#})"
    using 3 by (rule rtranclp.rtrancl_into_rtrancl [of "serve sample_backend"])
  have s0: "sv_exchangeAgg (gs_svc sample_server)" by (simp add: sample_server_def SetExchangeAggregator_def NewService_def)
  have "held (gs_agg g3) ''BTCUSDT'' ''1m'' = 1 \<and> 0 < stream_refs (gs_agg g3) (to_upper ''BTCUSDT'')"
    using streams_release_unary_calls_leak [OF run s0, unfolded sample_server_def server.simps, OF refl] up by auto
  then show ?thesis using run up by auto
qed

end
