(* ===== verification/Proxy.thy ===== *)
theory Proxy
  imports Interfaces
begin

text \<open>
  \<open>internal/proxy/proxy_service.go\<close>: the list of proxies, read from a text file on GitHub, the proxy
  that worked last, and the views the other services ask for. The answer of the HTTP client is an
  argument: \<open>fetched\<close> for the list, \<open>get\<close> for the test of a proxy.
\<close>

section \<open>The service\<close>

definition UpdateInterval :: int where
  "UpdateInterval = 30 * Minute_d"

definition DefaultProtocol :: string where
  "DefaultProtocol = ''socks5''"

record proxy_service =
  ps_proxyList :: "string list"
  ps_lastUpdate :: gotime
  ps_workingProxy :: string
  ps_cancelled :: bool

definition NewProxyService :: proxy_service where
  "NewProxyService = \<lparr>ps_proxyList = [''''], ps_lastUpdate = zero_time, ps_workingProxy = '''', ps_cancelled = False\<rparr>"

definition isValidProxyURL :: "string \<Rightarrow> bool" where
  "isValidProxyURL proxyURL =
     (if proxyURL = '''' then False
      else if \<not> contains proxyURL ''://'' then False
      else
        (let parts = split2 proxyURL ''://'' in
         if length parts \<noteq> 2 then False
         else
           (let protocol = to_lower (parts ! 0); address = parts ! 1 in
            if protocol \<noteq> ''http'' \<and> protocol \<noteq> ''https'' \<and> protocol \<noteq> ''socks4'' \<and> protocol \<noteq> ''socks5'' then False
            else if \<not> contains address '':'' then False
            else
              (let addressParts = split address '':'' in
               if length addressParts \<noteq> 2 then False
               else if addressParts ! 1 = '''' then False
               else True))))"

text \<open>What one line of the file contributes, after \<open>strings.TrimSpace\<close>.\<close>

definition parse_line :: "string \<Rightarrow> string option" where
  "parse_line line =
     (if line = '''' \<or> has_prefix line ''#'' then None
      else
        (let proxyURL =
           (if contains line ''://'' then Some line
            else if \<not> contains line '':'' then None
            else if length (split line '':'') \<noteq> 2 then None
            else Some (DefaultProtocol @ ''://'' @ line))
         in case proxyURL of
              None \<Rightarrow> None
            | Some u \<Rightarrow> if isValidProxyURL u then Some u else None))"

text \<open>
  The scanner gives up on a line of 64 KiB or more (\<open>bufio.MaxScanTokenSize\<close>); \<open>readErr\<close> says that
  reading the body failed. Both make the parse an error.
\<close>

definition parseProxyList :: "string \<Rightarrow> bool \<Rightarrow> string list option" where
  "parseProxyList body readErr =
     (let lines = split body [CHR 0x0A] in
      if readErr \<or> (\<exists>l\<in>set lines. length l \<ge> 65536) then None
      else Some (List.map_filter (\<lambda>l. parse_line (trim_space l)) lines @ ['''']))"

datatype fetched = RequestFailed | Response int string bool   \<comment> \<open>status, body, whether reading it fails\<close>

datatype fetch_error = FetchFailed | UnexpectedStatus int | ParseFailed | NoProxiesFound

definition fetchProxies ::
  "gotime \<Rightarrow> fetched \<Rightarrow> proxy_service \<Rightarrow> (fetch_error + unit) \<times> proxy_service" where
  "fetchProxies now resp p =
     (case resp of
        RequestFailed \<Rightarrow> (Inl FetchFailed, p)
      | Response code body readErr \<Rightarrow>
          if code \<noteq> 200 then (Inl (UnexpectedStatus code), p)
          else
            (case parseProxyList body readErr of
               None \<Rightarrow> (Inl ParseFailed, p)
             | Some proxies \<Rightarrow>
                 if length proxies = 0 then (Inl NoProxiesFound, p)
                 else (Inr (), p\<lparr>ps_proxyList := proxies, ps_lastUpdate := now\<rparr>)))"

definition ps_Start :: "gotime \<Rightarrow> fetched \<Rightarrow> proxy_service \<Rightarrow> proxy_service" where
  "ps_Start now resp p = snd (fetchProxies now resp (p\<lparr>ps_cancelled := False\<rparr>))"

definition ps_Stop :: "proxy_service \<Rightarrow> proxy_service" where
  "ps_Stop p = p\<lparr>ps_cancelled := True\<rparr>"

text \<open>A tick of \<open>periodicUpdate\<close>; the goroutine returns once the context is cancelled.\<close>

definition periodicUpdate :: "gotime \<Rightarrow> fetched \<Rightarrow> proxy_service \<Rightarrow> proxy_service" where
  "periodicUpdate now resp p = (if ps_cancelled p then p else snd (fetchProxies now resp p))"

definition ForceUpdate :: "gotime \<Rightarrow> fetched \<Rightarrow> proxy_service \<Rightarrow> (fetch_error + unit) \<times> proxy_service" where
  "ForceUpdate now resp p = fetchProxies now resp p"

section \<open>Views of the list\<close>

definition GetProxyList :: "proxy_service \<Rightarrow> string list" where
  "GetProxyList p = ps_proxyList p"

definition GetHTTPProxyList :: "proxy_service \<Rightarrow> string list" where
  "GetHTTPProxyList p =
     filter (\<lambda>proxy. proxy = '''' \<or> has_prefix proxy ''http://'' \<or> has_prefix proxy ''https://'') (ps_proxyList p)"

definition GetSOCKSProxyList :: "proxy_service \<Rightarrow> string list" where
  "GetSOCKSProxyList p =
     filter (\<lambda>proxy. has_prefix proxy ''socks4://'' \<or> has_prefix proxy ''socks5://'') (ps_proxyList p) @ ['''']"

definition GetProxyCount :: "proxy_service \<Rightarrow> int" where
  "GetProxyCount p =
     (let n = int (length (ps_proxyList p)) in
      if n > 0 \<and> last (ps_proxyList p) = '''' then n - 1 else n)"

definition GetLastUpdate :: "proxy_service \<Rightarrow> gotime" where
  "GetLastUpdate p = ps_lastUpdate p"

definition getStatus :: "gotime \<Rightarrow> proxy_service \<Rightarrow> string" where
  "getStatus now p =
     (if t_IsZero (ps_lastUpdate p) then ''not_initialized''
      else if t_Sub now (ps_lastUpdate p) > UpdateInterval * 2 then ''stale''
      else if GetProxyCount p = 0 then ''no_proxies''
      else ''healthy'')"

record proxy_info =
  pi_total :: int
  pi_http :: int
  pi_https :: int
  pi_socks4 :: int
  pi_socks5 :: int
  pi_last_update :: gotime
  pi_status :: string

definition count_prefix :: "string \<Rightarrow> string list \<Rightarrow> int" where
  "count_prefix pre xs = int (length (filter (\<lambda>x. has_prefix x pre) xs))"

text \<open>The four prefixes exclude one another, so the \<open>switch\<close> counts each one on its own.\<close>

definition GetProxyInfo :: "gotime \<Rightarrow> proxy_service \<Rightarrow> proxy_info" where
  "GetProxyInfo now p =
     \<lparr>pi_total = GetProxyCount p, pi_http = count_prefix ''http://'' (ps_proxyList p),
      pi_https = count_prefix ''https://'' (ps_proxyList p), pi_socks4 = count_prefix ''socks4://'' (ps_proxyList p),
      pi_socks5 = count_prefix ''socks5://'' (ps_proxyList p), pi_last_update = ps_lastUpdate p,
      pi_status = getStatus now p\<rparr>"

text \<open>The index is the clock's nanoseconds, \<open>%\<close> the length: negative before 1970.\<close>

definition GetRandomProxy :: "gotime \<Rightarrow> proxy_service \<Rightarrow> string outcome" where
  "GetRandomProxy now p =
     (if length (ps_proxyList p) = 0 then Inr ''''
      else
        (let index = t_ns now smod int (length (ps_proxyList p)) in
         if index < 0 then Inl IndexOutOfRange else Inr (ps_proxyList p ! nat index)))"

definition GetProxyByType :: "string \<Rightarrow> proxy_service \<Rightarrow> string list" where
  "GetProxyByType proxyType p =
     (let pre = to_lower proxyType @ ''://'';
          filtered = filter (\<lambda>proxy. proxy \<noteq> '''' \<and> has_prefix (to_lower proxy) pre) (ps_proxyList p)
      in if length filtered > 0 then filtered @ [''''] else filtered)"

datatype health_error = NoProxiesAvailable | NeverUpdated | StaleList

definition HealthCheck :: "gotime \<Rightarrow> proxy_service \<Rightarrow> health_error + unit" where
  "HealthCheck now p =
     (if length (ps_proxyList p) \<le> 1 then Inl NoProxiesAvailable
      else if t_IsZero (ps_lastUpdate p) then Inl NeverUpdated
      else if t_Sub now (ps_lastUpdate p) > UpdateInterval * 3 then Inl StaleList
      else Inr ())"

section \<open>The working proxy\<close>

definition SetWorkingProxy :: "string \<Rightarrow> proxy_service \<Rightarrow> proxy_service" where
  "SetWorkingProxy proxy p = (if ps_workingProxy p \<noteq> proxy then p\<lparr>ps_workingProxy := proxy\<rparr> else p)"

definition GetWorkingProxy :: "proxy_service \<Rightarrow> string" where
  "GetWorkingProxy p = ps_workingProxy p"

definition working_first :: "string \<Rightarrow> string list \<Rightarrow> string list" where
  "working_first workingProxy xs =
     (if workingProxy \<noteq> '''' then workingProxy # filter (\<lambda>proxy. proxy \<noteq> workingProxy) xs else xs)"

definition GetProxyListWithWorkingFirst :: "proxy_service \<Rightarrow> string list" where
  "GetProxyListWithWorkingFirst p = working_first (ps_workingProxy p) (ps_proxyList p)"

definition testURLs :: "string list" where
  "testURLs = [''https://api.binance.com/api/v3/ping'', ''https://api.binance.com/api/v3/time'']"

text \<open>\<open>get proxy url\<close> is the status the client answers through the proxy, \<open>None\<close> for an error; \<open>parses\<close> is \<open>url.Parse\<close>.\<close>

definition TestProxy :: "(string \<Rightarrow> bool) \<Rightarrow> (string \<Rightarrow> string \<Rightarrow> int option) \<Rightarrow> string \<Rightarrow> bool" where
  "TestProxy parses get proxy =
     (if proxy \<noteq> '''' \<and> \<not> parses proxy then False
      else list_ex (\<lambda>u. get proxy u = Some 200) testURLs)"

definition GetTestedProxyList ::
  "(string \<Rightarrow> bool) \<Rightarrow> (string \<Rightarrow> string \<Rightarrow> int option) \<Rightarrow> proxy_service \<Rightarrow> string list \<times> proxy_service" where
  "GetTestedProxyList parses get p =
     (if GetWorkingProxy p \<noteq> '''' then ([GetWorkingProxy p, ''''], p)
      else
        (let allProxies = ps_proxyList p in
         case find (TestProxy parses get) allProxies of
           None \<Rightarrow> (allProxies, p)
         | Some proxy \<Rightarrow> ([proxy], (SetWorkingProxy proxy p)\<lparr>ps_proxyList := [proxy]\<rparr>)))"

definition GetTestedProxyListWithWorkingFirst ::
  "(string \<Rightarrow> bool) \<Rightarrow> (string \<Rightarrow> string \<Rightarrow> int option) \<Rightarrow> proxy_service \<Rightarrow> string list \<times> proxy_service" where
  "GetTestedProxyListWithWorkingFirst parses get p =
     (let (testedProxies, p) = GetTestedProxyList parses get p
      in (working_first (ps_workingProxy p) testedProxies, p))"

section \<open>Correctness\<close>

text \<open>The laws of the service as its clients see it.\<close>

lemma working_first_set: "set (working_first w xs) = (if w \<noteq> '''' then insert w (set xs) else set xs)"
  by (auto simp: working_first_def)

definition ps_ok :: "proxy_service \<Rightarrow> bool" where
  "ps_ok p \<longleftrightarrow> ps_proxyList p \<noteq> [] \<and> (\<forall>u\<in>set (ps_proxyList p). u = '''' \<or> isValidProxyURL u) \<and>
     (ps_workingProxy p = '''' \<or> isValidProxyURL (ps_workingProxy p))"

lemma parse_line_valid: "parse_line l = Some u \<Longrightarrow> isValidProxyURL u"
  by (auto simp: parse_line_def Let_def split: if_splits option.splits)

lemma parseProxyList_ok:
  "parseProxyList body e = Some ps \<Longrightarrow> ps \<noteq> [] \<and> last ps = '''' \<and> (\<forall>u\<in>set (butlast ps). isValidProxyURL u)"
  using parse_line_valid by (fastforce simp: parseProxyList_def Let_def map_filter_def split: if_splits)

lemma fetchProxies_cases:
  obtains (failed) e where "fetchProxies now resp p = (Inl e, p)"
  | (fetched) ps where "fetchProxies now resp p = (Inr (), p\<lparr>ps_proxyList := ps, ps_lastUpdate := now\<rparr>)"
      "ps \<noteq> []" "last ps = ''''" "\<forall>u\<in>set (butlast ps). isValidProxyURL u"
proof (cases resp)
  case RequestFailed
  then show thesis by (intro failed [of FetchFailed]) (simp add: fetchProxies_def)
next
  case (Response code body e)
  show thesis
  proof (cases "parseProxyList body e")
    case None
    then show thesis using Response failed by (cases "code = 200") (simp_all add: fetchProxies_def)
  next
    case (Some ps)
    note ok = parseProxyList_ok [OF Some]
    show thesis
      using Response Some ok failed fetched [of ps] by (cases "code = 200") (simp_all add: fetchProxies_def)
  qed
qed

lemma ps_ok_fetch: "ps_ok p \<Longrightarrow> ps_ok (snd (fetchProxies now resp p))"
proof (cases now resp p rule: fetchProxies_cases)
  case (fetched ps)
  assume "ps_ok p"
  moreover have "set ps = insert '''' (set (butlast ps))"
    using fetched(2,3) by (metis append_butlast_last_id set_append list.set(1,2) Un_insert_right sup_bot_right)
  ultimately show ?thesis using fetched by (simp add: ps_ok_def)
qed simp

lemma ps_ok_set: "ps_ok p \<Longrightarrow> u = '''' \<or> isValidProxyURL u \<Longrightarrow> ps_ok (SetWorkingProxy u p)"
  by (auto simp: ps_ok_def SetWorkingProxy_def)

lemma ps_ok_tested: "ps_ok p \<Longrightarrow> ps_ok (snd (GetTestedProxyList parses get p))"
  by (auto simp: ps_ok_def GetTestedProxyList_def SetWorkingProxy_def Let_def find_Some_iff split: option.split)

interpretation proxy: proxy_interface GetProxyListWithWorkingFirst SetWorkingProxy GetWorkingProxy ps_ok
proof
  show "ps_ok p \<Longrightarrow> u \<in> set (GetProxyListWithWorkingFirst p) \<Longrightarrow> ps_ok (SetWorkingProxy u p)" for p u
    by (intro ps_ok_set) (auto simp: GetProxyListWithWorkingFirst_def working_first_set ps_ok_def split: if_splits)
qed (auto simp: ps_ok_def GetProxyListWithWorkingFirst_def SetWorkingProxy_def GetWorkingProxy_def working_first_def
      split: if_splits)

text \<open>The operations of the service and of those who use it; a client reports a proxy it was given.\<close>

inductive ps_step :: "proxy_service \<Rightarrow> proxy_service \<Rightarrow> bool" where
  start: "ps_step p (ps_Start now resp p)"
| update: "ps_step p (periodicUpdate now resp p)"
| force: "ps_step p (snd (ForceUpdate now resp p))"
| working: "u \<in> set (GetProxyListWithWorkingFirst p) \<Longrightarrow> ps_step p (SetWorkingProxy u p)"
| tested: "ps_step p (snd (GetTestedProxyList parses get p))"
| stop: "ps_step p (ps_Stop p)"

inductive ps_reachable :: "proxy_service \<Rightarrow> bool" where
  new: "ps_reachable NewProxyService"
| step: "ps_reachable p \<Longrightarrow> ps_step p q \<Longrightarrow> ps_reachable q"

lemma ps_ok_step: "ps_step p q \<Longrightarrow> ps_ok p \<Longrightarrow> ps_ok q"
proof (induction rule: ps_step.induct)
  case (start p now resp)
  have "ps_ok (p\<lparr>ps_cancelled := False\<rparr>)" using start by (simp add: ps_ok_def)
  then show ?case unfolding ps_Start_def by (rule ps_ok_fetch)
next
  case (working u p)
  then show ?case by (simp add: proxy.ok_set)
qed (simp_all add: periodicUpdate_def ForceUpdate_def ps_ok_fetch ps_ok_tested, simp add: ps_Stop_def ps_ok_def)

lemma ps_ok_reachable: "ps_reachable p \<Longrightarrow> ps_ok p"
  by (induction rule: ps_reachable.induct) (auto simp: ps_ok_step, simp add: NewProxyService_def ps_ok_def)

text \<open>
  C29. Whatever updates, failed downloads, reports of working proxies and tests happened, the list a
  client is given is not empty, holds only the direct connection and well-formed proxy addresses,
  starts with the proxy that worked last when there is one, and lists that proxy once; nothing of
  the stored list is missing.
\<close>

theorem proxy_list_always_usable:
  assumes "ps_reachable p"
  shows "let xs = GetProxyListWithWorkingFirst p in
    xs \<noteq> [] \<and> (\<forall>u\<in>set xs. u = '''' \<or> isValidProxyURL u) \<and> set (GetProxyList p) \<subseteq> set xs \<and>
    (GetWorkingProxy p \<noteq> '''' \<longrightarrow> hd xs = GetWorkingProxy p \<and> GetWorkingProxy p \<notin> set (tl xs))"
  using ps_ok_reachable [OF assms]
  by (auto simp: ps_ok_def GetProxyListWithWorkingFirst_def GetProxyList_def GetWorkingProxy_def working_first_def)

theorem proxy_list_always_usable_witness:
  "hd (GetProxyListWithWorkingFirst (SetWorkingProxy '''' NewProxyService)) = '''' \<and>
   GetProxyListWithWorkingFirst (SetWorkingProxy '''' NewProxyService) \<noteq> []"
proof -
  have "'''' \<in> set (GetProxyListWithWorkingFirst NewProxyService)" by code_simp
  then have "ps_reachable (SetWorkingProxy '''' NewProxyService)"
    by (rule ps_reachable.step [OF ps_reachable.new ps_step.working])
  from proxy_list_always_usable [OF this] show ?thesis
    unfolding Let_def by (simp add: SetWorkingProxy_def NewProxyService_def GetProxyListWithWorkingFirst_def working_first_def)
qed

text \<open>A line with a host and a port and nothing else.\<close>

definition plain_text :: "string \<Rightarrow> bool" where
  "plain_text s \<longleftrightarrow> (\<forall>c\<in>set s. \<not> is_space c \<and> c \<noteq> CHR '':'' \<and> c \<noteq> CHR ''/'')"

lemma plain_textD:
  assumes "plain_text s"
  shows "CHR '':'' \<notin> set s" "CHR ''/'' \<notin> set s" "CHR 0x0A \<notin> set s" "\<forall>c\<in>set s. \<not> is_space c"
proof -
  have "is_space (CHR 0x0A)" by (simp add: is_space_def)
  then show "CHR '':'' \<notin> set s" "CHR ''/'' \<notin> set s" "CHR 0x0A \<notin> set s" "\<forall>c\<in>set s. \<not> is_space c"
    using assms unfolding plain_text_def by metis+
qed

lemma cut_scheme: "cut_at ''://'' (''socks5://'' @ a) = Some (''socks5'', a)"
  by (simp add: has_prefix_def)

lemma split_host_port:
  assumes "plain_text h" "plain_text port"
  shows "split (h @ '':'' @ port) '':'' = [h, port]"
  using split_single [OF plain_textD(1) [OF assms(1)], of port] split_no_sep [of port "'':''"] plain_textD(1) [OF assms(2)]
  by (simp add: contains_single)

lemma parse_host_port:
  assumes "plain_text h" "plain_text port" "port \<noteq> ''''" "\<not> has_prefix (h @ '':'' @ port) ''#''"
  shows "parse_line (h @ '':'' @ port) = Some (''socks5://'' @ h @ '':'' @ port)"
proof -
  have colon: "contains (h @ '':'' @ port) '':''" by (simp add: contains_single)
  have no_scheme: "\<not> contains (h @ '':'' @ port) ''://''"
    using contains_subset [of "h @ '':'' @ port" "''://''"] plain_textD(2) [OF assms(1)] plain_textD(2) [OF assms(2)]
    by (simp, blast)
  have socks5: "to_lower ''socks5'' = ''socks5''" by code_simp
  have "isValidProxyURL (''socks5://'' @ h @ '':'' @ port)"
    unfolding isValidProxyURL_def contains_def [of "''socks5://'' @ _"] split2_def cut_scheme
    using split_host_port [OF assms(1,2)] assms(3) colon socks5 by simp
  then show ?thesis
    using no_scheme colon assms(4) split_host_port [OF assms(1,2)] by (simp add: parse_line_def DefaultProtocol_def)
qed

definition host_lines :: "(string \<times> string) list \<Rightarrow> bool" where
  "host_lines hps \<longleftrightarrow> list_all (\<lambda>(h, port). plain_text h \<and> plain_text port \<and> port \<noteq> '''' \<and>
     \<not> has_prefix (h @ '':'' @ port) ''#'' \<and> length h + length port < 65535) hps"

text \<open>
  A file of addresses \<open>host:port\<close>, one per line, is read back as these addresses, in order, each
  as a SOCKS5 proxy, with the direct connection after them, and becomes the list of the service.
\<close>

theorem proxy_file_round_trip:
  assumes "host_lines hps" "hps \<noteq> []"
  shows "fetchProxies now (Response 200 (join [CHR 0x0A] (map (\<lambda>(h, port). h @ '':'' @ port) hps)) False) p =
    (Inr (), p\<lparr>ps_proxyList := map (\<lambda>(h, port). ''socks5://'' @ h @ '':'' @ port) hps @ [''''], ps_lastUpdate := now\<rparr>)"
proof -
  let ?line = "\<lambda>(h, port). h @ '':'' @ port"
  have each: "CHR 0x0A \<notin> set (?line q) \<and> length (?line q) < 65536 \<and>
      parse_line (trim_space (?line q)) = Some (case q of (h, port) \<Rightarrow> ''socks5://'' @ h @ '':'' @ port)"
    if "q \<in> set hps" for q
  proof -
    obtain h port where q: "q = (h, port)" by (cases q)
    with that assms(1) have ok: "plain_text h" "plain_text port" "port \<noteq> ''''" "\<not> has_prefix (h @ '':'' @ port) ''#''"
        "length h + length port < 65535"
      by (auto simp: host_lines_def list_all_iff)
    moreover have "trim_space (h @ '':'' @ port) = h @ '':'' @ port"
      using plain_textD(4) [OF ok(1)] plain_textD(4) [OF ok(2)] by (intro trim_space_id) (auto simp: is_space_def [of "CHR '':''"])
    ultimately show ?thesis
      using q parse_host_port [OF ok(1-4)] plain_textD(3) [OF ok(1)] plain_textD(3) [OF ok(2)] by simp
  qed
  have lines: "split (join [CHR 0x0A] (map ?line hps)) [CHR 0x0A] = map ?line hps"
  proof (rule split_join)
    show "\<forall>x\<in>set (map ?line hps). CHR 0x0A \<notin> set x" using each unfolding set_map by blast
  qed (simp add: assms(2))
  have "List.map_filter (\<lambda>l. parse_line (trim_space l)) (map ?line hps) =
      map (\<lambda>(h, port). ''socks5://'' @ h @ '':'' @ port) hps"
    using each by (induction hps) (auto simp: map_filter_def)
  moreover have "\<not> (\<exists>l\<in>set (map ?line hps). length l \<ge> 65536)" using each by fastforce
  ultimately have "parseProxyList (join [CHR 0x0A] (map ?line hps)) False =
      Some (map (\<lambda>(h, port). ''socks5://'' @ h @ '':'' @ port) hps @ [''''])"
    unfolding parseProxyList_def Let_def lines by simp
  then show ?thesis by (simp add: fetchProxies_def)
qed

theorem proxy_file_round_trip_witness:
  "ps_proxyList (snd (fetchProxies zero_time (Response 200 (join [CHR 0x0A] (map (\<lambda>(h, port). h @ '':'' @ port)
      [(''10.0.0.1'', ''1080''), (''10.0.0.2'', ''9050'')])) False) NewProxyService)) =
    [''socks5://10.0.0.1:1080'', ''socks5://10.0.0.2:9050'', '''']"
proof -
  have "host_lines [(''10.0.0.1'', ''1080''), (''10.0.0.2'', ''9050'')]"
    by (simp add: host_lines_def plain_text_def is_space_def has_prefix_def)
  from proxy_file_round_trip [OF this, of zero_time NewProxyService] show ?thesis by simp
qed

text \<open>
  An update never fails for want of proxies: the check comes after the direct connection was
  appended. A readable answer without a single valid line, an error page for instance, is taken and
  leaves the direct connection alone in the list.
\<close>

theorem empty_answer_clears_list:
  assumes "\<forall>l\<in>set (split body [CHR 0x0A]). length l < 65536 \<and> parse_line (trim_space l) = None"
  shows "fst (fetchProxies now resp q) \<noteq> Inl NoProxiesFound \<and>
    fetchProxies now (Response 200 body False) p = (Inr (), p\<lparr>ps_proxyList := [''''], ps_lastUpdate := now\<rparr>)"
proof
  show "fst (fetchProxies now resp q) \<noteq> Inl NoProxiesFound"
    using parseProxyList_ok by (auto simp: fetchProxies_def split: fetched.split option.split)
  have "List.map_filter (\<lambda>l. parse_line (trim_space l)) (split body [CHR 0x0A]) = []"
    using assms by (auto simp: map_filter_def filter_empty_conv)
  moreover have "\<not> (\<exists>l\<in>set (split body [CHR 0x0A]). length l \<ge> 65536)" using assms by (meson not_le)
  ultimately show "fetchProxies now (Response 200 body False) p = (Inr (), p\<lparr>ps_proxyList := [''''], ps_lastUpdate := now\<rparr>)"
    unfolding fetchProxies_def parseProxyList_def Let_def by simp
qed

theorem empty_answer_clears_list_witness:
  "ps_proxyList (snd (fetchProxies zero_time (Response 200 ''<html>busy</html>'' False)
      (NewProxyService\<lparr>ps_proxyList := [''socks5://10.0.0.1:1080'', '''']\<rparr>))) = ['''']"
proof -
  have "split ''<html>busy</html>'' [CHR 0x0A] = [''<html>busy</html>'']"
    by (rule split_no_sep) code_simp
  moreover have "parse_line (trim_space ''<html>busy</html>'') = None" by code_simp
  ultimately have "\<forall>l\<in>set (split ''<html>busy</html>'' [CHR 0x0A]). length l < 65536 \<and> parse_line (trim_space l) = None"
    by simp
  from empty_answer_clears_list [OF this] show ?thesis by simp
qed

end
