(* ===== verification/Exchange_Connections.thy ===== *)
theory Exchange_Connections
  imports Exchange_Aggregator Proxy
begin

text \<open>
  Properties of the exchange connections: how a proxy is chosen, what a connection attempt leaves
  behind, the circuit breaker and the rate limiter over runs of the connection manager, and the write
  batch with the shutdown.
\<close>

section \<open>Choosing a proxy\<close>

lemma dial_loop_later:
  assumes "0 < i"
  shows "dial_loop dial i us = find (\<lambda>u. dial u = Dialed) us"
  using assms by (induction dial i us rule: dial_loop.induct) (auto split: dial_result.split)

lemma dial_loop_0:
  "dial_loop dial 0 us =
     (if \<exists>vs. us = '''' # vs \<and> dial '''' = DialFailed then None else find (\<lambda>u. dial u = Dialed) us)"
  by (cases us) (auto simp: dial_loop_later split: dial_result.split)

context proxy_interface
begin

lemma dial_working_again:
  assumes "dialWithProxy (Some (proxies p)) dial = Some u" "u \<noteq> ''''" "dial' u = Dialed"
  shows "dialWithProxy (Some (proxies (set_working u p))) dial' = Some u"
  using set_first [OF assms(2), of p] assms(3) by (auto simp: dialWithProxy_def)

lemma dial_reaches_all:
  assumes "u \<in> set (proxies p)" "dial u = Dialed" "get_working p \<noteq> ''''"
  shows "\<exists>v. dialWithProxy (Some (proxies p)) dial = Some v \<and> v \<in> set (proxies p) \<and> dial v = Dialed"
proof -
  obtain us where us: "proxies p = get_working p # us" using hd_working [OF assms(3)] by blast
  have "\<not> (\<exists>vs. proxies p = '''' # vs)" using us assms(3) by auto
  then have "dialWithProxy (Some (proxies p)) dial = find (\<lambda>u. dial u = Dialed) (proxies p)"
    unfolding dialWithProxy_def Let_def option.case dial_loop_0 by auto
  moreover obtain v where "find (\<lambda>u. dial u = Dialed) (proxies p) = Some v"
    using assms(1,2) by (metis (mono_tags, lifting) find_None_iff not_None_eq)
  ultimately show ?thesis by (auto simp: find_Some_iff)
qed

end

text \<open>
  C25. Choosing a proxy. An attempt through the proxy service takes the first entry of its list that can
  be dialled, with one exception: when the direct connection is first and fails for another reason
  than a 403, no proxy is tried. Once a proxy \<open>u\<close> got through and was reported, the next attempt uses it
  at once while it works; and with a working proxy on record an attempt fails only when no entry at all can
  be dialled.
\<close>

theorem dial_through_proxy_service:
  assumes "ps_reachable p"
  shows "dialWithProxy (Some (GetProxyListWithWorkingFirst p)) dial =
      (if hd (GetProxyListWithWorkingFirst p) = '''' \<and> dial '''' = DialFailed then None
       else find (\<lambda>u. dial u = Dialed) (GetProxyListWithWorkingFirst p)) \<and>
    (\<forall>u dial'. dialWithProxy (Some (GetProxyListWithWorkingFirst p)) dial = Some u \<and> u \<noteq> '''' \<and> dial' u = Dialed \<longrightarrow>
      dialWithProxy (Some (GetProxyListWithWorkingFirst (SetWorkingProxy u p))) dial' = Some u) \<and>
    (GetWorkingProxy p \<noteq> '''' \<longrightarrow>
      (dialWithProxy (Some (GetProxyListWithWorkingFirst p)) dial = None \<longleftrightarrow>
       (\<forall>u\<in>set (GetProxyListWithWorkingFirst p). dial u \<noteq> Dialed)))"
proof (intro conjI allI impI)
  let ?l = "GetProxyListWithWorkingFirst p"
  obtain v vs where l: "?l = v # vs"
    using proxy.proxies_nonempty [OF ps_ok_reachable [OF assms]] by (cases ?l) auto
  show first: "dialWithProxy (Some ?l) dial =
      (if hd ?l = '''' \<and> dial '''' = DialFailed then None else find (\<lambda>u. dial u = Dialed) ?l)"
    unfolding dialWithProxy_def Let_def option.case dial_loop_0 by (simp add: l)
  show "dialWithProxy (Some (GetProxyListWithWorkingFirst (SetWorkingProxy u p))) dial' = Some u"
    if "dialWithProxy (Some ?l) dial = Some u \<and> u \<noteq> '''' \<and> dial' u = Dialed" for u dial'
    using that proxy.dial_working_again by blast
  show "dialWithProxy (Some ?l) dial = None \<longleftrightarrow> (\<forall>u\<in>set ?l. dial u \<noteq> Dialed)" if "GetWorkingProxy p \<noteq> ''''"
    using proxy.dial_reaches_all [OF _ _ that] first
    by (metis (mono_tags, lifting) find_None_iff option.distinct(1))
qed

theorem dial_through_proxy_service_witness:
  "let dial = (\<lambda>u. if u = '''' then Forbidden else Dialed);
       p = snd (ForceUpdate zero_time (Response 200 ''10.0.0.1:1080'' False) NewProxyService) in
    dialWithProxy (Some (GetProxyListWithWorkingFirst p)) dial = Some ''socks5://10.0.0.1:1080'' \<and>
    dialWithProxy (Some (GetProxyListWithWorkingFirst (SetWorkingProxy ''socks5://10.0.0.1:1080'' p))) dial =
      Some ''socks5://10.0.0.1:1080''"
proof -
  let ?p = "snd (ForceUpdate zero_time (Response 200 ''10.0.0.1:1080'' False) NewProxyService)"
  let ?dial = "\<lambda>u. if u = '''' then Forbidden else Dialed"
  have reach: "ps_reachable ?p" by (rule ps_reachable.step [OF ps_reachable.new ps_step.force])
  have "split ''10.0.0.1:1080'' [CHR 0x0A] = [''10.0.0.1:1080'']" by (rule split_no_sep) code_simp
  moreover have "parse_line (trim_space ''10.0.0.1:1080'') = Some ''socks5://10.0.0.1:1080''" by code_simp
  ultimately have l: "GetProxyListWithWorkingFirst ?p = [''socks5://10.0.0.1:1080'', '''']"
    by (simp add: ForceUpdate_def fetchProxies_def parseProxyList_def map_filter_def GetProxyListWithWorkingFirst_def
        working_first_def NewProxyService_def)
  note facts = dial_through_proxy_service [OF reach, of ?dial]
  have d: "dialWithProxy (Some (GetProxyListWithWorkingFirst ?p)) ?dial = Some ''socks5://10.0.0.1:1080''"
    unfolding conjunct1 [OF facts] unfolding l by simp
  from conjunct1 [OF conjunct2 [OF facts], rule_format, of "''socks5://10.0.0.1:1080''" ?dial] d
  show ?thesis unfolding Let_def by simp
qed

section \<open>The circuit breaker\<close>

lemma backoff_product:
  assumes "n \<le> 96038"
  shows "sint (of_nat n * of_nat n * 1000000000 :: 64 word) = int n * int n * 1000000000"
proof -
  define q where "q = int n * int n"
  have "0 \<le> q" by (simp add: q_def)
  moreover have "q \<le> 96038 * 96038" using assms unfolding q_def by (intro mult_mono) auto
  ultimately have "signed_take_bit 63 (q * 1000000000) = q * 1000000000"
    by (intro signed_take_bit_int_eq_self) simp_all
  moreover have "(of_nat n * of_nat n * 1000000000 :: 64 word) = of_int (q * 1000000000)" by (simp add: q_def)
  ultimately show ?thesis unfolding q_def by (simp only: signed_of_int) simp
qed



section \<open>Connection attempts\<close>

text \<open>The branches of an attempt.\<close>

lemma connectExchange_no_dial:
  "dialWithProxy (ce_proxies e) (ce_dial e) = None \<Longrightarrow>
   \<not> cr_ok (connectExchange e act ex mgr) \<and> cr_mgr (connectExchange e act ex mgr) = mgr"
  by (simp add: connectExchange_def Let_def)

lemma connectExchange_no_wait:
  "GetLimiter (ex_Name ex) mgr = Some l \<Longrightarrow> \<not> rl_Wait (10 * Second) (ce_tie e) (ce_bucket e) l \<Longrightarrow>
   \<not> cr_ok (connectExchange e act ex mgr) \<and> cr_mgr (connectExchange e act ex mgr) = mgr"
  by (simp add: connectExchange_def Let_def split: option.split)

lemma connectExchange_subscribed:
  assumes "dialWithProxy (ce_proxies e) (ce_dial e) = Some u" "GetLimiter (ex_Name ex) mgr = Some l"
    "rl_Wait (10 * Second) (ce_tie e) (ce_bucket e) l"
    "subscribe_exchange (ce_now e) (ce_wr e) act (ex_Name ex) = (sent, subOk)"
  shows "connectExchange e act ex mgr =
    \<lparr>cr_ok = subOk,
     cr_ex = ex\<lparr>ex_conn := True, ex_isHealthy := subOk, ex_lastUpdate := ce_now e, ex_lastConnectTime := ce_now e,
                ex_failureCount := 0, ex_isSubscribed := subOk, ex_isConnecting := False\<rparr>,
     cr_mgr = store (ex_Name ex) (if subOk then RecordSuccess (ce_now e) l else RecordRateLimitHit (ce_now e) l) mgr,
     cr_working = (if u \<noteq> '''' \<and> ce_proxies e \<noteq> None then Some u else None), cr_sent = sent\<rparr>"
  using assms by (simp add: connectExchange_def Let_def)

lemma connectExchange_keeps: "ex_Name (cr_ex (connectExchange e act ex mgr)) = ex_Name ex \<and>
    \<not> ex_isConnecting (cr_ex (connectExchange e act ex mgr))"
  by (simp add: connectExchange_def Let_def split: option.split prod.split)

text \<open>
  A connection attempt. It succeeds exactly when some proxy can be dialled, the exchange has a rate
  limiter, the limiter lets it through within ten seconds and every subscription message could be
  written. Then the exchange is connected, healthy and subscribed, its failures are forgotten and the
  success is recorded; the proxy that got through is reported. An attempt that cannot dial leaves
  the limiter and the failure count as they were, and no attempt leaves the exchange marked as connecting.
\<close>

theorem connectExchange_outcome:
  fixes e act ex mgr
  defines "r \<equiv> connectExchange e act ex mgr"
  shows "(cr_ok r \<longleftrightarrow>
      (\<exists>u l. dialWithProxy (ce_proxies e) (ce_dial e) = Some u \<and> GetLimiter (ex_Name ex) mgr = Some l \<and>
         rl_Wait (10 * Second) (ce_tie e) (ce_bucket e) l \<and>
         snd (subscribe_exchange (ce_now e) (ce_wr e) act (ex_Name ex)))) \<and>
    (cr_ok r \<longrightarrow> ex_conn (cr_ex r) \<and> ex_isHealthy (cr_ex r) \<and> ex_isSubscribed (cr_ex r) \<and> ex_failureCount (cr_ex r) = 0 \<and>
      cr_sent r = fst (subscribe_exchange (ce_now e) (ce_wr e) act (ex_Name ex)) \<and>
      GetLimiter (ex_Name ex) (cr_mgr r) = map_option (RecordSuccess (ce_now e)) (GetLimiter (ex_Name ex) mgr) \<and>
      (ce_proxies e \<noteq> None \<longrightarrow> cr_working r =
        (case dialWithProxy (ce_proxies e) (ce_dial e) of None \<Rightarrow> None | Some u \<Rightarrow> if u = '''' then None else Some u))) \<and>
    (dialWithProxy (ce_proxies e) (ce_dial e) = None \<longrightarrow>
      cr_mgr r = mgr \<and> ex_failureCount (cr_ex r) = ex_failureCount ex \<and> \<not> ex_conn (cr_ex r)) \<and>
    \<not> ex_isConnecting (cr_ex r)"
proof (cases "dialWithProxy (ce_proxies e) (ce_dial e)")
  case None
  then show ?thesis by (simp add: r_def connectExchange_def Let_def)
next
  case dialed: (Some u)
  obtain sent subOk where sub: "subscribe_exchange (ce_now e) (ce_wr e) act (ex_Name ex) = (sent, subOk)" by fastforce
  show ?thesis
  proof (cases "GetLimiter (ex_Name ex) mgr")
    case None
    then show ?thesis using dialed by (simp add: r_def connectExchange_def Let_def)
  next
    case (Some l)
    show ?thesis
    proof (cases "rl_Wait (10 * Second) (ce_tie e) (ce_bucket e) l")
      case False
      then show ?thesis
        using dialed Some connectExchange_no_wait [OF Some False] connectExchange_keeps [of e act ex mgr]
        by (simp add: r_def)
    next
      case True
      show ?thesis
        unfolding r_def connectExchange_subscribed [OF dialed Some True sub] using dialed Some True sub
        by (cases subOk) (simp_all add: GetLimiter_def)
    qed
  qed
qed

definition sample_env :: connect_env where
  "sample_env = \<lparr>ce_now = zero_time, ce_proxies = None, ce_dial = (\<lambda>_. Dialed), ce_tie = False, ce_bucket = True,
     ce_wr = (\<lambda>_. True)\<rparr>"

definition sample_exchange :: exchange where
  "sample_exchange = new_exchange zero_time ''Kraken'' ''wss://ws.kraken.com/v2'' True"

theorem connectExchange_outcome_witness:
  "cr_ok (connectExchange sample_env [] sample_exchange (RegisterExchange ''Kraken'' []))"
proof -
  have "\<exists>u l. dialWithProxy (ce_proxies sample_env) (ce_dial sample_env) = Some u \<and>
      GetLimiter (ex_Name sample_exchange) (RegisterExchange ''Kraken'' []) = Some l \<and>
      rl_Wait (10 * Second) (ce_tie sample_env) (ce_bucket sample_env) l \<and>
      snd (subscribe_exchange (ce_now sample_env) (ce_wr sample_env) [] (ex_Name sample_exchange))"
    by (simp add: sample_env_def sample_exchange_def new_exchange_def dialWithProxy_def GetLimiter_def
        RegisterExchange_def rl_Wait_def subscribe_exchange_def subscribeKraken_def live_streams_def Let_def)
  then show ?thesis
    using connectExchange_outcome [of sample_env "[]" sample_exchange "RegisterExchange ''Kraken'' []"] by blast
qed

section \<open>Locked out by the rate limiter\<close>

definition locked_out :: "manager \<Rightarrow> bool" where
  "locked_out m \<longleftrightarrow> m_state m \<noteq> Listening \<and>
     (\<exists>l. GetLimiter (ex_Name (m_ex m)) (m_mgr m) = Some l \<and> 10 * Second < rl_backoffDuration l)"

lemma locked_out_connect:
  assumes "locked_out m"
  shows "m_state (try_connect e act m) = m_state m \<and> m_mgr (try_connect e act m) = m_mgr m \<and>
    ex_Name (m_ex (try_connect e act m)) = ex_Name (m_ex m)"
proof -
  obtain l where l: "GetLimiter (ex_Name (m_ex m)) (m_mgr m) = Some l" "10 * Second < rl_backoffDuration l"
    using assms by (auto simp: locked_out_def)
  have "\<not> rl_Wait (10 * Second) (ce_tie e) (ce_bucket e) l" using l(2) by (simp add: rl_Wait_def Let_def)
  from connectExchange_no_wait [OF l(1) this, of act] connectExchange_keeps [of e act "m_ex m" "m_mgr m"]
  show ?thesis by (simp add: try_connect_def Let_def handleConnectionError_def)
qed

lemma locked_out_step:
  assumes "locked_out m"
  shows "locked_out (manager_step act ev m) \<and> m_mgr (manager_step act ev m) = m_mgr m"
  using assms locked_out_connect [OF assms]
  by (auto simp: manager_step_def locked_out_def split: manager_state.split manager_event.split)

text \<open>
  C27. Locked out for good. Once the backoff of an exchange exceeds ten seconds while it is not connected,
  no signal, tick or whatever else ever connects it again, under any answers of the network: each attempt
  waits for the limiter under a ten second deadline and gives up, and only a successful subscription
  shortens the backoff. The batched subscriptions never shorten it either. Seven failed
  subscriptions in a row are enough.
\<close>

theorem rate_limit_lockout:
  assumes "m_state m \<noteq> Listening" "GetLimiter (ex_Name (m_ex m)) (m_mgr m) = Some l" "10 * Second < rl_backoffDuration l"
  shows "m_state (fold (\<lambda>(act, ev). manager_step act ev) evs m) \<noteq> Listening \<and>
    m_mgr (fold (\<lambda>(act, ev). manager_step act ev) evs m) = m_mgr m \<and>
    (rl_ok l \<longrightarrow> (\<forall>l'. GetLimiter name (fst (process_exchange_requests b a (name, reqs) ([(name, l)], calls))) = Some l' \<longrightarrow>
      rl_backoffDuration l \<le> rl_backoffDuration l'))"
proof -
  have "locked_out (fold (\<lambda>(act, ev). manager_step act ev) evs m) \<and>
      m_mgr (fold (\<lambda>(act, ev). manager_step act ev) evs m) = m_mgr m" if "locked_out m" for m
    using that
  proof (induction evs arbitrary: m)
    case (Cons p evs)
    obtain act ev where p: "p = (act, ev)" by (cases p)
    show ?case using locked_out_step [OF Cons.prems, of act ev] Cons.IH [of "manager_step act ev m"] by (simp add: p)
  qed simp
  moreover have "locked_out m" using assms by (auto simp: locked_out_def)
  ultimately have run: "locked_out (fold (\<lambda>(act, ev). manager_step act ev) evs m) \<and>
      m_mgr (fold (\<lambda>(act, ev). manager_step act ev) evs m) = m_mgr m" by blast
  have "\<not> rl_Wait (10 * Second) (be_tie b name) (be_wait b name) l" using assms(3) by (simp add: rl_Wait_def Let_def)
  moreover have "rl_ok l \<Longrightarrow> rl_backoffDuration l \<le> rl_backoffDuration (RecordRateLimitHit (be_now b) l)"
    using assms(3) div_bounds [of 2 "3 * rl_backoffDuration l"] by (auto simp: RecordRateLimitHit_def Let_def rl_ok_def)
  ultimately have "rl_ok l \<longrightarrow> (\<forall>l'. GetLimiter name (fst (process_exchange_requests b a (name, reqs) ([(name, l)], calls))) =
      Some l' \<longrightarrow> rl_backoffDuration l \<le> rl_backoffDuration l')"
    by (simp add: process_exchange_requests_def GetLimiter_def)
  with run show ?thesis by (auto simp: locked_out_def)
qed

definition sample_manager :: manager where
  "sample_manager = \<lparr>m_state = Idle, m_ex = sample_exchange,
     m_mgr = [(''Kraken'', ((RecordRateLimitHit zero_time) ^^ 7)
       \<lparr>rl_name = ''Kraken'', rl_queue = [], rl_requestCount = 0, rl_rateLimitHits = 0,
        rl_lastRateLimitHit = zero_time, rl_backoffDuration = 0, rl_maxBackoff = 5 * Minute_d\<rparr>)], m_subscribed = []\<rparr>"

theorem rate_limit_lockout_witness:
  "m_state (fold (\<lambda>(act, ev). manager_step act ev) [([], Signal sample_env), ([], TickAt sample_env)] sample_manager) \<noteq> Listening"
proof -
  obtain l where l: "m_mgr sample_manager = [(''Kraken'', l)]" "10 * Second < rl_backoffDuration l"
    by (simp add: sample_manager_def eval_nat_numeral RecordRateLimitHit_def Let_def)
  have "m_state sample_manager \<noteq> Listening" "GetLimiter (ex_Name (m_ex sample_manager)) (m_mgr sample_manager) = Some l"
    unfolding l GetLimiter_def by (simp_all add: sample_manager_def sample_exchange_def new_exchange_def)
  from rate_limit_lockout [OF this l(2)] show ?thesis by blast
qed

section \<open>The write batch and the shutdown\<close>

definition in_flight :: "'d exchange_aggregator \<Rightarrow> 'd candle list" where
  "in_flight a = concat (ea_written a) @ ea_currentBatch a @ rt_batchChan (ea_realtime a)"

lemma worker_step_in_flight: "in_flight (worker_step ev a) = in_flight a"
  by (cases ev) (simp_all add: in_flight_def worker_step_def flushBatch_def split: list.split)

lemma workers_in_flight: "in_flight (fold worker_step evs a) = in_flight a"
  by (induction evs arbitrary: a) (simp_all add: worker_step_in_flight)

lemma publish_keeps_queue [simp]: "rt_batchChan (publishCandleUpdate symbol interval c s) = rt_batchChan s"
  by (simp add: publishCandleUpdate_def spawn_def Let_def split: option.split)

lemma rt_Stop_queue [simp]: "rt_batchChan (rt_Stop D now s) = rt_batchChan s"
proof -
  have "rt_batchChan (fold (\<lambda>(_, live) s. case aggregateLiveCandle D now live of
         None \<Rightarrow> s | Some agg \<Rightarrow> publishCandleUpdate (l_Symbol live) (l_Interval live) (Some agg) s) ls s) = rt_batchChan s" for ls
    by (induction ls arbitrary: s) (auto split: option.split)
  then show ?thesis by (simp add: rt_Stop_def)
qed


definition sample_running :: "fixdec exchange_aggregator" where
  "sample_running = snd (ea_Start (NewExchangeAggregator zero_time
     \<lparr>EnableBinance = True, EnableKraken = True, EnableCoinbase = True, EnableBybit = True, EnableOKX = True,
      EnableGateIO = True\<rparr>))\<lparr>ea_realtime := NewRealtimeCandleAggregator\<lparr>rt_batchChan := [sample_candle, later_candle]\<rparr>\<rparr>"


section \<open>Unmatched releases\<close>

text \<open>
  Releasing what is not held. When a symbol is held under one interval only, releasing another interval
  of it leaves the held count alone but takes the reference of the stream: the stream is dropped
  while its subscriber still holds it.
\<close>

theorem unmatched_release_drops_stream:
  assumes "j \<noteq> i"
  shows "let a = SubscribeToInterval symbol i (NewExchangeAggregator now cfg :: 'd exchange_aggregator);
             b = UnsubscribeFromInterval symbol j a in
    held a (to_upper symbol) i = 1 \<and> stream_refs a (to_upper symbol) = 1 \<and>
    held b (to_upper symbol) i = 1 \<and> stream_refs b (to_upper symbol) = 0"
  using assms
  by (simp add: Let_def SubscribeToInterval_def UnsubscribeFromInterval_def NewExchangeAggregator_def signal_all_def
      held_def stream_refs_def)

theorem unmatched_release_drops_stream_witness:
  "stream_refs (UnsubscribeFromInterval ''btcusdt'' ''5m'' (SubscribeToInterval ''BTCUSDT'' ''1m''
      (NewExchangeAggregator zero_time \<lparr>EnableBinance = True, EnableKraken = True, EnableCoinbase = True, EnableBybit = True,
         EnableOKX = True, EnableGateIO = True\<rparr> :: int exchange_aggregator))) ''BTCUSDT'' = 0"
proof -
  have up: "to_upper ''BTCUSDT'' = ''BTCUSDT''" "to_upper ''btcusdt'' = ''BTCUSDT''" by code_simp+
  have ne: "''5m'' \<noteq> ''1m''" by simp
  have eq: "UnsubscribeFromInterval ''btcusdt'' ''5m'' = UnsubscribeFromInterval ''BTCUSDT'' ''5m''"
    by (rule ext) (simp add: UnsubscribeFromInterval_def up)
  show ?thesis unfolding eq
    using unmatched_release_drops_stream [OF ne, where symbol = "''BTCUSDT''" and now = zero_time and 'd = int] up
    unfolding Let_def by simp
qed

end
