(* ===== verification/Server.thy ===== *)
theory Server
  imports Config Grpc_Handlers Exchange_Connections
begin

text \<open>
  \<open>cmd/server/main.go\<close>, starting: \<open>boot\<close> is \<open>main\<close> up to the point where it waits for a signal: the
  configuration, the connections, the components and how they are connected, in the order of the code.
  ClickHouse and Redis are not part of the repository: whether they can be reached is an argument.
\<close>

section \<open>The configuration of the components\<close>

definition service_config_of :: "'f config \<Rightarrow> service_config" where
  "service_config_of c = \<lparr>sc_DefaultCandlesLimit = cl_DefaultCandlesLimit (cf_Service c),
     sc_MaxCandlesLimit = cl_MaxCandlesLimit (cf_Service c), sc_CandleTTL = cc_CandleTTL (cf_Cache c)\<rparr>"

definition exchange_config_of :: "'f config \<Rightarrow> exchange_config" where
  "exchange_config_of c = (let x = cf_Exchange c in
     \<lparr>EnableBinance = cx_EnableBinance x, EnableKraken = cx_EnableKraken x, EnableCoinbase = cx_EnableCoinbase x,
      EnableBybit = cx_EnableBybit x, EnableOKX = cx_EnableOKX x, EnableGateIO = cx_EnableGateIO x\<rparr>)"

definition symbol_config_of :: "'f config \<Rightarrow> symbol_config" where
  "symbol_config_of c = (let x = cf_Symbol c in
     \<lparr>AutoSubscribe = cs_AutoSubscribe x, SubscriptionStrategy = cs_SubscriptionStrategy x, MaxSymbols = cs_MaxSymbols x\<rparr>)"

definition mark_config_of :: "'f config \<Rightarrow> mark_config" where
  "mark_config_of c = \<lparr>mc_EMAPeriod = word_of_int (cm_EMAPeriod (cf_MarkPrice c)), mc_MarkPriceTTL = cc_MarkPriceTTL (cf_Cache c)\<rparr>"

section \<open>Starting\<close>

text \<open>
  The state of the process. The candle service and the exchange aggregator are those of the gRPC server; the
  symbol fetcher is the one the symbol manager holds.
\<close>

record ('d, 'r) system =
  sy_gs :: "('d, 'r) server"
  sy_ia :: "'d interval_aggregator"
  sy_mark :: "('d, 'r) mark_service"
  sy_manager :: symbol_manager
  sy_proxy :: proxy_service

text \<open>How a start can end: \<open>logger.Fatal\<close> leaves the process, and so does a panic of any goroutine.\<close>

datatype fatal = InvalidConfig config_error | ClickHouseOpenFailed | ClickHousePingFailed | RedisPingFailed | AggregatorStartFailed

datatype boot_end = Exited fatal | Crashed panic

primrec ebind :: "'e + 'a \<Rightarrow> ('a \<Rightarrow> 'e + 'b) \<Rightarrow> 'e + 'b" where
  "ebind (Inl e) f = Inl e"
| "ebind (Inr x) f = f x"

definition fatal_unless :: "bool \<Rightarrow> fatal \<Rightarrow> boot_end + unit" where
  "fatal_unless ok e = (if ok then Inr () else Inl (Exited e))"

definition guarded :: "'a outcome \<Rightarrow> boot_end + 'a" where
  "guarded r = (case r of Inl p \<Rightarrow> Inl (Crashed p) | Inr x \<Rightarrow> Inr x)"

text \<open>
  The buffer of \<open>NewExchangeAggregator\<close>, \<open>make([]*models.Candle, 0, n)\<close>: the run-time system of 64-bit Linux
  panics on a capacity that is negative or beyond \<open>2^48\<close> bytes of pointers.
\<close>

definition make_batch :: "int \<Rightarrow> unit outcome" where
  "make_batch n = (if 0 \<le> n \<and> n \<le> 2 ^ 45 then Inr () else Inl MakeSliceOutOfRange)"

record boot_env =
  bo_now :: gotime
  bo_open :: bool                    \<comment> \<open>\<open>clickhouse.Open\<close> and the two pings succeed\<close>
  bo_ping :: bool
  bo_redis :: bool
  bo_proxies :: fetched              \<comment> \<open>the answers of the proxy list and of the symbol service\<close>
  bo_symbols :: symbols_answer

text \<open>The first part: the configuration is checked and the databases are reached.\<close>

definition boot_connect :: "boot_env \<Rightarrow> 'f config \<Rightarrow> boot_end + unit" where
  "boot_connect e cfg =
     ebind (case Validate cfg of Some err \<Rightarrow> Inl (Exited (InvalidConfig err)) | None \<Rightarrow> Inr ()) (\<lambda>_.
     ebind (fatal_unless (bo_open e) ClickHouseOpenFailed) (\<lambda>_.
     ebind (fatal_unless (bo_ping e) ClickHousePingFailed) (\<lambda>_.
     fatal_unless (bo_redis e) RedisPingFailed)))"

text \<open>The goroutines started here that create a ticker from the configuration panic when its period is not positive.\<close>

definition boot :: "'r \<Rightarrow> boot_env \<Rightarrow> 'f config \<Rightarrow> boot_end + ('d, 'r) system" where
  "boot redis e cfg =
     ebind (boot_connect e cfg) (\<lambda>_.
     let proxySvc = ps_Start (bo_now e) (bo_proxies e) NewProxyService;
         candleSvc = NewService redis
     in ebind (guarded (make_batch (cl_BatchWriteSize (cf_Service cfg)))) (\<lambda>_.
     let exchangeAgg = NewExchangeAggregator (bo_now e) (exchange_config_of cfg);
         candleSvc = SetExchangeAggregator candleSvc;
         intervalAgg = NewIntervalAggregator;
         exchangeAgg = ea_SetIntervalAggregator exchangeAgg;
         markPriceSvc = NewMarkService redis;
         symbolFetcher = NewSymbolFetcher;
         (started, exchangeAgg) = ea_Start exchangeAgg
     in ebind (fatal_unless started AggregatorStartFailed) (\<lambda>_.
     ebind (guarded (NewTicker (cl_BatchWriteInterval (cf_Service cfg)))) (\<lambda>_.
     ebind (guarded (sm_Start (\<lambda>symbol i. sv_delegate (SubscribeToInterval symbol i) candleSvc) (symbol_config_of cfg) (bo_now e) (bo_symbols e)
       (NewSymbolManager symbolFetcher, exchangeAgg))) (\<lambda>(symbolManager, exchangeAgg).
     ebind (guarded (if cs_AutoSubscribe (cf_Symbol cfg) then NewTicker (cs_RefreshInterval (cf_Symbol cfg)) else Inr ())) (\<lambda>_.
     let exchangeAgg = (if GetSubscribedCount symbolManager > 0 then TriggerReconnectAll exchangeAgg else exchangeAgg);
         candleSvc = Start24hStatsCalculator candleSvc
     in Inr \<lparr>sy_gs = \<lparr>gs_svc = candleSvc, gs_agg = exchangeAgg\<rparr>, sy_ia = intervalAgg, sy_mark = markPriceSvc,
          sy_manager = symbolManager, sy_proxy = proxySvc\<rparr>))))))"

section \<open>What a start gives\<close>

lemma sub_sim_cong:
  "ea_subscriptions a = ea_subscriptions b \<Longrightarrow> ea_activeStreams a = ea_activeStreams b \<Longrightarrow> sub_sim a M = sub_sim b M"
  by (simp add: sub_sim_def refs_ok_def held_def stream_refs_def)

text \<open>Subscribing changes the subscriptions, the streams and the signals, and nothing else.\<close>

definition same_core :: "'d exchange_aggregator \<Rightarrow> 'd exchange_aggregator \<Rightarrow> bool" where
  "same_core a b \<longleftrightarrow> ea_realtime a = ea_realtime b \<and> ea_isRunning a = ea_isRunning b \<and> ea_stopClosed a = ea_stopClosed b \<and>
     ea_currentBatch a = ea_currentBatch b \<and> ea_written a = ea_written b"

lemma same_core_refl [simp]: "same_core a a"
  by (simp add: same_core_def)

lemma same_core_signal [simp]: "same_core (signal_all a) b = same_core a b"
  by (simp add: same_core_def signal_all_def)

lemma same_core_update [simp]:
  "same_core (a\<lparr>ea_subscriptions := x\<rparr>) b = same_core a b" "same_core (a\<lparr>ea_activeStreams := y\<rparr>) b = same_core a b"
  by (simp_all add: same_core_def)

lemma same_core_subscribe [simp]: "same_core (SubscribeToInterval symbol i a) b = same_core a b"
  by (simp add: SubscribeToInterval_def Let_def split: option.split)

lemma same_core_unsubscribe [simp]: "same_core (UnsubscribeFromInterval symbol i a) b = same_core a b"
  by (simp add: UnsubscribeFromInterval_def Let_def split: option.split)

lemma same_core_trigger [simp]: "same_core (TriggerReconnectAll a) b = same_core a b"
  by (simp add: TriggerReconnectAll_def)

text \<open>So does a refresh, through any subscriber that only subscribes.\<close>

lemma same_core_loop:
  assumes "\<And>s a a'. sub s ''1m'' a = Some a' \<Longrightarrow> same_core a' b = same_core a b"
  shows "same_core (snd (fold (subscribe_new sub) ss (m, a))) b = same_core a b"
proof (induction ss arbitrary: m a)
  case (Cons s ss)
  have "same_core (snd (subscribe_new sub s (m, a))) b = same_core a b"
    using assms by (simp add: subscribe_new_def Let_def split: option.split)
  then show ?case using Cons.IH [of "fst (subscribe_new sub s (m, a))" "snd (subscribe_new sub s (m, a))"] by simp
qed simp

lemma same_core_refresh:
  assumes "\<And>s a a' b. sub s ''1m'' a = Some a' \<Longrightarrow> same_core a' b = same_core a b"
    and "refreshAndSubscribe sub cfg now ans (m, a) = Inr (ok, m', a')"
  shows "same_core a' a"
  using assms(2) same_core_loop [of sub, OF assms(1)]
  by (auto simp: refreshAndSubscribe_def Let_def obind_Inr_iff case_prod_unfold split: if_splits)

text \<open>The first refresh of the manager: it fetches, since nothing has been fetched yet.\<close>

definition fetch_ok :: "symbols_answer \<Rightarrow> bool" where
  "fetch_ok ans = (case ans of Parsed resp \<Rightarrow> br_Success resp \<and> br_Symbols resp \<noteq> [] | _ \<Rightarrow> False)"

lemma first_fetch:
  assumes "t_ns zero_time + Hour_d \<le> t_ns now"
  shows "GetSymbols now ans NewSymbolFetcher = FetchSymbols now ans NewSymbolFetcher"
    and "fst (snd (FetchSymbols now ans NewSymbolFetcher)) \<longleftrightarrow> fetch_ok ans"
proof -
  have "\<not> t_Sub now (sf_lastFetch NewSymbolFetcher) < sf_cacheTTL NewSymbolFetcher"
    using assms by (simp add: NewSymbolFetcher_def t_Sub_def clamp_bits_def)
  then show "GetSymbols now ans NewSymbolFetcher = FetchSymbols now ans NewSymbolFetcher" by (simp add: GetSymbols_def)
  show "fst (snd (FetchSymbols now ans NewSymbolFetcher)) \<longleftrightarrow> fetch_ok ans"
    by (auto simp: FetchSymbols_def fetch_ok_def split: symbols_answer.split)
qed

lemma applyStrategy_panics:
  "applyStrategy cfg ss = Inl p \<longleftrightarrow> p = SliceOutOfRange \<and> SubscriptionStrategy cfg = ''top_N'' \<and> MaxSymbols cfg < 0"
  by (auto simp: applyStrategy_def)

lemma start_manager:
  assumes "t_ns zero_time + Hour_d \<le> t_ns now"
  shows "(\<exists>p. sm_Start agg_subscribe cfg now ans (NewSymbolManager NewSymbolFetcher, a) = Inl p) \<longleftrightarrow>
    fetch_ok ans \<and> SubscriptionStrategy cfg = ''top_N'' \<and> MaxSymbols cfg < 0"
proof -
  obtain ss ok f where g: "FetchSymbols now ans NewSymbolFetcher = (ss, ok, f)" by (cases "FetchSymbols now ans NewSymbolFetcher") auto
  then have ok: "ok \<longleftrightarrow> fetch_ok ans" using first_fetch(2) [OF assms, of ans] by simp
  let ?ss = "if length ss = 0 then DefaultSymbols else ss"
  show ?thesis
  proof (cases "applyStrategy cfg ?ss")
    case (Inl p)
    then show ?thesis using ok g first_fetch(1) [OF assms, of ans] applyStrategy_panics [of cfg ?ss p]
      by (auto simp: sm_Start_def refreshAndSubscribe_def NewSymbolManager_def Let_def)
  next
    case (Inr ts)
    then have "\<not> (SubscriptionStrategy cfg = ''top_N'' \<and> MaxSymbols cfg < 0)"
      using applyStrategy_panics [of cfg ?ss SliceOutOfRange] by auto
    then show ?thesis using Inr ok g first_fetch(1) [OF assms, of ans]
      by (auto simp: sm_Start_def refreshAndSubscribe_def NewSymbolManager_def Let_def split: prod.split)
  qed
qed

lemma start_manager_holds:
  assumes "sub_sim a {#}" "answer_size ans \<le> K" "87 \<le> K" "K \<le> 2 ^ 31 - 1"
    and "sm_Start agg_subscribe cfg now ans (NewSymbolManager NewSymbolFetcher, a) = Inr (m, a')"
  shows "manager_holds K 1 {#} (m, a') \<and> same_core a' a"
proof -
  obtain ok where r: "refreshAndSubscribe agg_subscribe cfg now ans (NewSymbolManager NewSymbolFetcher, a) = Inr (ok, m, a')"
    using assms(5) by (auto simp: sm_Start_def obind_Inr_iff)
  have D: "length DefaultSymbols \<le> K" using assms(3) by (simp add: DefaultSymbols_def)
  have "manager_holds K 0 {#} (NewSymbolManager NewSymbolFetcher, a)"
    using assms(1) D by (simp add: manager_holds_def NewSymbolManager_def NewSymbolFetcher_def all_true_def GetSubscribedSymbols_def)
  then have "manager_holds K 1 {#} (m, a')" using refresh_holds [OF _ assms(2) D _ r] assms(4) by simp
  moreover have "same_core a' a"
    using r by (rule same_core_refresh [rotated]) auto
  ultimately show ?thesis by simp
qed

text \<open>The components are connected as \<open>main\<close> connects them, and nothing has been stopped.\<close>

definition wired :: "('d, 'r) system \<Rightarrow> bool" where
  "wired s \<longleftrightarrow> sv_exchangeAgg (gs_svc (sy_gs s)) \<and> sv_stats24hCalc (gs_svc (sy_gs s)) \<noteq> None \<and>
     rt_candleService (ea_realtime (gs_agg (sy_gs s))) \<and> rt_intervalAgg (ea_realtime (gs_agg (sy_gs s))) \<and>
     ea_isRunning (gs_agg (sy_gs s)) \<and> \<not> ea_stopClosed (gs_agg (sy_gs s)) \<and> \<not> ia_chanClosed (sy_ia s)"

text \<open>The settings a start does not survive.\<close>

definition fatal_settings :: "symbols_answer \<Rightarrow> 'f config \<Rightarrow> bool" where
  "fatal_settings ans cfg \<longleftrightarrow>
     \<not> (0 \<le> cl_BatchWriteSize (cf_Service cfg) \<and> cl_BatchWriteSize (cf_Service cfg) \<le> 2 ^ 45) \<or>
     cl_BatchWriteInterval (cf_Service cfg) \<le> 0 \<or>
     fetch_ok ans \<and> cs_SubscriptionStrategy (cf_Symbol cfg) = ''top_N'' \<and> cs_MaxSymbols (cf_Symbol cfg) < 0 \<or>
     cs_AutoSubscribe (cf_Symbol cfg) \<and> cs_RefreshInterval (cf_Symbol cfg) \<le> 0"

definition boot_agg :: "gotime \<Rightarrow> 'f config \<Rightarrow> 'd exchange_aggregator" where
  "boot_agg now cfg = snd (ea_Start (ea_SetIntervalAggregator (NewExchangeAggregator now (exchange_config_of cfg))))"

lemma boot_agg_facts:
  "sub_sim (boot_agg now cfg) {#}" "ea_isRunning (boot_agg now cfg)" "\<not> ea_stopClosed (boot_agg now cfg)"
  "ea_realtime (boot_agg now cfg) = SetIntervalAggregator (SetCandleService NewRealtimeCandleAggregator)"
proof -
  show "sub_sim (boot_agg now cfg) {#}"
    using sub_sim_New [of now "exchange_config_of cfg"]
    by (rule iffD1 [OF sub_sim_cong, rotated -1]) (simp_all add: boot_agg_def ea_Start_def ea_SetIntervalAggregator_def NewExchangeAggregator_def)
qed (simp_all add: boot_agg_def ea_Start_def ea_SetIntervalAggregator_def NewExchangeAggregator_def)

lemma ebind_Inr_iff: "ebind r f = Inr y \<longleftrightarrow> (\<exists>x. r = Inr x \<and> f x = Inr y)"
  by (cases r) auto

lemma guarded_Inr_iff [simp]: "guarded r = Inr x \<longleftrightarrow> r = Inr x"
  by (auto simp: guarded_def split: sum.split)

text \<open>The process after a start.\<close>

definition booted :: "'r \<Rightarrow> boot_env \<Rightarrow> symbol_manager \<Rightarrow> 'd exchange_aggregator \<Rightarrow> ('d, 'r) system" where
  "booted redis e m a = \<lparr>sy_gs = \<lparr>gs_svc = Start24hStatsCalculator (SetExchangeAggregator (NewService redis)),
       gs_agg = (if GetSubscribedCount m > 0 then TriggerReconnectAll a else a)\<rparr>,
     sy_ia = NewIntervalAggregator, sy_mark = NewMarkService redis, sy_manager = m,
     sy_proxy = ps_Start (bo_now e) (bo_proxies e) NewProxyService\<rparr>"

abbreviation first_refresh :: "boot_env \<Rightarrow> 'f config \<Rightarrow> (symbol_manager \<times> 'd exchange_aggregator) outcome" where
  "first_refresh e cfg \<equiv> sm_Start agg_subscribe (symbol_config_of cfg) (bo_now e) (bo_symbols e) (NewSymbolManager NewSymbolFetcher, boot_agg (bo_now e) cfg)"

lemma boot_eq:
  assumes "Validate cfg = None" "bo_open e" "bo_ping e" "bo_redis e"
  shows "boot redis e cfg =
    ebind (guarded (make_batch (cl_BatchWriteSize (cf_Service cfg)))) (\<lambda>_.
    ebind (guarded (NewTicker (cl_BatchWriteInterval (cf_Service cfg)))) (\<lambda>_.
    ebind (guarded (first_refresh e cfg)) (\<lambda>(m, a).
    ebind (guarded (if cs_AutoSubscribe (cf_Symbol cfg) then NewTicker (cs_RefreshInterval (cf_Symbol cfg)) else Inr ())) (\<lambda>_.
    Inr (booted redis e m a)))))"
proof -
  have st: "ea_Start (ea_SetIntervalAggregator (NewExchangeAggregator (bo_now e) (exchange_config_of cfg))) = (True, boot_agg (bo_now e) cfg)"
    by (simp add: boot_agg_def ea_Start_def ea_SetIntervalAggregator_def NewExchangeAggregator_def)
  have del: "sv_delegate f (SetExchangeAggregator (NewService redis)) = (\<lambda>a. Some (f a))" for f
    by (simp add: sv_delegate_def SetExchangeAggregator_def fun_eq_iff)
  show ?thesis
    unfolding boot_def Let_def st del booted_def
    using assms by (simp add: boot_connect_def fatal_unless_def)
qed

lemma boot_Inr:
  assumes "boot redis e cfg = Inr s"
  shows "\<exists>m a. first_refresh e cfg = Inr (m, a) \<and> s = booted redis e m a"
proof -
  have "Validate cfg = None" "bo_open e" "bo_ping e" "bo_redis e"
    using assms by (auto simp: boot_def boot_connect_def ebind_Inr_iff fatal_unless_def split: option.splits if_splits)
  note b = boot_eq [OF this]
  show ?thesis using assms unfolding b by (auto simp: ebind_Inr_iff)
qed

lemma first_refresh_core: "first_refresh e cfg = Inr (m, a) \<Longrightarrow> same_core a (boot_agg (bo_now e) cfg)"
  by (auto simp: sm_Start_def obind_Inr_iff intro: same_core_refresh [rotated])

lemma boot_wired:
  assumes "boot redis e cfg = Inr s"
  shows "wired s" "sy_ia s = NewIntervalAggregator"
    "ea_realtime (gs_agg (sy_gs s)) = SetIntervalAggregator (SetCandleService NewRealtimeCandleAggregator)"
proof -
  obtain m a where run: "first_refresh e cfg = Inr (m, a)" and s: "s = booted redis e m a" using boot_Inr [OF assms] by blast
  have "same_core (gs_agg (sy_gs s)) (boot_agg (bo_now e) cfg)" using first_refresh_core [OF run] by (simp add: s booted_def)
  then show "ea_realtime (gs_agg (sy_gs s)) = SetIntervalAggregator (SetCandleService NewRealtimeCandleAggregator)" and "wired s"
    by (simp_all add: same_core_def boot_agg_facts wired_def)
      (simp_all add: s booted_def Start24hStatsCalculator_def SetExchangeAggregator_def NewService_def NewIntervalAggregator_def
        SetIntervalAggregator_def SetCandleService_def)
  show "sy_ia s = NewIntervalAggregator" by (simp add: s booted_def)
qed

lemma boot_empty:
  assumes "boot redis e cfg = Inr s"
  shows "ea_currentBatch (gs_agg (sy_gs s)) = []" "ea_written (gs_agg (sy_gs s)) = []" "sy_mark s = NewMarkService redis"
proof -
  obtain m a where run: "first_refresh e cfg = Inr (m, a)" and s: "s = booted redis e m a" using boot_Inr [OF assms] by blast
  have "same_core (gs_agg (sy_gs s)) (boot_agg (bo_now e) cfg)" using first_refresh_core [OF run] by (simp add: s booted_def)
  then show "ea_currentBatch (gs_agg (sy_gs s)) = []" "ea_written (gs_agg (sy_gs s)) = []"
    by (simp_all add: same_core_def boot_agg_def ea_Start_def ea_SetIntervalAggregator_def NewExchangeAggregator_def)
  show "sy_mark s = NewMarkService redis" by (simp add: s booted_def)
qed

lemma start_realtime_ok: "rt_ok D (SetIntervalAggregator (SetCandleService NewRealtimeCandleAggregator))"
  by (intro rt_reachable_ok rt_reachable.step [OF rt_reachable.step [OF rt_reachable.start rt_step.set_service] rt_step.set_interval])

text \<open>Which starts crash.\<close>

lemma boot_total:
  fixes redis :: 'r and e cfg
  defines "r \<equiv> boot redis e cfg :: boot_end + ('d, 'r) system"
  assumes "Validate cfg = None" "bo_open e" "bo_ping e" "bo_redis e" "t_ns zero_time + Hour_d \<le> t_ns (bo_now e)"
  shows "if fatal_settings (bo_symbols e) cfg then \<exists>p. r = Inl (Crashed p) else \<exists>s. r = Inr s"
proof -
  let ?sm = "first_refresh e cfg :: (symbol_manager \<times> 'd exchange_aggregator) outcome"
  have sm: "(\<exists>p. ?sm = Inl p) \<longleftrightarrow>
      fetch_ok (bo_symbols e) \<and> cs_SubscriptionStrategy (cf_Symbol cfg) = ''top_N'' \<and> cs_MaxSymbols (cf_Symbol cfg) < 0"
    using start_manager [OF assms(6), of "symbol_config_of cfg" "bo_symbols e" "boot_agg (bo_now e) cfg :: 'd exchange_aggregator"]
    by (simp add: symbol_config_of_def Let_def)
  show ?thesis
    unfolding r_def boot_eq [OF assms(2-5)] fatal_settings_def using sm
    by (cases ?sm) (auto simp: guarded_def make_batch_def NewTicker_def)
qed

lemma Load_validates: "Validate (Load parseFloat zero env) = None"
  by (simp add: Load_def Validate_def getEnv_nonempty)


definition sample_boot :: boot_env where
  "sample_boot = \<lparr>bo_now = sample_time, bo_open = True, bo_ping = True, bo_redis = True, bo_proxies = RequestFailed, bo_symbols = sample_answer\<rparr>"

lemma default_settings:
  "\<not> fatal_settings ans (Load parseFloat zero (\<lambda>_. ''''))"
proof -
  have "show_nat 1 = ''1''" by code_simp
  then have "ParseDuration ''1s'' = Some 1000000000" "ParseDuration ''1h'' = Some 3600000000000"
    using ParseDuration_whole [of "''s''" 1000000000 1] ParseDuration_whole [of "''h''" 3600000000000 1] by (simp_all add: unitMap_def)
  then show ?thesis by (simp add: fatal_settings_def Load_def getEnv_def getEnvInt_def getEnvBool_def parseDuration_def)
qed


end
