(* ===== verification/Process.thy ===== *)
theory Process
  imports Server
begin

text \<open>
  \<open>cmd/server/main.go\<close>, running: \<open>sys_step\<close> is the running process, every goroutine of every component in any
  interleaving, with the calls between the components: a message of an exchange reaches the real-time
  aggregator, whose goroutines reach the interval aggregator and the statistics. \<open>shutdown\<close> is the sequence of
  stops after the signal.
\<close>

section \<open>The running process\<close>

abbreviation sys_agg :: "('d, 'r) system \<Rightarrow> 'd exchange_aggregator" where
  "sys_agg s \<equiv> gs_agg (sy_gs s)"

abbreviation sys_rt :: "('d, 'r) system \<Rightarrow> 'd realtime" where
  "sys_rt s \<equiv> ea_realtime (gs_agg (sy_gs s))"

definition set_agg :: "'d exchange_aggregator \<Rightarrow> ('d, 'r) system \<Rightarrow> ('d, 'r) system" where
  "set_agg a s = s\<lparr>sy_gs := (sy_gs s)\<lparr>gs_agg := a\<rparr>\<rparr>"

definition set_rt :: "'d realtime \<Rightarrow> ('d, 'r) system \<Rightarrow> ('d, 'r) system" where
  "set_rt rt s = set_agg ((sys_agg s)\<lparr>ea_realtime := rt\<rparr>) s"

lemma set_agg_sel [simp]:
  "sys_agg (set_agg a s) = a" "sy_ia (set_agg a s) = sy_ia s" "gs_svc (sy_gs (set_agg a s)) = gs_svc (sy_gs s)"
  by (simp_all add: set_agg_def)

lemma set_rt_sel [simp]:
  "sys_rt (set_rt rt s) = rt" "sy_ia (set_rt rt s) = sy_ia s" "gs_svc (sy_gs (set_rt rt s)) = gs_svc (sy_gs s)"
  by (simp_all add: set_rt_def)

text \<open>
  A goroutine of the real-time aggregator runs. The calls that leave it are made here: the one-minute
  candle goes to the statistics and to the interval aggregator, which \<open>main\<close> has connected.
\<close>

definition sys_task :: "'d decimal_ops \<Rightarrow> gotime \<Rightarrow> nat \<Rightarrow> ('d, 'r) system \<Rightarrow> ('d, 'r) system outcome" where
  "sys_task D now i s =
     (if i < length (rt_tasks (sys_rt s)) then
        (let s1 = set_rt (run_task D now i (sys_rt s)) s in
         case rt_tasks (sys_rt s) ! i of
           T_Stats c \<Rightarrow> Inr (s1\<lparr>sy_gs := (sy_gs s1)\<lparr>gs_svc := ProcessCandleForStats D now c (gs_svc (sy_gs s1))\<rparr>\<rparr>)
         | T_Interval c \<Rightarrow> obind (Process1mCandle D now c (sy_ia s1)) (\<lambda>ia. Inr (s1\<lparr>sy_ia := ia\<rparr>))
         | _ \<Rightarrow> Inr s1)
      else Inr s)"

text \<open>
  The steps of the process: a message of an exchange, whose symbols have no colon, as the exchanges' have
  none; a goroutine; a batch worker; subscriptions; the batch writer of the interval aggregator;
  a query; a historical rebuild; a refresh of the symbols, by the timer or over HTTP, and of the fetcher's cache;
  an update of the proxies; the requests for candles, prices and mark prices; and the two stops of the shutdown.
\<close>

inductive sys_step :: "'d decimal_ops \<Rightarrow> ('d, 'r) system \<Rightarrow> ('d, 'r) system \<Rightarrow> bool" for D where
  message: "\<forall>c\<in>set (message_candles D lz now name msg). CHR '':'' \<notin> set (c_Symbol c) \<Longrightarrow>
    sys_step D s (set_agg (process_message D lz now name msg (sys_agg s)) s)"
| goroutine: "sys_task D now i s = Inr s' \<Longrightarrow> sys_step D s s'"
| worker: "sys_step D s (set_agg (worker_step ev (sys_agg s)) s)"
| subscribe: "sys_step D s (set_agg (SubscribeToInterval symbol i (sys_agg s)) s)"
| unsubscribe: "sys_step D s (set_agg (UnsubscribeFromInterval symbol i (sys_agg s)) s)"
| writer: "ia_batchChan (sy_ia s) = c # q \<Longrightarrow> sys_step D s (s\<lparr>sy_ia := (sy_ia s)\<lparr>ia_batchChan := q\<rparr>\<rparr>)"
| query: "GetLatestInMemoryCandle D getc now symbol interval (Some (sy_ia s)) (sys_agg s) = (found, Some ia, a) \<Longrightarrow>
    sys_step D s ((set_agg a s)\<lparr>sy_ia := ia\<rparr>)"
| history: "sys_step D s (s\<lparr>sy_ia := snd (buildHistoricalInterval D lz ord getc save now symbol interval (sy_ia s))\<rparr>)"
| refresh: "refreshAndSubscribe (\<lambda>symbol i. sv_delegate (SubscribeToInterval symbol i) (gs_svc (sy_gs s))) scfg now ans (sy_manager s, sys_agg s) =
    Inr (ok, m, a) \<Longrightarrow> sys_step D s ((set_agg a s)\<lparr>sy_manager := m\<rparr>)"
| fetch: "sys_step D s (s\<lparr>sy_manager := (sy_manager s)\<lparr>sm_fetcher := snd (snd (FetchSymbols now ans (sm_fetcher (sy_manager s))))\<rparr>\<rparr>)"
| proxies: "sys_step D s (s\<lparr>sy_proxy := periodicUpdate now resp (sy_proxy s)\<rparr>)"
| get_candles: "sys_step D s (s\<lparr>sy_gs := snd (grpc_GetCandles B now req (sy_gs s))\<rparr>)"
| get_latest: "sys_step D s (s\<lparr>sy_gs := snd (grpc_GetLatestCandle B now req (sy_gs s))\<rparr>)"
| get_price: "sys_step D s (s\<lparr>sy_gs := snd (grpc_GetPrice B now symbol (sy_gs s))\<rparr>)"
| get_prices: "sys_step D s (s\<lparr>sy_gs := snd (grpc_GetPrices B now symbols (sy_gs s))\<rparr>)"
| get_mark: "mk_GetMarkPrice D R mcfg (\<lambda>symbol. ea_GetAggregatedPrice D symbol (sys_agg s)) now symbol (sy_mark s) = Inr (mp, ms) \<Longrightarrow>
    sys_step D s (s\<lparr>sy_mark := ms\<rparr>)"
| stop_intervals: "ia_Stop (sy_ia s) = Inr ia \<Longrightarrow> sys_step D s (s\<lparr>sy_ia := ia\<rparr>)"
| stop_exchanges: "ea_Stop D now (sys_agg s) = Inr a \<Longrightarrow> sys_step D s (set_agg a s)"

text \<open>
  The shutdown sequence of \<open>main\<close>: the gRPC server, which changes no state of the components, the interval
  aggregator, the exchange aggregator; the last step only writes to the log.
\<close>

definition shutdown :: "'d decimal_ops \<Rightarrow> gotime \<Rightarrow> ('d, 'r) system \<Rightarrow> ('d, 'r) system outcome" where
  "shutdown D now s =
     obind (ia_Stop (sy_ia s)) (\<lambda>ia.
     obind (ea_Stop D now (sys_agg s)) (\<lambda>a. Inr ((set_agg a s)\<lparr>sy_ia := ia\<rparr>)))"

text \<open>The invariant: those of the components, that they stay connected, and that no candle on its way has a colon in its symbol.\<close>

definition no_colon :: "'d candle \<Rightarrow> bool" where
  "no_colon c \<longleftrightarrow> CHR '':'' \<notin> set (c_Symbol c)"

fun task_ok :: "'d task \<Rightarrow> bool" where
  "task_ok (T_PublishCandle symbol interval (Some c)) = no_colon c"
| "task_ok (T_Interval c) = no_colon c"
| "task_ok _ = True"

definition rt_clean :: "'d realtime \<Rightarrow> bool" where
  "rt_clean rt \<longleftrightarrow> rt_intervalAgg rt \<and> list_all task_ok (rt_tasks rt) \<and> list_all (\<lambda>(k, l). CHR '':'' \<notin> set (l_Symbol l)) (rt_liveCandles rt)"

definition sys_ok :: "'d decimal_ops \<Rightarrow> ('d, 'r) system \<Rightarrow> bool" where
  "sys_ok D s \<longleftrightarrow> ia_ok (sy_ia s) \<and> rt_ok D (sys_rt s) \<and> rt_clean (sys_rt s)"

lemma clean_spawn [simp]: "rt_clean (spawn t s) \<longleftrightarrow> task_ok t \<and> rt_clean s"
  by (auto simp: rt_clean_def spawn_def)

lemma clean_fold_spawn [simp]:
  "(\<And>x. task_ok (f x)) \<Longrightarrow> rt_clean (fold (\<lambda>x. spawn (f x)) xs s) \<longleftrightarrow> rt_clean s"
  by (induction xs arbitrary: s) simp_all

lemma clean_update [simp]:
  "rt_clean (s\<lparr>rt_redis := x\<rparr>) = rt_clean s" "rt_clean (s\<lparr>rt_batchChan := q\<rparr>) = rt_clean s"
  "rt_clean (s\<lparr>rt_latestCandles := m\<rparr>) = rt_clean s" "rt_clean (s\<lparr>rt_livePrices := p\<rparr>) = rt_clean s"
  by (simp_all add: rt_clean_def)

lemma clean_publish: "rt_clean s \<Longrightarrow> (\<And>c. x = Some c \<Longrightarrow> no_colon c) \<Longrightarrow> rt_clean (publishCandleUpdate symbol interval x s)"
  by (auto simp: publishCandleUpdate_def Let_def split: option.split)

lemma clean_publishPrice: "rt_clean s \<Longrightarrow> rt_clean (publishPriceUpdate D now symbol p n s)"
  by (auto simp: publishPriceUpdate_def Let_def split: option.split)

lemma clean_price: "rt_clean s \<Longrightarrow> rt_clean (updateLivePrice D now symbol ex p s)"
  by (auto simp: updateLivePrice_def Let_def split: prod.split)

lemma clean_closed: "rt_clean s \<Longrightarrow> rt_clean (handleClosedCandle l a s)"
  by (simp add: handleClosedCandle_def Let_def split: option.split)

lemma aggregate_symbol: "aggregateLiveCandle D now l = Some c \<Longrightarrow> c_Symbol c = l_Symbol l"
  by (auto simp: aggregateLiveCandle_def Let_def split: if_splits)

lemma clean_process:
  assumes "rt_ok D s" "rt_clean s" "no_colon c"
  shows "rt_clean (ProcessCandleUpdate D now ex c s)"
proof -
  let ?l = "live_after D now ex c (map_of (rt_liveCandles s) (live_key c))"
  have "wf_map (rt_liveCandles s)" using assms(1) by (simp add: rt_ok_def)
  have l: "CHR '':'' \<notin> set (l_Symbol ?l)"
    using assms(2,3) by (auto simp: live_after_def Let_def no_colon_def rt_clean_def list_all_iff split: option.split dest: map_of_SomeD)
  have "rt_clean (s\<lparr>rt_liveCandles := store (live_key c) ?l (rt_liveCandles s)\<rparr>)"
    using assms(2) l set_store_wf [OF \<open>wf_map (rt_liveCandles s)\<close>, of "live_key c" ?l] by (auto simp: rt_clean_def list_all_iff)
  moreover have "task_ok (T_PublishCandle (c_Symbol c) (c_Interval c) (l_aggregated ?l))"
  proof (cases "l_aggregated ?l")
    case (Some y)
    then have "c_Symbol y = l_Symbol ?l" using aggregate_symbol [of D now ?l y] live_after_aggregated by metis
    then show ?thesis using Some l by (simp add: no_colon_def)
  qed simp
  ultimately show ?thesis
    unfolding ProcessCandleUpdate_eq Let_def by (simp add: clean_price clean_closed)
qed

lemma ok_messages:
  "rt_ok D s \<Longrightarrow> rt_clean s \<Longrightarrow> \<forall>c\<in>set cs. no_colon c \<Longrightarrow>
   rt_ok D (foldl (\<lambda>s c. ProcessCandleUpdate D now name c s) s cs) \<and> rt_clean (foldl (\<lambda>s c. ProcessCandleUpdate D now name c s) s cs)"
  by (induction cs arbitrary: s) (simp_all add: rt_ok_update clean_process)

lemma clean_run:
  assumes "rt_ok D s" "rt_clean s"
  shows "rt_clean (run_task D now i s)"
proof (cases "i < length (rt_tasks s)")
  case True
  let ?s = "s\<lparr>rt_tasks := take i (rt_tasks s) @ drop (Suc i) (rt_tasks s)\<rparr>"
  have "rt_clean ?s"
    using assms(2) by (auto simp: rt_clean_def list_all_iff dest: in_set_takeD in_set_dropD)
  moreover have "task_ok (rt_tasks s ! i)" using assms(2) True by (simp add: rt_clean_def list_all_length)
  moreover have "rt_clean (?s\<lparr>rt_liveCandles := remove k (rt_liveCandles ?s)\<rparr>)" for k
    using \<open>rt_clean ?s\<close> assms(1) by (auto simp: rt_clean_def list_all_iff set_remove_wf rt_ok_def)
  ultimately show ?thesis
    using True by (cases "rt_tasks s ! i")
      (auto simp: run_task_def exec_task_def clean_publishPrice intro!: clean_publish)
qed (simp add: run_task_def assms)

lemma rt_Stop_ok:
  assumes "rt_ok D s" "rt_clean s"
  shows "rt_ok D (rt_Stop D now s) \<and> rt_clean (rt_Stop D now s)"
proof -
  let ?f = "\<lambda>(_ :: string, live) s. case aggregateLiveCandle D now live of None \<Rightarrow> s
      | Some agg \<Rightarrow> publishCandleUpdate (l_Symbol live) (l_Interval live) (Some agg) s"
  have "rt_ok D (fold ?f ls u) \<and> rt_clean (fold ?f ls u)"
    if "\<forall>(k, l)\<in>set ls. CHR '':'' \<notin> set (l_Symbol l)" "rt_ok D u" "rt_clean u" for ls u
    using that
  proof (induction ls arbitrary: u)
    case (Cons p ls)
    obtain k l where p: "p = (k, l)" by (cases p)
    have "rt_ok D (?f p u) \<and> rt_clean (?f p u)"
      using Cons.prems aggregate_symbol [of D now l] unfolding p
      by (auto simp: rt_ok_publish no_colon_def split: option.split intro!: clean_publish)
    with Cons.IH [of "?f p u"] Cons.prems(1) show ?case by simp
  qed simp
  moreover have "\<forall>(k, l)\<in>set (rt_liveCandles s). CHR '':'' \<notin> set (l_Symbol l)" using assms(2) by (simp add: rt_clean_def list_all_iff)
  ultimately show ?thesis unfolding rt_Stop_def using assms by blast
qed

lemma sys_ok_task:
  assumes "sys_ok D s" "sys_task D now i s = Inr s'"
  shows "sys_ok D s'"
proof (cases "i < length (rt_tasks (sys_rt s))")
  case True
  have rt: "rt_ok D (run_task D now i (sys_rt s))" "rt_clean (run_task D now i (sys_rt s))"
    using assms(1) by (simp_all add: sys_ok_def rt_ok_run clean_run)
  have "task_ok (rt_tasks (sys_rt s) ! i)" using assms(1) True by (simp add: sys_ok_def rt_clean_def list_all_length)
  then show ?thesis
    using assms rt True ia_ok_Process1mCandle [of "sy_ia s"]
    by (cases "rt_tasks (sys_rt s) ! i") (auto simp: sys_task_def sys_ok_def Let_def obind_Inr_iff no_colon_def)
next
  case False
  then show ?thesis using assms by (simp add: sys_task_def)
qed

lemma clean_query: "rt_clean s \<Longrightarrow> rt_clean (snd (rt_GetLatestCandle repo now symbol interval s))"
  by (auto simp: rt_GetLatestCandle_def Let_def split: option.split list.split)

lemma flush_realtime [simp]: "ea_realtime (flushBatch a) = ea_realtime a"
  by (simp add: flushBatch_def)

lemma ea_Stop_realtime: "ea_Stop D now a = Inr a' \<Longrightarrow> ea_realtime a' = ea_realtime a \<or> ea_realtime a' = rt_Stop D now (ea_realtime a)"
  by (auto simp: ea_Stop_def Let_def split: if_splits)

lemma query_result:
  assumes "GetLatestInMemoryCandle D getc now symbol interval (Some i) a = (found, Some i', a')"
  shows "(ea_realtime a' = ea_realtime a \<or> ea_realtime a' = snd (rt_GetLatestCandle (Some getc) now symbol interval (ea_realtime a))) \<and>
    (i' = i \<or> i' = snd (ia_GetLatestCandle D getc now symbol interval i))"
  using assms by (auto simp: GetLatestInMemoryCandle_def Let_def split: prod.splits if_splits option.splits)

lemma sys_ok_rt: "sys_ok D s \<Longrightarrow> rt_ok D rt \<Longrightarrow> rt_clean rt \<Longrightarrow> sy_ia s' = sy_ia s \<Longrightarrow> sys_rt s' = rt \<Longrightarrow> sys_ok D s'"
  by (simp add: sys_ok_def)

text \<open>A request reaches the aggregator only by subscribing.\<close>

lemma same_core_delegate: "sv_delegate (SubscribeToInterval symbol i) svc a = Some a' \<Longrightarrow> same_core a' b = same_core a b"
  by (auto simp: sv_delegate_def split: if_splits)

lemma same_core_srv [simp]: "same_core (gs_agg (srv_subscribe symbol i g)) b = same_core (gs_agg g) b"
  using same_core_delegate [of symbol i "gs_svc g" "gs_agg g"] by (simp add: srv_subscribe_def split: option.split)

lemma same_core_srvs: "same_core (gs_agg (fold (\<lambda>symbol. srv_subscribe symbol i) symbols g)) b = same_core (gs_agg g) b"
  by (induction symbols arbitrary: g) simp_all

lemma requests_keep_core:
  "same_core (gs_agg (snd (grpc_GetCandles B now req g))) (gs_agg g)" "same_core (gs_agg (snd (grpc_GetLatestCandle B now req g))) (gs_agg g)"
  "same_core (gs_agg (snd (grpc_GetPrice B now symbol g))) (gs_agg g)" "same_core (gs_agg (snd (grpc_GetPrices B now symbols g))) (gs_agg g)"
  by (simp_all add: grpc_GetCandles_def grpc_GetLatestCandle_def grpc_GetPrice_def grpc_GetPrices_def Let_def same_core_srvs split: prod.split option.split)

lemma sys_ok_core: "sys_ok D s \<Longrightarrow> sy_ia s' = sy_ia s \<Longrightarrow> same_core (sys_agg s') (sys_agg s) \<Longrightarrow> sys_ok D s'"
  by (simp add: sys_ok_def same_core_def)

lemma sys_ok_step:
  assumes "sys_step D s s'" "sys_ok D s"
  shows "sys_ok D s'"
proof -
  have ok: "ia_ok (sy_ia s)" "rt_ok D (sys_rt s)" "rt_clean (sys_rt s)" using assms(2) by (simp_all add: sys_ok_def)
  show ?thesis
    using assms(1)
  proof cases
    case (message lz now name msg)
    then show ?thesis using ok ok_messages [OF ok(2,3), of "message_candles D lz now name msg" now name]
      by (simp add: sys_ok_def process_message_def no_colon_def)
  next
    case (goroutine now i)
    then show ?thesis using assms(2) sys_ok_task by blast
  next
    case (worker ev)
    then show ?thesis using ok by (auto simp: sys_ok_def worker_step_def rt_ok_def split: worker_event.split list.split)
  next
    case (subscribe symbol i)
    then show ?thesis using ok same_core_subscribe [of symbol i "sys_agg s" "sys_agg s"] by (simp add: sys_ok_def same_core_def)
  next
    case (unsubscribe symbol i)
    then show ?thesis using ok same_core_unsubscribe [of symbol i "sys_agg s" "sys_agg s"] by (simp add: sys_ok_def same_core_def)
  next
    case (writer c q)
    then show ?thesis using ok ia_ok_step [OF ia_step.receive] by (simp add: sys_ok_def)
  next
    case (query getc now symbol interval found ia a)
    then show ?thesis
      using query_result [OF query(2)] ok rt_ok_query [OF ok(2)] clean_query [OF ok(3)] ia_ok_step [OF ia_step.query_latest ok(1)]
      by (auto simp: sys_ok_def)
  next
    case history
    then show ?thesis using ok ia_ok_buildHistorical by (simp add: sys_ok_def)
  next
    case (refresh scfg now ans ok' m a)
    have "same_core a (sys_agg s)" using refresh(2) by (rule same_core_refresh [rotated]) (rule same_core_delegate)
    then show ?thesis using sys_ok_core [OF assms(2), of s'] refresh(1) by (simp add: set_agg_def)
  next
    case (stop_intervals ia)
    then show ?thesis using ok ia_ok_step [OF ia_step.stop] by (simp add: sys_ok_def)
  next
    case (stop_exchanges now a)
    then show ?thesis using ok rt_Stop_ok [OF ok(2,3), of now] ea_Stop_realtime [OF stop_exchanges(2)] by (auto simp: sys_ok_def)
  qed (simp_all add: sys_ok_core [OF assms(2)] requests_keep_core)
qed

text \<open>A start that succeeds establishes the invariant, whatever the configuration.\<close>

lemma boot_ok: "boot redis e cfg = Inr s \<Longrightarrow> sys_ok D s"
  using boot_wired [of redis e cfg s] start_realtime_ok [of D] ia_ok_New
  by (simp add: sys_ok_def rt_clean_def SetIntervalAggregator_def SetCandleService_def NewRealtimeCandleAggregator_def)

lemma sys_run_ok:
  assumes "boot redis e cfg = Inr s0" "(sys_step D)\<^sup>*\<^sup>* s0 s"
  shows "sys_ok D s"
  using assms(2) by (induction rule: rtranclp_induct) (use boot_ok [OF assms(1)] sys_ok_step in blast)+

text \<open>
  C37. When a goroutine can panic. In every state the process reaches from a start, a pending goroutine of the
  real-time aggregator panics exactly when it hands a one-minute candle to an interval aggregator that has
  been stopped while a candle under construction of that symbol is due by the opening of that minute. So until
  the shutdown has stopped the interval aggregator no such goroutine ever panics.
\<close>

theorem goroutine_panics_iff:
  assumes "boot redis e cfg = Inr s0" "(sys_step D)\<^sup>*\<^sup>* s0 s" "i < length (rt_tasks (sys_rt s))"
  shows "(\<exists>p. sys_task D now i s = Inl p) \<longleftrightarrow> ia_chanClosed (sy_ia s) \<and>
    (\<exists>c. rt_tasks (sys_rt s) ! i = T_Interval c \<and>
      (\<exists>(k, b)\<in>set (ia_buildingCandles (sy_ia s)). b_Symbol b = c_Symbol c \<and> t_ns (b_CloseTime b) \<le> t_ns (c_OpenTime c)))"
proof -
  note ok = sys_run_ok [OF assms(1,2)]
  show ?thesis
  proof (cases "\<exists>c. rt_tasks (sys_rt s) ! i = T_Interval c")
    case True
    then obtain c where c: "rt_tasks (sys_rt s) ! i = T_Interval c" by blast
    then have nc: "CHR '':'' \<notin> set (c_Symbol c)"
      using ok assms(3) by (auto simp: sys_ok_def rt_clean_def list_all_length no_colon_def dest!: spec [of _ i])
    have ia: "ia_ok (sy_ia s)" using ok by (simp add: sys_ok_def)
    have "(\<exists>p. sys_task D now i s = Inl p) \<longleftrightarrow> (\<exists>p. Process1mCandle D now c (sy_ia s) = Inl p)"
      using assms(3) c by (cases "Process1mCandle D now c (sy_ia s)") (auto simp: sys_task_def Let_def)
    also have "\<dots> \<longleftrightarrow> ia_chanClosed (sy_ia s) \<and> set (expired_of (c_Symbol c) (c_OpenTime c) (sy_ia s)) \<noteq> {}"
      by (simp add: Process1mCandle_eq [OF ia nc])
    finally show ?thesis unfolding set_expired_of [OF ia] using c by (auto simp: expired_iff)
  next
    case False
    then show ?thesis using assms(3) by (cases "rt_tasks (sys_rt s) ! i") (auto simp: sys_task_def Let_def)
  qed
qed

section \<open>From the exchange to the intervals\<close>

lemma spawned_task: "t \<in> set (rt_tasks s) \<Longrightarrow> \<exists>i < length (rt_tasks s). rt_tasks s ! i = t"
  by (auto simp: in_set_conv_nth)

lemma update_spawns:
  "T_PublishCandle (c_Symbol c) (c_Interval c) (l_aggregated (live_after D now ex c (map_of (rt_liveCandles s) (live_key c))))
     \<in> set (rt_tasks (ProcessCandleUpdate D now ex c s))"
  by (auto simp: ProcessCandleUpdate_eq Let_def updateLivePrice_def handleClosedCandle_def spawn_def split: prod.split option.split)

lemma publish_spawns:
  assumes "rt_intervalAgg s"
  shows "T_Interval c \<in> set (rt_tasks (publishCandleUpdate symbol ''1m'' (Some c) s))"
proof -
  have keep: "t \<in> set (rt_tasks u) \<Longrightarrow> t \<in> set (rt_tasks (fold (\<lambda>x. spawn (f x)) xs u))" for t u f and xs :: "nat list"
    by (induction xs arbitrary: u) (auto simp: spawn_def)
  show ?thesis using assms by (auto simp: publishCandleUpdate_def Let_def spawn_def intro!: keep split: option.split)
qed

lemma task_Interval:
  assumes "sys_ok D s" "\<not> ia_chanClosed (sy_ia s)" "i < length (rt_tasks (sys_rt s))" "rt_tasks (sys_rt s) ! i = T_Interval c"
  shows "\<exists>s'. sys_task D now i s = Inr s' \<and> Process1mCandle D now c (sy_ia s) = Inr (sy_ia s')"
proof -
  have "CHR '':'' \<notin> set (c_Symbol c)" "ia_ok (sy_ia s)"
    using assms(1,3,4) by (auto simp: sys_ok_def rt_clean_def list_all_length no_colon_def dest!: spec [of _ i])
  then show ?thesis using assms(2-4) Process1mCandle_eq [of "sy_ia s" c D now] by (auto simp: sys_task_def Let_def)
qed

lemma bucket_add_holds: "map_of (b_candles1m (bucket_add c i old)) (t_Unix (c_OpenTime c)) = Some c"
  by (simp add: bucket_add_def Let_def)

text \<open>
  C1. A minute reaches every interval. When a running process, whose interval aggregator has not been stopped,
  receives a message with a one-minute candle, the candle merged from all exchanges for that minute is
  \<open>g\<close>, and the goroutines it starts are run, then the candle under construction of each of the fourteen higher
  intervals holds \<open>g\<close> for that minute, under its own key; none of the calls on the way panics.
\<close>

theorem minute_reaches_every_interval:
  assumes "boot redis e cfg = Inr s0" "(sys_step D)\<^sup>*\<^sup>* s0 s" "\<not> ia_chanClosed (sy_ia s)"
    and "message_candles D lz now name msg = [c]" "c_Interval c = ''1m''" "CHR '':'' \<notin> set (c_Symbol c)"
    and "s1 = set_agg (process_message D lz now name msg (sys_agg s)) s"
    and "map_of (rt_liveCandles (sys_rt s1)) (live_key c) = Some l" "l_aggregated l = Some g"
  shows "\<exists>i s2 j s3. sys_task D now1 i s1 = Inr s2 \<and> sys_task D now2 j s2 = Inr s3 \<and>
    (\<forall>iv\<in>set agg_intervals. \<exists>b. map_of (ia_buildingCandles (sy_ia s3)) (bucket_key g iv) = Some b \<and>
       map_of (b_candles1m b) (t_Unix (c_OpenTime g)) = Some g)"
proof -
  have "sys_step D s s1" unfolding assms(7) using assms(4,6) by (intro sys_step.message) simp
  then have ok1: "sys_ok D s1" using sys_run_ok [OF assms(1,2)] sys_ok_step by blast
  have rt1: "sys_rt s1 = ProcessCandleUpdate D now name c (sys_rt s)" by (simp add: assms(4,7) process_message_def)
  have "l = live_after D now name c (map_of (rt_liveCandles (sys_rt s)) (live_key c))"
    using assms(8) unfolding rt1 ProcessCandleUpdate_live by simp
  then have "T_PublishCandle (c_Symbol c) ''1m'' (Some g) \<in> set (rt_tasks (sys_rt s1))"
    using update_spawns [of c D now name "sys_rt s"] assms(5,9) unfolding rt1 by simp
  then obtain i where i: "i < length (rt_tasks (sys_rt s1))" "rt_tasks (sys_rt s1) ! i = T_PublishCandle (c_Symbol c) ''1m'' (Some g)"
    using spawned_task by blast
  define s2 where "s2 = set_rt (run_task D now1 i (sys_rt s1)) s1"
  have run1: "sys_task D now1 i s1 = Inr s2" using i by (simp add: sys_task_def s2_def)
  then have ok2: "sys_ok D s2" using sys_ok_task ok1 by blast
  have "rt_intervalAgg (sys_rt s1)" using ok1 by (simp add: sys_ok_def rt_clean_def)
  then have "T_Interval g \<in> set (rt_tasks (sys_rt s2))"
    using i by (simp add: s2_def run_task_def exec_task_def publish_spawns)
  then obtain j where j: "j < length (rt_tasks (sys_rt s2))" "rt_tasks (sys_rt s2) ! j = T_Interval g" using spawned_task by blast
  have "\<not> ia_chanClosed (sy_ia s2)" using assms(3) by (simp add: s2_def assms(7))
  then obtain s3 where s3: "sys_task D now2 j s2 = Inr s3" "Process1mCandle D now2 g (sy_ia s2) = Inr (sy_ia s3)"
    using task_Interval [OF ok2 _ j] by blast
  have "ia_ok (sy_ia s2)" "CHR '':'' \<notin> set (c_Symbol g)"
    using ok2 j by (auto simp: sys_ok_def rt_clean_def list_all_length no_colon_def dest!: spec [of _ j])
  then show ?thesis using run1 s3 Process1mCandle_bucket [OF _ _ s3(2)] bucket_add_holds by blast
qed

text \<open>
  Nothing orders the goroutines of two updates of one minute: when the one of the older update runs last, its
  candle is the one every interval keeps.
\<close>

lemma late_goroutine_overwrites:
  assumes "ia_ok s" "\<not> ia_chanClosed s" "CHR '':'' \<notin> set (c_Symbol old)" "c_Symbol new = c_Symbol old" "c_OpenTime new = c_OpenTime old"
    and "Process1mCandle D now new s = Inr s1" "Process1mCandle D now1 old s1 = Inr s2" "iv \<in> set agg_intervals"
  shows "\<exists>b. map_of (ia_buildingCandles s2) (bucket_key new iv) = Some b \<and> map_of (b_candles1m b) (t_Unix (c_OpenTime new)) = Some old"
proof -
  have "ia_ok s1" using ia_ok_Process1mCandle [OF assms(1) _ assms(6)] assms(3,4) by simp
  from Process1mCandle_bucket [OF this assms(3,7,8)] show ?thesis
    using assms(4,5) bucket_add_holds [of old] by (simp add: bucket_key_def)
qed

section \<open>The shutdown\<close>

lemma fold_spawn_connected [simp]: "rt_intervalAgg (fold (\<lambda>x. spawn (f x)) xs s) = rt_intervalAgg s"
  by (induction xs arbitrary: s) simp_all

lemma publish_keeps:
  "rt_intervalAgg (publishCandleUpdate symbol interval x s) = rt_intervalAgg s"
  "t \<in> set (rt_tasks s) \<Longrightarrow> t \<in> set (rt_tasks (publishCandleUpdate symbol interval x s))"
  by (simp_all add: publishCandleUpdate_def Let_def split: option.split)

lemma Stop_spawns:
  assumes "(k, l) \<in> set (rt_liveCandles s)" "l_Interval l = ''1m''" "aggregateLiveCandle D now l = Some g" "rt_intervalAgg s"
  shows "T_Interval g \<in> set (rt_tasks (rt_Stop D now s))"
proof -
  let ?f = "\<lambda>(_ :: string, live) s. case aggregateLiveCandle D now live of None \<Rightarrow> s
      | Some agg \<Rightarrow> publishCandleUpdate (l_Symbol live) (l_Interval live) (Some agg) s"
  have keep: "rt_intervalAgg (?f p u) = rt_intervalAgg u" "t \<in> set (rt_tasks u) \<Longrightarrow> t \<in> set (rt_tasks (?f p u))" for p u t
    by (cases p, simp add: publish_keeps split: option.split)+
  have stay: "t \<in> set (rt_tasks u) \<Longrightarrow> t \<in> set (rt_tasks (fold ?f ls u))" for t u ls
    by (induction ls arbitrary: u) (simp_all add: keep(2))
  have "T_Interval g \<in> set (rt_tasks (fold ?f ls u))" if "(k, l) \<in> set ls" "rt_intervalAgg u" for ls u
    using that
  proof (induction ls arbitrary: u)
    case (Cons p ls)
    show ?case
    proof (cases "p = (k, l)")
      case True
      then have "T_Interval g \<in> set (rt_tasks (?f p u))" using assms(2,3) Cons.prems(2) by (simp add: publish_spawns)
      then show ?thesis using stay by simp
    next
      case False
      then have "(k, l) \<in> set ls" "rt_intervalAgg (?f p u)" using Cons.prems keep(1) by auto
      then show ?thesis using Cons.IH [of "?f p u"] by simp
    qed
  qed simp
  then show ?thesis unfolding rt_Stop_def using assms(1,4) by blast
qed


section \<open>A run\<close>

text \<open>A start with the default settings, and one message of Binance.\<close>

abbreviation sample_settings :: "int config" where
  "sample_settings \<equiv> Load (\<lambda>_. None) 0 (\<lambda>_. '''')"

definition sample_message :: "(string \<times> json) list option" where
  "sample_message = Some [(''e'', JStr ''kline''), (''s'', JStr ''BTCUSDT''),
      (''k'', JObj [(''t'', JNum (of_int 1699999980000)), (''T'', JNum (of_int 1700000039999)), (''s'', JStr ''BTCUSDT''), (''i'', JStr ''1m''),
        (''o'', JStr ''36.5''), (''c'', JStr ''36.6''), (''h'', JStr ''36.7''), (''l'', JStr ''36.4''), (''v'', JStr ''12''),
        (''n'', JNum (of_int 7)), (''x'', JBool True), (''q'', JStr ''438''), (''V'', JStr ''6''), (''Q'', JStr ''219'')])]"

abbreviation after_message :: "(fixdec, 'r) system \<Rightarrow> (fixdec, 'r) system" where
  "after_message s \<equiv> set_agg (process_message fd_ops 0 sample_time ''Binance'' sample_message (sys_agg s)) s"

lemma sample_boots:
  fixes redis :: 'r
  shows "\<exists>s :: (fixdec, 'r) system. boot redis sample_boot sample_settings = Inr s"
proof -
  have "t_ns zero_time + Hour_d \<le> t_ns (bo_now sample_boot)" by (simp add: sample_boot_def sample_time_def zero_time_def)
  from boot_total [OF Load_validates _ _ _ this, of "\<lambda>_. None" "0 :: int" "\<lambda>_. ''''" redis, where ?'d = fixdec]
  show ?thesis using default_settings [of "bo_symbols sample_boot" "\<lambda>_. None" "0 :: int"] by (simp add: sample_boot_def)
qed

lemma sample_decoded:
  "\<exists>c. message_candles fd_ops 0 sample_time ''Binance'' sample_message = [c] \<and> c_Symbol c = ''BTCUSDT'' \<and> c_Interval c = ''1m'' \<and>
     c_Open c = fd_parse ''36.5'' \<and> c_High c = fd_parse ''36.7'' \<and> c_Low c = fd_parse ''36.4'' \<and> c_Close c = fd_parse ''36.6'' \<and>
     c_Volume c = fd_parse ''12'' \<and> c_QuoteVolume c = fd_parse ''438'' \<and> c_IsClosed c"
  using binance_message_decoded [of 1699999980000 1700000039999 7 fd_ops sample_time "''BTCUSDT''" "''1m''"
    "''36.5''" "''36.6''" "''36.7''" "''36.4''" "''12''" True "''438''" "''6''" "''219''"]
  by (auto simp: message_candles_def sample_message_def fd_ops_def)

lemma sample_merged:
  assumes "boot redis sample_boot sample_settings = Inr s" "message_candles fd_ops 0 sample_time ''Binance'' sample_message = [c]" "c_Open c = fd_parse ''36.5''"
  shows "\<exists>l g. map_of (rt_liveCandles (sys_rt (after_message s))) (live_key c) = Some l \<and> l_aggregated l = Some g \<and>
    l_Interval l = c_Interval c \<and> (live_key c, l) \<in> set (rt_liveCandles (sys_rt (after_message s)))"
proof -
  let ?l = "live_after fd_ops sample_time ''Binance'' c None"
  have "rt_liveCandles (sys_rt s) = []"
    using boot_wired(3) [OF assms(1)] by (simp add: SetIntervalAggregator_def SetCandleService_def NewRealtimeCandleAggregator_def)
  then have live: "rt_liveCandles (sys_rt (after_message s)) = [(live_key c, ?l)]"
    by (simp add: process_message_def assms(2) ProcessCandleUpdate_live)
  have "\<not> fd_iszero (fd_parse ''36.5'')" by code_simp
  then have "l_aggregated ?l \<noteq> None"
    by (simp add: live_after_def Let_def aggregateLiveCandle_def live_step_def exchange_data_of_def live_acc_start_def assms(3) fd_ops_def)
  then show ?thesis unfolding live by (auto simp: live_after_def Let_def)
qed

lemma sample_run:
  assumes "boot redis sample_boot sample_settings = Inr s"
  shows "(sys_step fd_ops)\<^sup>*\<^sup>* s (after_message s)"
proof -
  have "\<forall>c\<in>set (message_candles fd_ops 0 sample_time ''Binance'' sample_message). CHR '':'' \<notin> set (c_Symbol c)"
    using sample_decoded by auto
  then show ?thesis by (intro r_into_rtranclp sys_step.message)
qed

theorem goroutine_panics_iff_witness:
  "\<exists>s :: (fixdec, unit) system. boot () sample_boot sample_settings = Inr s \<and> rt_tasks (sys_rt (after_message s)) \<noteq> [] \<and>
     (\<nexists>p. sys_task fd_ops sample_time 0 (after_message s) = Inl p)"
proof -
  obtain s :: "(fixdec, unit) system" where b: "boot () sample_boot sample_settings = Inr s" using sample_boots [of "()"] by blast
  obtain c where c: "message_candles fd_ops 0 sample_time ''Binance'' sample_message = [c]" using sample_decoded by blast
  have "rt_tasks (sys_rt (after_message s)) \<noteq> []"
    using update_spawns [of c fd_ops sample_time "''Binance''" "sys_rt s"] by (auto simp: process_message_def c)
  moreover have "\<not> ia_chanClosed (sy_ia (after_message s))" using boot_wired(2) [OF b] by (simp add: NewIntervalAggregator_def)
  ultimately show ?thesis
    using goroutine_panics_iff [OF b sample_run [OF b], of 0 sample_time] b by auto
qed

theorem minute_reaches_every_interval_witness:
  "\<exists>(s :: (fixdec, unit) system) g i s2 j s3 b. boot () sample_boot sample_settings = Inr s \<and>
     sys_task fd_ops sample_time i (after_message s) = Inr s2 \<and> sys_task fd_ops sample_time j s2 = Inr s3 \<and>
     map_of (ia_buildingCandles (sy_ia s3)) (bucket_key g ''1h'') = Some b \<and> map_of (b_candles1m b) (t_Unix (c_OpenTime g)) = Some g"
proof -
  obtain s :: "(fixdec, unit) system" where b: "boot () sample_boot sample_settings = Inr s" using sample_boots [of "()"] by blast
  obtain c where c: "message_candles fd_ops 0 sample_time ''Binance'' sample_message = [c]" "c_Symbol c = ''BTCUSDT''" "c_Interval c = ''1m''"
      "c_Open c = fd_parse ''36.5''" using sample_decoded by blast
  obtain l g where l: "map_of (rt_liveCandles (sys_rt (after_message s))) (live_key c) = Some l" "l_aggregated l = Some g"
    using sample_merged [OF b c(1,4)] by blast
  have "\<not> ia_chanClosed (sy_ia s)" "CHR '':'' \<notin> set (c_Symbol c)" using boot_wired(2) [OF b] by (simp_all add: NewIntervalAggregator_def c(2))
  moreover have "''1h'' \<in> set agg_intervals" by (simp add: agg_intervals_def)
  ultimately show ?thesis
    using minute_reaches_every_interval [OF b rtranclp.rtrancl_refl _ c(1,3) _ refl l, of sample_time sample_time] b by blast
qed


end
