(* ===== verification/Merge_Equivalence.thy ===== *)
theory Merge_Equivalence
  imports Exchange_Aggregator
begin

text \<open>
  The program merges the candles of several exchanges twice: \<open>aggregateCandles\<close> of \<open>exchange_aggregator.go\<close> works on the candles of one timestamp,
  \<open>aggregateLiveCandle\<close> of \<open>realtime_candle_aggregator.go\<close> on the live data of a minute. This theory relates
  the two loops step by step.
\<close>

section \<open>The two loops\<close>

definition same_sums :: "'d merge_acc \<Rightarrow> 'd live_acc \<Rightarrow> bool" where
  "same_sums m a \<longleftrightarrow> ma_totalOpen m = la_totalOpen a \<and> ma_totalClose m = la_totalClose a \<and> ma_totalVolume m = la_totalVolume a \<and>
     ma_totalQuoteVolume m = la_totalQuoteVolume a \<and> ma_maxHigh m = la_maxHigh a \<and> ma_minLow m = la_minLow a \<and>
     ma_totalTradeCount m = la_totalTradeCount a \<and> ma_validCount m = la_validCount a \<and> ma_firstCandle m = la_firstExchange a"

lemma same_sums_start: "same_sums (merge_start D) (live_acc_start D)"
  by (simp add: same_sums_def merge_start_def live_acc_start_def)

lemma same_sums_step: "same_sums m a \<Longrightarrow> same_sums (merge_step D m c) (live_step D a (exchange_data_of now c))"
  by (simp add: same_sums_def merge_step_def live_step_def exchange_data_of_def Let_def)

lemma same_sums_fold:
  "same_sums m a \<Longrightarrow> same_sums (foldl (merge_step D) m cs) (foldl (live_step D) a (map (exchange_data_of now) cs))"
  by (induction cs arbitrary: m a) (simp_all add: same_sums_step)

definition reported :: "'d decimal_ops \<Rightarrow> 'd candle \<Rightarrow> bool" where
  "reported D c \<longleftrightarrow> \<not> (d_IsZero D (c_Open c) \<and> d_IsZero D (c_Close c))"

text \<open>What the loops count.\<close>

lemma merge_counts:
  "ma_validCount (foldl (merge_step D) m cs) = ma_validCount m + int (length (filter (reported D) cs))"
  "ma_totalTradeCount (foldl (merge_step D) m cs) = ma_totalTradeCount m + (\<Sum>c\<leftarrow>filter (reported D) cs. c_TradeCount c)"
  by (induction cs arbitrary: m) (simp_all add: merge_step_def reported_def Let_def)

lemma live_closed:
  "la_anyClosed (foldl (live_step D) a (map (exchange_data_of now) cs)) \<longleftrightarrow> la_anyClosed a \<or> (\<exists>c\<in>set cs. reported D c \<and> c_IsClosed c)"
  by (induction cs arbitrary: a) (auto simp: live_step_def reported_def exchange_data_of_def Let_def)

section \<open>The two candles\<close>

text \<open>
  C14. Two routines, one merge. Give the same candles of some exchanges, in the same order of the map, to the
  routine for pending candles and to the one for the live candle: both find a candle or neither does, and the two
  have the same open, high, low, close, volume and quote volume, digit for digit, and agree in every other field but
  four. They differ in the times, in the trade count, which is the sum of the trades in one and the number of
  the exchanges in the other, and in when a candle counts as closed: when every exchange
  has closed it and at least three report, or as soon as one has.
\<close>

theorem pending_and_live_merge_agree:
  "case aggregateLiveCandle D now (live\<lparr>l_exchangeData := map (\<lambda>(exchange, c). (exchange, exchange_data_of t c)) candles\<rparr>) of
     None \<Rightarrow> aggregateCandles D now (l_Symbol live) (l_Interval live) candles = None
   | Some g \<Rightarrow>
       (\<exists>c. aggregateCandles D now (l_Symbol live) (l_Interval live) candles = Some c \<and>
         c\<lparr>c_OpenTime := c_OpenTime g, c_CloseTime := c_CloseTime g, c_TradeCount := c_TradeCount g, c_IsClosed := c_IsClosed g\<rparr> = g \<and>
         (let cs = map snd candles; reports = filter (reported D) cs in
          c_TradeCount c = (\<Sum>x\<leftarrow>reports. c_TradeCount x) \<and> c_TradeCount g = int (length reports) \<and>
          c_IsClosed c = (list_all c_IsClosed cs \<and> 3 \<le> length reports) \<and> c_IsClosed g = list_ex c_IsClosed reports))"
proof -
  let ?cs = "map snd candles"
  let ?m = "foldl (merge_step D) (merge_start D) ?cs" and ?a = "foldl (live_step D) (live_acc_start D) (map (exchange_data_of t) ?cs)"
  have ds: "map (snd \<circ> (\<lambda>(exchange, c). (exchange, exchange_data_of t c))) candles = map (exchange_data_of t) ?cs"
    by (simp add: case_prod_beta comp_def)
  have eq: "same_sums ?m ?a" by (rule same_sums_fold [OF same_sums_start])
  have "ma_validCount ?m = int (length (filter (reported D) ?cs))" "ma_totalTradeCount ?m = (\<Sum>x\<leftarrow>filter (reported D) ?cs. c_TradeCount x)"
    by (simp_all add: merge_counts merge_start_def)
  moreover have "la_anyClosed ?a = list_ex c_IsClosed (filter (reported D) ?cs)"
    unfolding live_closed by (auto simp: live_acc_start_def list_ex_iff)
  moreover have "candles = [] \<Longrightarrow> ma_validCount ?m = 0" by (simp add: merge_start_def)
  ultimately show ?thesis
    using eq by (auto simp: aggregateLiveCandle_def aggregateCandles_def merged_candle_def same_sums_def ds Let_def)
qed

end
