(* ===== verification/Decimal_Text.thy ===== *)
theory Decimal_Text
  imports Decimal
begin

text \<open>
  The text of a decimal. The stand-in for the decimal package prints a value without trailing zeros and reads it back: the value survives, though the
  scale may shrink. It is what the storage of a candle relies on when the table prints its decimals.
\<close>

lemma read_nat_append: "read_nat (a @ b) = read_nat a * 10 ^ length b + read_nat b"
proof (induction b rule: rev_induct)
  case (snoc c b)
  have "read_nat (xs @ [c]) = 10 * read_nat xs + digit_val c" for xs by (simp add: read_nat_def)
  from this [of "a @ b"] this [of b] show ?case using snoc by (simp add: algebra_simps)
qed (simp add: read_nat_def)

lemma read_nat_zeros [simp]: "read_nat (replicate k (CHR ''0'')) = 0"
  by (induction k) (simp_all add: read_nat_append read_nat_def digit_val_def)

lemma show_nat_length: "n < 10 ^ k \<Longrightarrow> 0 < k \<Longrightarrow> length (show_nat n) \<le> k"
proof (induction n arbitrary: k rule: show_nat.induct)
  case (1 n)
  show ?case
  proof (cases "n < 10")
    case False
    then obtain j where j: "k = Suc j" "0 < j" using 1(2,3) by (cases k; cases "k - 1") auto
    then have "n div 10 < 10 ^ j" using 1(2) by (simp add: less_mult_imp_div_less mult.commute)
    then show ?thesis using 1(1) [OF False _ j(2)] False j by (simp add: show_nat.simps [of n])
  qed (use 1(3) in \<open>simp add: show_nat.simps [of n]\<close>)
qed

lemma digit_zero: "is_digit (CHR ''0'')"
  by (simp add: is_digit_def)

text \<open>The printed fraction, without its trailing zeros.\<close>

lemma trimmed_digits:
  fixes m k :: nat
  assumes "0 < k" "m < 10 ^ k"
  defines "padded \<equiv> replicate (k - length (show_nat m)) (CHR ''0'') @ show_nat m"
  defines "t \<equiv> rev (dropWhile (\<lambda>c. c = CHR ''0'') (rev padded))"
  shows "list_all is_digit t" "read_nat t * 10 ^ (k - length t) = m" "length t \<le> k"
proof -
  define z where "z = rev (takeWhile (\<lambda>c. c = CHR ''0'') (rev padded))"
  have p: "padded = t @ z" by (metis t_def z_def rev_append rev_rev_ident takeWhile_dropWhile_id)
  have "z = replicate (length z) (CHR ''0'')"
    by (rule replicate_eqI) (auto simp: z_def dest: set_takeWhileD)
  then have "read_nat z = 0" by (metis read_nat_zeros)
  moreover have len: "length padded = k" using show_nat_length [OF assms(2,1)] by (simp add: padded_def)
  moreover have "read_nat padded = m" by (simp add: padded_def read_nat_append)
  ultimately show "read_nat t * 10 ^ (k - length t) = m" using read_nat_append [of t z] by (auto simp: p)
  have "list_all is_digit padded" using show_nat_digits [of m] by (auto simp: padded_def all_digits_def list_all_iff digit_zero)
  then show "list_all is_digit t" by (simp add: p)
  show "length t \<le> k" using len by (simp add: p)
qed

lemma digits_no_point:
  assumes "list_all is_digit u"
  shows "CHR ''.'' \<notin> set u" "CHR ''-'' \<notin> set u"
  using assms by (auto simp: list_all_iff is_digit_def)

lemma cut_at_none: "c \<notin> set u \<Longrightarrow> cut_at [c] u = None"
  by (induction u) (auto simp: has_prefix_def)

lemma fd_parse_signed:
  fixes neg :: bool
  assumes "all_digits w" "list_all is_digit t"
  defines "u \<equiv> (if t = [] then w else w @ ''.'' @ t)"
  shows "fd_parse ((if neg then ''-'' else []) @ u) = FD ((if neg then - 1 else 1) * int (read_nat (w @ t))) (length t)"
proof -
  obtain x w' where w: "w = x # w'" "x \<noteq> CHR ''-''" using assms(1) digits_no_point(2) [of w] by (cases w) (auto simp: all_digits_def)
  have "has_prefix ((if neg then ''-'' else []) @ u) ''-'' = neg" "trim_prefix ((if neg then ''-'' else []) @ u) ''-'' = u"
    by (auto simp: u_def w trim_prefix_def has_prefix_def)
  moreover have "cut_at ''.'' u = (if t = [] then None else Some (w, t))"
    using assms(1) digits_no_point(1) [of w] cut_at_single [of "CHR ''.''" w t] by (auto simp: u_def cut_at_none all_digits_def)
  moreover have "all_digits (w @ t)" using assms(1,2) by (simp add: all_digits_def)
  ultimately show ?thesis unfolding fd_parse_def Let_def by (auto simp: u_def)
qed

text \<open>A printed decimal reads back as the same value.\<close>

lemma fd_show_value: "fd_val (fd_parse (fd_show x)) = fd_val x"
proof (cases x)
  case (FD a k)
  define n where "n = nat \<bar>a\<bar>"
  define t where "t = (if k = 0 then [] else rev (dropWhile (\<lambda>c. c = CHR ''0'')
    (rev (replicate (k - length (show_nat (n mod 10 ^ k))) (CHR ''0'') @ show_nat (n mod 10 ^ k)))))"
  have sign: "of_int a = (if a < 0 then - 1 else 1) * (of_nat n :: rat)" by (simp add: n_def)
  have t: "list_all is_digit t" "read_nat t * 10 ^ (k - length t) = n mod 10 ^ k" "length t \<le> k"
    using trimmed_digits [of k "n mod 10 ^ k"] by (simp_all add: t_def read_nat_def)
  have "read_nat (show_nat (n div 10 ^ k) @ t) * 10 ^ (k - length t) = n div 10 ^ k * (10 ^ length t * 10 ^ (k - length t)) + read_nat t * 10 ^ (k - length t)"
    by (simp add: read_nat_append algebra_simps)
  also have "\<dots> = n" using t(2,3) by (simp add: div_mult_mod_eq flip: power_add)
  finally have n: "of_nat n = (of_nat (read_nat (show_nat (n div 10 ^ k) @ t)) * 10 ^ (k - length t) :: rat)" by (metis of_nat_mult of_nat_numeral of_nat_power)
  have "fd_show x = (if a < 0 then ''-'' else []) @ (if t = [] then show_nat (n div 10 ^ k) else show_nat (n div 10 ^ k) @ ''.'' @ t)"
    unfolding FD fd_show.simps Let_def n_def [symmetric] t_def by (cases "k = 0") simp_all
  then have "fd_parse (fd_show x) = FD ((if a < 0 then - 1 else 1) * int (read_nat (show_nat (n div 10 ^ k) @ t))) (length t)"
    using fd_parse_signed [OF show_nat_digits t(1)] by simp
  moreover have "(10 :: rat) ^ k = 10 ^ (k - length t) * 10 ^ length t" using t(3) by (simp flip: power_add)
  ultimately show ?thesis by (simp add: FD sign n)
qed

end
