(* ===== verification/Pipeline.thy ===== *)
theory Pipeline
  imports Process Merge_Equivalence Decimal_Text
begin

text \<open>
  What the running process does with the data of the exchanges from one end to the other: a closed minute goes through the
  real-time aggregator, the queue and the batch workers to the table and is read back from it, and the prices
  of the exchanges become the mark price a client is given.
\<close>

section \<open>From the exchange to the table\<close>

text \<open>The workers empty the queue into the batch.\<close>

lemma workers_drain:
  "fold worker_step (replicate (length (rt_batchChan (ea_realtime a))) WReceive) a =
     a\<lparr>ea_currentBatch := ea_currentBatch a @ rt_batchChan (ea_realtime a), ea_realtime := (ea_realtime a)\<lparr>rt_batchChan := []\<rparr>\<rparr>"
proof (induction "rt_batchChan (ea_realtime a)" arbitrary: a)
  case (Cons c q)
  let ?a = "worker_step WReceive a"
  have one: "?a = a\<lparr>ea_currentBatch := ea_currentBatch a @ [c], ea_realtime := (ea_realtime a)\<lparr>rt_batchChan := q\<rparr>\<rparr>"
    by (simp add: worker_step_def Cons(2) [symmetric])
  have "fold worker_step (replicate (length (rt_batchChan (ea_realtime a))) WReceive) a = fold worker_step (replicate (length q) WReceive) ?a"
    by (simp flip: Cons(2))
  also have "\<dots> = ?a\<lparr>ea_currentBatch := ea_currentBatch ?a @ q, ea_realtime := (ea_realtime ?a)\<lparr>rt_batchChan := []\<rparr>\<rparr>"
    using Cons(1) [of ?a] by (simp add: one)
  finally show ?case by (simp add: one flip: Cons(2))
qed simp

text \<open>A closed candle puts the merged candle into the queue when there is room.\<close>

lemma closed_candle_queued:
  assumes "c_IsClosed c" "l_aggregated (live_after D now ex c (map_of (rt_liveCandles s) (live_key c))) = Some g"
    "length (rt_batchChan s) < rt_chanCap"
  shows "rt_batchChan (ProcessCandleUpdate D now ex c s) = rt_batchChan s @ [g]"
  using assms by (simp add: ProcessCandleUpdate_eq Let_def handleClosedCandle_def)

lemma key_names:
  assumes "CHR '':'' \<notin> set sy" "CHR '':'' \<notin> set sy'" "building_key sy i u = building_key sy' i' u'"
  shows "sy = sy' \<and> i = i'"
proof -
  have "sy @ CHR '':'' # (i @ CHR '':'' # show_int u) = sy' @ CHR '':'' # (i' @ CHR '':'' # show_int u')"
    using assms(3) by (simp add: building_key_def)
  then have "sy = sy'" "i @ CHR '':'' # show_int u = i' @ CHR '':'' # show_int u'" using sep_inj [OF assms(1,2)] by blast+
  then show ?thesis using sep_inj_right [of "CHR '':''" "show_int u" "show_int u'" i i'] by simp
qed

lemma live_after_names:
  fixes now :: gotime and ex :: string
  assumes "rt_ok D s" "rt_clean s" "CHR '':'' \<notin> set (c_Symbol c)"
  defines "l \<equiv> live_after D now ex c (map_of (rt_liveCandles s) (live_key c))"
  shows "l_Symbol l = c_Symbol c \<and> l_Interval l = c_Interval c"
proof (cases "map_of (rt_liveCandles s) (live_key c)")
  case (Some x)
  then have "live_ok D (live_key c) x" "CHR '':'' \<notin> set (l_Symbol x)"
    using assms(1,2) map_of_SomeD [OF Some] by (auto simp: rt_ok_def rt_clean_def list_all_iff)
  then have "l_Symbol x = c_Symbol c \<and> l_Interval x = c_Interval c"
    by (intro key_names [of _ _ _ "t_Unix (l_OpenTime x)" _ "t_Unix (c_OpenTime c)"] assms(3)) (auto simp: live_ok_def)
  then show ?thesis by (simp add: l_def Some live_after_def Let_def)
qed (simp add: l_def live_after_def Let_def)

text \<open>The values of two candles.\<close>

definition same_values :: "('d \<Rightarrow> rat) \<Rightarrow> 'd candle \<Rightarrow> 'd candle \<Rightarrow> bool" where
  "same_values v a b \<longleftrightarrow> v (c_Open a) = v (c_Open b) \<and> v (c_High a) = v (c_High b) \<and> v (c_Low a) = v (c_Low b) \<and>
     v (c_Close a) = v (c_Close b) \<and> v (c_Volume a) = v (c_Volume b) \<and> v (c_QuoteVolume a) = v (c_QuoteVolume b)"

definition amounts :: "'d candle \<Rightarrow> 'd set" where
  "amounts c = {c_Open c, c_High c, c_Low c, c_Close c, c_Volume c, c_QuoteVolume c}"

lemma scanned_values:
  assumes "\<forall>x\<in>amounts c. v (d_NewFromString D (str x)) = v x" "0 \<le> c_TradeCount c" "c_TradeCount c < 2 ^ 32"
  shows "same_values v (scan_candle D (shown str cr up (insert_of c))) c"
    "c_OpenTime (scan_candle D (shown str cr up (insert_of c))) = to_millis (c_OpenTime c)"
    "c_TradeCount (scan_candle D (shown str cr up (insert_of c))) = c_TradeCount c"
    "c_IsClosed (scan_candle D (shown str cr up (insert_of c))) = c_IsClosed c"
  using assms by (simp_all add: same_values_def amounts_def scan_candle_def shown_def insert_of_def to_millis_def uint_word_of_int)

lemma aggregate_fields:
  assumes "aggregateLiveCandle D now l = Some g"
  shows "c_Symbol g = l_Symbol l" "c_Interval g = l_Interval l" "c_ContractType g = ''spot''"
    "0 \<le> c_TradeCount g" "c_TradeCount g \<le> int (length (l_exchangeData l))"
proof -
  have "la_validCount a \<le> la_validCount (foldl (live_step D) a xs) \<and> la_validCount (foldl (live_step D) a xs) \<le> la_validCount a + int (length xs)" for a xs
  proof (induction xs arbitrary: a)
    case (Cons x xs)
    have "la_validCount a \<le> la_validCount (live_step D a x)" "la_validCount (live_step D a x) \<le> la_validCount a + 1"
      by (simp_all add: live_step_def Let_def)
    then show ?case using Cons [of "live_step D a x"] by simp
  qed simp
  from this [of "live_acc_start D" "map snd (l_exchangeData l)"]
  have "0 \<le> la_validCount (foldl (live_step D) (live_acc_start D) (map snd (l_exchangeData l)))"
      "la_validCount (foldl (live_step D) (live_acc_start D) (map snd (l_exchangeData l))) \<le> int (length (l_exchangeData l))"
    by (simp_all add: live_acc_start_def)
  then show "c_Symbol g = l_Symbol l" "c_Interval g = l_Interval l" "c_ContractType g = ''spot''"
    "0 \<le> c_TradeCount g" "c_TradeCount g \<le> int (length (l_exchangeData l))"
    using assms by (auto simp: aggregateLiveCandle_def Let_def split: if_splits)
qed

text \<open>A message that closes a minute, and the workers after it.\<close>

lemma closed_minute_written:
  assumes "message_candles D lz now name msg = [c]" "c_IsClosed c" "length (rt_batchChan (ea_realtime a)) < rt_chanCap"
    and "a1 = process_message D lz now name msg a"
    and "map_of (rt_liveCandles (ea_realtime a1)) (live_key c) = Some l" "l_aggregated l = Some g"
    and "a2 = fold worker_step (replicate (length (rt_batchChan (ea_realtime a1))) WReceive @ [WFlush]) a1"
  shows "l = live_after D now name c (map_of (rt_liveCandles (ea_realtime a)) (live_key c))" "aggregateLiveCandle D now l = Some g"
    "ea_written a2 = ea_written a @ [ea_currentBatch a @ rt_batchChan (ea_realtime a) @ [g]]"
proof -
  have a1: "a1 = a\<lparr>ea_realtime := ProcessCandleUpdate D now name c (ea_realtime a)\<rparr>" by (simp add: assms(1,4) process_message_def)
  show l: "l = live_after D now name c (map_of (rt_liveCandles (ea_realtime a)) (live_key c))"
    using assms(5) by (simp add: a1 ProcessCandleUpdate_live)
  show "aggregateLiveCandle D now l = Some g" using assms(6) live_after_aggregated l by metis
  have "rt_batchChan (ProcessCandleUpdate D now name c (ea_realtime a)) = rt_batchChan (ea_realtime a) @ [g]"
    using assms(6) closed_candle_queued [OF assms(2) _ assms(3), of D now name g] by (simp add: l)
  then show "ea_written a2 = ea_written a @ [ea_currentBatch a @ rt_batchChan (ea_realtime a) @ [g]]"
    using workers_drain [of a1] by (simp add: assms(7) a1 worker_step_def flushBatch_def)
qed



section \<open>From the exchanges to the mark price\<close>

text \<open>The averages of the mark price service stay zero in the running process.\<close>

lemma task_keeps_mark: "sys_task D now i s = Inr s' \<Longrightarrow> sy_mark s' = sy_mark s"
  by (auto simp: sys_task_def Let_def set_rt_def set_agg_def obind_Inr_iff split: if_splits task.splits)

lemma mark_ok_step:
  assumes "decimal_api D v" "sys_step D s s'" "ms_ok v (sy_mark s)"
  shows "ms_ok v (sy_mark s')"
  using assms(2)
proof cases
  case (goroutine now i)
  then show ?thesis using assms(3) task_keeps_mark by metis
next
  case (get_mark R mcfg now symbol mp ms)
  then show ?thesis using ms_ok_step [OF assms(1,3) ms_step.ms_get [OF get_mark(2)]] by simp
qed (use assms(3) in \<open>simp_all add: set_agg_def\<close>)

lemma mark_ok_run:
  assumes "decimal_api D v" "boot redis e cfg = Inr s0" "(sys_step D)\<^sup>*\<^sup>* s0 s"
  shows "ms_ok v (sy_mark s)"
  using assms(3)
proof (induction rule: rtranclp_induct)
  case base
  then show ?case using boot_empty(3) [OF assms(2)] by (simp add: ms_ok_def NewMarkService_def)
qed (use mark_ok_step [OF assms(1)] in blast)


text \<open>After the first message the mark price is the one price reported.\<close>

lemma update_reports:
  "\<exists>p. map_of (rt_livePrices (ProcessCandleUpdate D now ex c s)) (c_Symbol c) = Some p \<and>
     ap_exchangePrices p = store ex (c_Close c) (prices_of (c_Symbol c) s)"
proof -
  have "rt_livePrices (handleClosedCandle l m s) = rt_livePrices s" for l m and s :: "'a realtime"
    by (auto simp: handleClosedCandle_def Let_def split: option.split)
  then show ?thesis
    by (auto simp: ProcessCandleUpdate_eq Let_def updateLivePrice_def case_prod_unfold prices_of_def split: option.split)
qed


end
