(* ===== verification/Http_Server.thy ===== *)
theory Http_Server
  imports Server
begin

text \<open>
  \<open>startHTTPServer\<close> of \<open>cmd/server/main.go\<close>: the routes of the HTTP server and their handlers. A request is its
  method and its cleaned path; a reply is what the handler writes. The handlers share the symbol manager, the
  exchange aggregator and the candle service with the rest of the process, so they act on its state.
\<close>

section \<open>Replies\<close>

text \<open>
  \<open>Json\<close> is a body written by the JSON encoder, where the members of a map come in the order of their keys;
  \<open>Written\<close> is text written with or without the JSON content type; \<open>Aborted\<close> is the connection that \<open>net/http\<close>
  closes when a handler panics.
\<close>

datatype http_reply =
    Redirect int string
  | NotFoundPage
  | ServeFile string
  | MetricsPage
  | HttpError int string
  | Json int json
  | Written int bool string
  | Aborted panic

record http_request =
  hr_Method :: string
  hr_Path :: string

text \<open>
  What the handlers read from outside: the clock, the time the process started, the answer of the symbol
  service, the row of the statistics query and the text of the error of a call that fails, and the
  JSON number of a \<open>float64\<close>, which a value that is no number does not have.
\<close>

record 'f http_env =
  he_now :: gotime
  he_start :: gotime
  he_answer :: symbols_answer
  he_row :: "stats_row option"
  he_err :: string
  he_float :: "'f \<Rightarrow> json option"

section \<open>Values\<close>

abbreviation jint :: "int \<Rightarrow> json" where
  "jint n \<equiv> JNum (of_int n)"

definition envelope :: "bool \<Rightarrow> string \<Rightarrow> json option \<Rightarrow> json" where
  "envelope success msg data =
     JObj ((case data of None \<Rightarrow> [] | Some d \<Rightarrow> [(''data'', d)]) @ [(''message'', JStr msg), (''success'', JBool success)])"

text \<open>\<open>Time.MarshalJSON\<close>: RFC 3339 with nanoseconds without zeros at the end.\<close>

definition time_json :: "gotime \<Rightarrow> json" where
  "time_json t =
     (let m = \<bar>t_off t\<bar> div 60;
          zone = (if t_off t = 0 then ''Z''
            else (if t_off t < 0 then ''-'' else ''+'') @ show_pad 2 (m div 60) @ '':'' @ show_pad 2 (m mod 60))
      in JStr (show_pad 4 (t_Year t) @ ''-'' @ show_pad 2 (t_Month t) @ ''-'' @ show_pad 2 (t_Day t) @ ''T'' @
           show_pad 2 (t_Hour t) @ '':'' @ show_pad 2 (t_Minute t) @ '':'' @ show_pad 2 (t_sod t mod 60) @
           fst (fmtFrac 9 False (nat (t_ns t mod Second)) []) @ zone))"

definition limiter_json :: "limiter_stats \<Rightarrow> (string \<times> json) list" where
  "limiter_json l = [(''name'', JStr (ls_name l)), (''request_count'', jint (ls_request_count l)), (''rate_limit_hits'', jint (ls_rate_limit_hits l)),
     (''last_rate_limit'', time_json (ls_last_rate_limit l)), (''current_backoff_ms'', jint (ls_current_backoff_ms l)),
     (''queue_size'', jint (ls_queue_size l))]"

definition exchange_json :: "exchange_stats \<Rightarrow> json" where
  "exchange_json x = JObj (sort_key fst ([(''is_healthy'', JBool (es_is_healthy x)), (''msg_count'', jint (es_msg_count x)),
     (''error_count'', jint (es_error_count x)), (''last_update'', time_json (es_last_update x))] @
     (case es_limiter x of None \<Rightarrow> [] | Some l \<Rightarrow> limiter_json l)))"

section \<open>Handlers\<close>

definition handle_symbols :: "'f http_env \<Rightarrow> ('d, 'r) system \<Rightarrow> http_reply \<times> ('d, 'r) system" where
  "handle_symbols E s =
     (let (allSymbols, _, f) = GetSymbols (he_now E) (he_answer E) (sm_fetcher (sy_manager s))
      in (Json 200 (envelope True ''Available symbols retrieved successfully''
            (Some (JObj [(''count'', jint (int (length allSymbols))),
              (''symbols'', if allSymbols = [] \<and> he_answer E = BadRequest then JNull else JArr (map JStr allSymbols))]))),
          s\<lparr>sy_manager := (sy_manager s)\<lparr>sm_fetcher := f\<rparr>\<rparr>))"

definition handle_subscribed :: "('d, 'r) system \<Rightarrow> http_reply" where
  "handle_subscribed s =
     (let subscribedSymbols = GetSubscribedSymbols (sy_manager s)
      in Json 200 (envelope True ''Subscribed symbols retrieved successfully''
           (Some (JObj [(''count'', jint (int (length subscribedSymbols))), (''symbols'', JArr (map JStr subscribedSymbols))]))))"

text \<open>The error of \<open>ForceRefresh\<close> wraps the one of the fetch. A panic leaves what the fetch stored.\<close>

definition handle_refresh ::
  "'f http_env \<Rightarrow> 'f config \<Rightarrow> http_request \<Rightarrow> ('d, 'r) system \<Rightarrow> http_reply \<times> ('d, 'r) system" where
  "handle_refresh E cfg r s =
     (if hr_Method r \<noteq> ''POST'' then (HttpError 405 ''Method not allowed'', s)
      else
        case ForceRefresh (\<lambda>symbol i. sv_delegate (SubscribeToInterval symbol i) (gs_svc (sy_gs s))) (symbol_config_of cfg)
               (he_now E) (he_answer E) (sy_manager s, gs_agg (sy_gs s)) of
          Inl p \<Rightarrow> (Aborted p, s\<lparr>sy_manager := (sy_manager s)\<lparr>sm_fetcher :=
              snd (snd (GetSymbols (he_now E) (he_answer E) (sm_fetcher (sy_manager s))))\<rparr>\<rparr>)
        | Inr (ok, m, a) \<Rightarrow>
            (let s = s\<lparr>sy_manager := m, sy_gs := (sy_gs s)\<lparr>gs_agg := a\<rparr>\<rparr> in
             if \<not> ok then (Json 500 (envelope False (''Failed to refresh symbols: failed to fetch symbols: '' @ he_err E) None), s)
             else (Json 200 (envelope True ''Symbols refreshed successfully''
                     (Some (JObj [(''subscribed_count'', jint (GetSubscribedCount m))]))), s)))"

text \<open>When the encoder fails on the volume, the status is already written and the body stays empty.\<close>

definition handle_config :: "'f http_env \<Rightarrow> 'f config \<Rightarrow> ('d, 'r) system \<Rightarrow> http_reply" where
  "handle_config E cfg s =
     (let c = cf_Symbol cfg in
      case he_float E (cs_MinVolume c) of
        None \<Rightarrow> Written 200 True ''''
      | Some v \<Rightarrow> Json 200 (envelope True ''Symbol configuration retrieved successfully''
          (Some (JObj [(''auto_subscribe'', JBool (cs_AutoSubscribe c)), (''max_symbols'', jint (cs_MaxSymbols c)), (''min_volume'', v),
            (''refresh_interval'', JStr (dur_String (cs_RefreshInterval c))), (''strategy'', JStr (cs_SubscriptionStrategy c)),
            (''subscribed_count'', jint (GetSubscribedCount (sy_manager s)))]))))"

text \<open>\<open>%v\<close> of an entry of the statistics; the two printed are always counts.\<close>

definition stat_text :: "stat_value option \<Rightarrow> string" where
  "stat_text v = (case v of Some (StatCount n) \<Rightarrow> show_int (uint n) | _ \<Rightarrow> ''<nil>'')"

definition handle_stats :: "'f http_env \<Rightarrow> http_reply" where
  "handle_stats E =
     (case sv_GetStats (he_row E) of
        None \<Rightarrow> Written 500 False (''{\"error\":\"'' @ he_err E @ ''\"}'')
      | Some stats \<Rightarrow> Written 200 True (''{\"total_candles\":'' @ stat_text (map_of stats ''total_candles'') @
          '',\"total_symbols\":'' @ stat_text (map_of stats ''total_symbols'') @ ''}''))"

definition handle_status :: "'f http_env \<Rightarrow> ('d, 'r) system \<Rightarrow> http_reply" where
  "handle_status E s = Json 200 (envelope True ''Real-time market data status'' (Some (JObj [
     (''exchanges'', JObj (map (\<lambda>(name, x). (name, exchange_json x)) (sort_key fst (GetExchangeStats (gs_agg (sy_gs s)))))),
     (''uptime_seconds'', jint \<lfloor>dur_Seconds (t_Sub (he_now E) (he_start E))\<rfloor>), (''version'', JStr ''1.0.0'')])))"

text \<open>The \<open>ServeMux\<close>: exact patterns first, then the subtree of the static files, then the root.\<close>

definition http_serve ::
  "'f http_env \<Rightarrow> 'f config \<Rightarrow> http_request \<Rightarrow> ('d, 'r) system \<Rightarrow> http_reply \<times> ('d, 'r) system" where
  "http_serve E cfg r s =
     (let path = hr_Path r in
      if path = ''/health'' then (ServeFile ''./static/index.html'', s)
      else if path = ''/metrics'' then (MetricsPage, s)
      else if path = ''/api/v1/binance/candles/symbols'' then handle_symbols E s
      else if path = ''/api/v1/symbols/subscribed'' then (handle_subscribed s, s)
      else if path = ''/api/v1/symbols/refresh'' then handle_refresh E cfg r s
      else if path = ''/api/v1/symbols/config'' then (handle_config E cfg s, s)
      else if path = ''/api/v1/stats'' then (handle_stats E, s)
      else if path = ''/api/v1/realtime/status'' then (handle_status E s, s)
      else if has_prefix path ''/static/'' then (ServeFile (''./static/'' @ trim_prefix path ''/static/''), s)
      else if path = ''/static'' then (Redirect 301 ''/static/'', s)
      else if path = ''/'' then (Redirect 302 ''/health'', s)
      else (NotFoundPage, s))"

section \<open>What requests do to the process\<close>

definition http_run :: "'f config \<Rightarrow> ('f http_env \<times> http_request) list \<Rightarrow> ('d, 'r) system \<Rightarrow> ('d, 'r) system" where
  "http_run cfg rs s = fold (\<lambda>(E, r) s. snd (http_serve E cfg r s)) rs s"

definition refresh_request :: "http_request \<Rightarrow> bool" where
  "refresh_request r \<longleftrightarrow> hr_Path r = ''/api/v1/symbols/refresh'' \<and> hr_Method r = ''POST''"

text \<open>Everything but the manager and the subscriptions.\<close>

definition same_rest :: "('d, 'r) system \<Rightarrow> ('d, 'r) system \<Rightarrow> bool" where
  "same_rest s s' \<longleftrightarrow> sy_ia s' = sy_ia s \<and> sy_mark s' = sy_mark s \<and> sy_proxy s' = sy_proxy s \<and>
     gs_svc (sy_gs s') = gs_svc (sy_gs s) \<and> same_core (gs_agg (sy_gs s')) (gs_agg (sy_gs s))"

lemma same_rest_trans: "same_rest s1 s2 \<Longrightarrow> same_rest s2 s3 \<Longrightarrow> same_rest s1 s3"
  by (simp add: same_rest_def same_core_def)

abbreviation sys_holds :: "nat \<Rightarrow> nat \<Rightarrow> ('d, 'r) system \<Rightarrow> bool" where
  "sys_holds K n s \<equiv> manager_holds K n {#} (sy_manager s, gs_agg (sy_gs s))"

lemma holds_fetcher:
  "manager_holds K n M (m, a) \<Longrightarrow> length (sf_symbols f) \<le> K \<Longrightarrow> manager_holds K n M (m\<lparr>sm_fetcher := f\<rparr>, a)"
  by (simp add: manager_holds_def GetSubscribedSymbols_def)

lemma holds_mono: "manager_holds K n M st \<Longrightarrow> n \<le> n' \<Longrightarrow> manager_holds K n' M st"
  by (auto simp: manager_holds_def intro: le_trans mult_right_mono)

text \<open>A request that is no refresh leaves all but the fetcher's cache.\<close>

lemma serve_other:
  assumes "\<not> refresh_request r"
  shows "\<exists>f. snd (http_serve E cfg r s) = s\<lparr>sy_manager := (sy_manager s)\<lparr>sm_fetcher := f\<rparr>\<rparr> \<and>
    (f = sm_fetcher (sy_manager s) \<or> f = snd (snd (GetSymbols (he_now E) (he_answer E) (sm_fetcher (sy_manager s)))))"
proof (cases "hr_Path r = ''/api/v1/binance/candles/symbols''")
  case True
  then show ?thesis by (auto simp: http_serve_def handle_symbols_def Let_def split: prod.split)
next
  case False
  then have "snd (http_serve E cfg r s) = s"
    using assms by (auto simp: http_serve_def handle_refresh_def refresh_request_def Let_def)
  then show ?thesis by (intro exI [of _ "sm_fetcher (sy_manager s)"]) simp
qed

lemma serve_refresh:
  fixes s :: "('d, 'r) system"
  assumes "refresh_request r" "sv_exchangeAgg (gs_svc (sy_gs s))"
  shows "http_serve E cfg r s =
    (case refreshAndSubscribe agg_subscribe (symbol_config_of cfg) (he_now E) (he_answer E) (sy_manager s, gs_agg (sy_gs s)) of
       Inl p \<Rightarrow> (Aborted p, s\<lparr>sy_manager := (sy_manager s)\<lparr>sm_fetcher :=
           snd (snd (GetSymbols (he_now E) (he_answer E) (sm_fetcher (sy_manager s))))\<rparr>\<rparr>)
     | Inr (ok, m, a) \<Rightarrow>
         ((if ok then Json 200 (envelope True ''Symbols refreshed successfully'' (Some (JObj [(''subscribed_count'', jint (GetSubscribedCount m))])))
           else Json 500 (envelope False (''Failed to refresh symbols: failed to fetch symbols: '' @ he_err E) None)),
          s\<lparr>sy_manager := m, sy_gs := (sy_gs s)\<lparr>gs_agg := a\<rparr>\<rparr>))"
proof -
  have "sv_delegate f (gs_svc (sy_gs s)) = (\<lambda>a. Some (f a))" for f :: "'d exchange_aggregator \<Rightarrow> 'd exchange_aggregator"
    using assms(2) by (simp add: sv_delegate_def fun_eq_iff)
  then show ?thesis
    using assms(1) by (simp add: http_serve_def refresh_request_def handle_refresh_def ForceRefresh_def Let_def split: sum.split prod.split)
qed

lemma GetSymbols_keeps_size:
  "answer_size ans \<le> K \<Longrightarrow> length (sf_symbols f) \<le> K \<Longrightarrow> length (sf_symbols (snd (snd (GetSymbols now ans f)))) \<le> K"
  using GetSymbols_size [of now ans f] by (cases "GetSymbols now ans f") auto

lemma request_holds:
  assumes "sys_holds K n s" "sv_exchangeAgg (gs_svc (sy_gs s))" "answer_size (he_answer E) \<le> K" "87 \<le> K" "Suc n * K \<le> 2 ^ 31 - 1"
  shows "sys_holds K (Suc n) (snd (http_serve E cfg r s)) \<and> same_rest s (snd (http_serve E cfg r s))"
proof -
  let ?f = "snd (snd (GetSymbols (he_now E) (he_answer E) (sm_fetcher (sy_manager s))))"
  have sz: "length (sf_symbols (sm_fetcher (sy_manager s))) \<le> K" using assms(1) by (simp add: manager_holds_def)
  note f = GetSymbols_keeps_size [OF assms(3) sz, of "he_now E"]
  have D: "length DefaultSymbols \<le> K" using assms(4) by (simp add: DefaultSymbols_def)
  have fetched: "sys_holds K (Suc n) (s\<lparr>sy_manager := (sy_manager s)\<lparr>sm_fetcher := f\<rparr>\<rparr>) \<and>
      same_rest s (s\<lparr>sy_manager := (sy_manager s)\<lparr>sm_fetcher := f\<rparr>\<rparr>)" if "length (sf_symbols f) \<le> K" for f
    using holds_mono [OF holds_fetcher [OF assms(1) that], of "Suc n"] by (simp add: same_rest_def)
  show ?thesis
  proof (cases "refresh_request r")
    case False
    then obtain g where "snd (http_serve E cfg r s) = s\<lparr>sy_manager := (sy_manager s)\<lparr>sm_fetcher := g\<rparr>\<rparr>"
      "g = sm_fetcher (sy_manager s) \<or> g = ?f" using serve_other by blast
    then show ?thesis using fetched f sz by auto
  next
    case True
    note eq = serve_refresh [OF True assms(2), of E cfg]
    show ?thesis
    proof (cases "refreshAndSubscribe agg_subscribe (symbol_config_of cfg) (he_now E) (he_answer E) (sy_manager s, gs_agg (sy_gs s))")
      case (Inl p)
      then show ?thesis using fetched [OF f] by (simp add: eq)
    next
      case (Inr x)
      obtain ok m a where x: "x = (ok, m, a)" by (cases x)
      have "same_core a (gs_agg (sy_gs s))"
        using Inr [unfolded x] by (rule same_core_refresh [rotated]) auto
      then show ?thesis
        using refresh_holds [OF assms(1,3) D _ Inr [unfolded x]] assms(5) by (simp add: eq Inr x same_rest_def)
    qed
  qed
qed

lemma http_run_holds:
  assumes "sys_holds K n s" "sv_exchangeAgg (gs_svc (sy_gs s))" "\<forall>(E, r)\<in>set rs. answer_size (he_answer E) \<le> K" "87 \<le> K"
    "(n + length rs) * K \<le> 2 ^ 31 - 1"
  shows "sys_holds K (n + length rs) (http_run cfg rs s) \<and> same_rest s (http_run cfg rs s)"
  using assms
proof (induction rs arbitrary: s n)
  case Nil
  then show ?case by (simp add: http_run_def same_rest_def)
next
  case (Cons x rs)
  obtain E r where x: "x = (E, r)" by (cases x)
  let ?s = "snd (http_serve E cfg r s)"
  have "Suc n * K \<le> (n + length (x # rs)) * K" by (intro mult_right_mono) auto
  then have "Suc n * K \<le> 2 ^ 31 - 1" using Cons.prems(5) by (rule le_trans)
  moreover have "answer_size (he_answer E) \<le> K" using Cons.prems(3) x by simp
  ultimately have one: "sys_holds K (Suc n) ?s" "same_rest s ?s" using request_holds [OF Cons.prems(1,2) _ Cons.prems(4), of E cfg r] by simp_all
  have "sv_exchangeAgg (gs_svc (sy_gs ?s))" using one(2) Cons.prems(2) by (simp add: same_rest_def)
  then have "sys_holds K (Suc n + length rs) (http_run cfg rs ?s) \<and> same_rest ?s (http_run cfg rs ?s)"
    using one(1) Cons.prems(3-5) by (intro Cons.IH) simp_all
  then show ?case using one(2) by (auto simp: x http_run_def intro: same_rest_trans)
qed

text \<open>Without a refresh the manager's record and the aggregator are what they were.\<close>

lemma http_run_reads:
  assumes "\<forall>(E, r)\<in>set rs. \<not> refresh_request r"
  shows "gs_agg (sy_gs (http_run cfg rs s)) = gs_agg (sy_gs s) \<and>
    sm_subscribedSymbols (sy_manager (http_run cfg rs s)) = sm_subscribedSymbols (sy_manager s)"
  using assms
proof (induction rs arbitrary: s)
  case (Cons x rs)
  obtain E r where x: "x = (E, r)" by (cases x)
  obtain f where "snd (http_serve E cfg r s) = s\<lparr>sy_manager := (sy_manager s)\<lparr>sm_fetcher := f\<rparr>\<rparr>"
    using serve_other [of r E cfg s] Cons.prems x by auto
  then show ?case using Cons x by (simp add: http_run_def)
qed (simp add: http_run_def)

text \<open>
  C39. What the HTTP interface can do to the process. After a start, any sequence of requests, of any method and path and
  with any answers of the symbol service, leaves the candles, the prices, the mark prices, the
  batches and the proxies untouched. Its only effect on the exchanges is a \<open>POST\<close> to the refresh route, which
  keeps the contract of the start: one one-minute subscription for each symbol of the manager and no other, as
  long as the counts fit their 32 bits. Without such a request the subscriptions do not change at all.
\<close>

theorem http_requests_are_safe:
  assumes "boot redis e cfg = Inr s" "\<forall>(E, r)\<in>set rs. answer_size (he_answer E) \<le> K"
    and "answer_size (bo_symbols e) \<le> K" "87 \<le> K" "Suc (length rs) * K \<le> 2 ^ 31 - 1"
  shows "let s' = http_run cfg rs s in same_rest s s' \<and>
    distinct (GetSubscribedSymbols (sy_manager s')) \<and>
    (\<forall>S i. held (gs_agg (sy_gs s')) S i =
       (if i = ''1m'' then int (length (filter (\<lambda>x. to_upper x = S) (GetSubscribedSymbols (sy_manager s')))) else 0)) \<and>
    ((\<forall>(E, r)\<in>set rs. \<not> refresh_request r) \<longrightarrow>
       gs_agg (sy_gs s') = gs_agg (sy_gs s) \<and> GetSubscribedSymbols (sy_manager s') = GetSubscribedSymbols (sy_manager s))"
proof -
  obtain m a where run: "first_refresh e cfg = Inr (m, a)" and s: "s = booted redis e m a" using boot_Inr [OF assms(1)] by blast
  have "manager_holds K 1 {#} (m, a)" using start_manager_holds [OF boot_agg_facts(1) assms(3,4) _ run] assms(5) by simp
  moreover have "sub_sim (TriggerReconnectAll a) M = sub_sim a M" for M
    by (rule sub_sim_cong) (simp_all add: TriggerReconnectAll_def signal_all_def)
  ultimately have "sys_holds K 1 s" by (simp add: s booted_def manager_holds_def)
  moreover have "sv_exchangeAgg (gs_svc (sy_gs s))" using boot_wired(1) [OF assms(1)] by (simp add: wired_def)
  ultimately have h: "sys_holds K (1 + length rs) (http_run cfg rs s)" "same_rest s (http_run cfg rs s)"
    using http_run_holds [OF _ _ assms(2,4), of 1 s cfg] assms(5) by simp_all
  then show ?thesis
    using manager_holds_held [OF h(1)] http_run_reads [of rs cfg s] by (simp add: Let_def GetSubscribedSymbols_def)
qed

definition sample_env :: "int http_env" where
  "sample_env = \<lparr>he_now = sample_time, he_start = zero_time, he_answer = sample_answer, he_row = None, he_err = ''timeout'', he_float = (\<lambda>v. Some (JNum (of_int v)))\<rparr>"

theorem http_requests_are_safe_witness:
  "\<exists>s :: (fixdec, unit) system. boot () sample_boot (Load (\<lambda>_. None) (0 :: int) (\<lambda>_. '''')) = Inr s \<and>
    gs_agg (sy_gs (http_run (Load (\<lambda>_. None) 0 (\<lambda>_. '''')) [(sample_env, \<lparr>hr_Method = ''GET'', hr_Path = ''/api/v1/symbols/refresh''\<rparr>)] s)) = gs_agg (sy_gs s) \<and>
    http_serve sample_env (Load (\<lambda>_. None) 0 (\<lambda>_. '''')) \<lparr>hr_Method = ''GET'', hr_Path = ''/api/v1/symbols/refresh''\<rparr> s =
      (HttpError 405 ''Method not allowed'', s)"
proof -
  let ?cfg = "Load (\<lambda>_. None) (0 :: int) (\<lambda>_. '''')"
  let ?r = "\<lparr>hr_Method = ''GET'', hr_Path = ''/api/v1/symbols/refresh''\<rparr>"
  have *: "t_ns zero_time + Hour_d \<le> t_ns (bo_now sample_boot)" by (simp add: sample_boot_def sample_time_def zero_time_def)
  have "Validate ?cfg = None" by (rule Load_validates)
  then obtain s :: "(fixdec, unit) system" where b: "boot () sample_boot ?cfg = Inr s"
    using boot_total [of ?cfg sample_boot "()", OF _ _ _ _ *] default_settings [of "bo_symbols sample_boot" "\<lambda>_. None" "0 :: int"]
    by (auto simp: sample_boot_def)
  have "gs_agg (sy_gs (http_run ?cfg [(sample_env, ?r)] s)) = gs_agg (sy_gs s)"
    using http_requests_are_safe [OF b, of "[(sample_env, ?r)]" 87]
    by (simp add: Let_def sample_env_def sample_boot_def sample_answer_def answer_size_def refresh_request_def)
  then show ?thesis using b by (intro exI [of _ s]) (simp add: http_serve_def handle_refresh_def)
qed

end
