(* ===== verification/Grpc_Service.thy ===== *)
theory Grpc_Service
  imports Grpc_Handlers Config
begin

text \<open>
  \<open>internal/grpc/server.go\<close>, \<open>health_handler.go\<close> and the stream of \<open>markprice_handler.go\<close>: the life of the gRPC
  server, its interceptors, the two operations about the server itself, and the stream of mark prices.
\<close>

section \<open>The server\<close>

text \<open>The options of \<open>grpc.NewServer\<close>; sizes are bytes and durations nanoseconds.\<close>

record grpc_options =
  go_MaxRecvMsgSize :: int
  go_MaxSendMsgSize :: int
  go_MaxConcurrentStreams :: "32 word"
  go_MaxConnectionAge :: int
  go_MaxConnectionAgeGrace :: int
  go_Time :: int
  go_Timeout :: int
  go_MinTime :: int
  go_PermitWithoutStream :: bool
  go_WriteBufferSize :: int
  go_ReadBufferSize :: int

definition server_options :: grpc_options where
  "server_options = \<lparr>go_MaxRecvMsgSize = 100 * 1024 * 1024, go_MaxSendMsgSize = 100 * 1024 * 1024, go_MaxConcurrentStreams = 50000,
     go_MaxConnectionAge = 30 * Minute_d, go_MaxConnectionAgeGrace = 5 * Minute_d, go_Time = 20 * Second, go_Timeout = 10 * Second,
     go_MinTime = 5 * Second, go_PermitWithoutStream = True, go_WriteBufferSize = 256 * 1024, go_ReadBufferSize = 256 * 1024\<rparr>"

text \<open>
  The own state of the server: when it was made, the address and options of the running \<open>grpc.Server\<close>, which is
  nil before \<open>Start\<close>, and whether it was told to stop.
\<close>

record grpc_state =
  gr_startTime :: gotime
  gr_grpcServer :: "(string \<times> grpc_options) option"
  gr_stopping :: bool

definition NewServer :: "gotime \<Rightarrow> grpc_state" where
  "NewServer now = \<lparr>gr_startTime = now, gr_grpcServer = None, gr_stopping = False\<rparr>"

datatype start_error = ListenFailed | ServeFailed

text \<open>\<open>listens\<close> and \<open>serves\<close> are the answers of the network: whether the port can be opened and whether \<open>Serve\<close> ends without an error.\<close>

definition grpc_Start :: "int \<Rightarrow> bool \<Rightarrow> bool \<Rightarrow> grpc_state \<Rightarrow> start_error option \<times> grpc_state" where
  "grpc_Start port listens serves g =
     (if \<not> listens then (Some ListenFailed, g)
      else (if serves then None else Some ServeFailed, g\<lparr>gr_grpcServer := Some ('':'' @ show_int port, server_options)\<rparr>))"

definition grpc_Stop :: "grpc_state \<Rightarrow> grpc_state" where
  "grpc_Stop g = (if gr_grpcServer g \<noteq> None then g\<lparr>gr_stopping := True\<rparr> else g)"

text \<open>
  The interceptors. A handler is a computation on the state of the process that may panic; the two clock
  readings around it and its name make the entry of the log.
\<close>

record call_log =
  lo_method :: string
  lo_duration :: int
  lo_error :: bool

definition unaryInterceptor ::
  "string \<Rightarrow> gotime \<Rightarrow> gotime \<Rightarrow> ('q \<Rightarrow> 's \<Rightarrow> (('e + 'a) \<times> 's) outcome) \<Rightarrow> 'q \<Rightarrow> 's \<times> call_log list \<Rightarrow> (('e + 'a) \<times> 's \<times> call_log list) outcome" where
  "unaryInterceptor method start stop handler req st =
     (case st of (s, logs) \<Rightarrow>
      obind (handler req s) (\<lambda>(r, s).
        let duration = t_Sub stop start
        in Inr (r, s, logs @ [\<lparr>lo_method = method, lo_duration = sgn duration * (\<bar>duration\<bar> div 1000000), lo_error = isl r\<rparr>])))"

definition streamInterceptor ::
  "string \<Rightarrow> gotime \<Rightarrow> gotime \<Rightarrow> ('s \<Rightarrow> ('e option \<times> 's) outcome) \<Rightarrow> 's \<times> call_log list \<Rightarrow> ('e option \<times> 's \<times> call_log list) outcome" where
  "streamInterceptor method start stop handler st =
     (case st of (s, logs) \<Rightarrow>
      obind (handler s) (\<lambda>(err, s).
        let duration = t_Sub stop start
        in Inr (err, s, logs @ [\<lparr>lo_method = method, lo_duration = sgn duration * (\<bar>duration\<bar> div 1000000), lo_error = (err \<noteq> None)\<rparr>])))"

section \<open>Health and statistics\<close>

record health_response =
  hh_Healthy :: bool
  hh_Version :: string
  hh_UptimeSeconds :: int
  hh_Services :: "(string, string) gomap"

definition Health :: "gotime \<Rightarrow> grpc_state \<Rightarrow> health_response" where
  "Health now g = (let uptime = \<lfloor>dur_Seconds (t_Sub now (gr_startTime g))\<rfloor> in
     \<lparr>hh_Healthy = True, hh_Version = ''1.0.0'', hh_UptimeSeconds = uptime,
      hh_Services = [(''clickhouse'', ''healthy''), (''postgres'', ''healthy''), (''redis'', ''healthy'')]\<rparr>)"

record stats_response =
  sr_TotalCandles :: int
  sr_TotalSymbols :: int
  sr_ActiveSubscriptions :: int
  sr_PriceUpdatesPerSecond :: int
  sr_CandleWritesPerSecond :: int
  sr_ExchangeStats :: "(string, unit) gomap"      \<comment> \<open>never filled\<close>

definition int64_of :: "stat_value option \<Rightarrow> int" where
  "int64_of v = (case v of Some (StatCount val) \<Rightarrow> sint val | _ \<Rightarrow> 0)"

definition grpc_GetStats :: "stats_row option \<Rightarrow> stats_response" where
  "grpc_GetStats row =
     (let stats = (case sv_GetStats row of None \<Rightarrow> [] | Some stats \<Rightarrow> stats);
          totalCandles = int64_of (map_of stats ''total_candles'');
          totalSymbols = int64_of (map_of stats ''total_symbols'')
      in \<lparr>sr_TotalCandles = totalCandles, sr_TotalSymbols = totalSymbols, sr_ActiveSubscriptions = 0,
          sr_PriceUpdatesPerSecond = 0, sr_CandleWritesPerSecond = 0, sr_ExchangeStats = []\<rparr>)"

section \<open>The stream of mark prices\<close>

record mark_update =
  mu_MarkPrice :: pb_mark_price
  mu_Timestamp :: "int \<times> int"

text \<open>
  The first part: the symbols, those of the request or the first ten of the fetcher, and the channels.
  \<open>confirmed\<close> is whether Redis confirmed.
\<close>

definition mark_channel :: "string \<Rightarrow> string" where
  "mark_channel symbol = ''nyyu:market:markprice:'' @ symbol"

definition SubscribeMarkPrices_begin ::
  "symbols_answer \<Rightarrow> gotime \<Rightarrow> bool \<Rightarrow> string list \<Rightarrow> symbol_fetcher \<Rightarrow> ((grpc_code + string list \<times> string list) \<times> symbol_fetcher) outcome" where
  "SubscribeMarkPrices_begin ans now confirmed symbols f =
     obind (if length symbols = 0 then GetPopularSymbols now ans 10 f else Inr (symbols, True, f)) (\<lambda>(symbols, ok, f).
       if \<not> ok then Inr (Inl Internal, f)
       else let channels = map mark_channel symbols
            in if \<not> confirmed then Inr (Inl Internal, f) else Inr (Inr (symbols, channels), f))"

text \<open>
  Then one goroutine for each symbol sends the initial price while the handler forwards what Redis delivers. Both send on the
  same stream. An event is a goroutine that runs (its index among those that have not run), the end of the client's
  context, a nil message, a message that cannot be parsed, or a mark price; with it come the clock and the answer
  of \<open>stream.Send\<close>. \<open>ps_ended\<close> is \<open>None\<close> while the handler runs and \<open>Some True\<close> after a regular end; the goroutines
  that are left then still run.
\<close>

record ('d, 'r) mark_stream =
  ps_pending :: "string list"
  ps_ended :: "bool option"
  ps_sent :: "mark_update list"
  ps_svc :: "('d, 'r) mark_service"

definition mark_stream_start :: "string list \<Rightarrow> ('d, 'r) mark_service \<Rightarrow> ('d, 'r) mark_stream" where
  "mark_stream_start symbols s = \<lparr>ps_pending = symbols, ps_ended = None, ps_sent = [], ps_svc = s\<rparr>"

datatype 'd mark_event = Initial nat gotime bool | ClientGone | NoMessage | BadPayload | Payload gotime "'d mark_price" bool

fun mark_stream_step ::
  "'d decimal_ops \<Rightarrow> ('r, 'd cached) redis_ops \<Rightarrow> mark_config \<Rightarrow> (string \<Rightarrow> 'd \<times> int) \<Rightarrow> 'd mark_event \<Rightarrow> ('d, 'r) mark_stream \<Rightarrow>
   ('d, 'r) mark_stream outcome" where
  "mark_stream_step D R cfg agg (Initial i now ok) st =
     (if i < length (ps_pending st) then
        obind (mk_GetMarkPrice D R cfg agg now (ps_pending st ! i) (ps_svc st)) (\<lambda>(mp, s).
          let st = st\<lparr>ps_pending := take i (ps_pending st) @ drop (Suc i) (ps_pending st), ps_svc := s\<rparr> in
          case mp of
            None \<Rightarrow> Inr st
          | Some m \<Rightarrow>
              Inr (if ok then st\<lparr>ps_sent := ps_sent st @ [\<lparr>mu_MarkPrice = markPriceToProto D m, mu_Timestamp = timestamp now\<rparr>]\<rparr> else st))
      else Inr st)"
| "mark_stream_step D R cfg agg ClientGone st = Inr (if ps_ended st = None then st\<lparr>ps_ended := Some True\<rparr> else st)"
| "mark_stream_step D R cfg agg NoMessage st = Inr st"
| "mark_stream_step D R cfg agg BadPayload st = Inr st"
| "mark_stream_step D R cfg agg (Payload now m ok) st =
     Inr (if ps_ended st = None then
            (if ok then st\<lparr>ps_sent := ps_sent st @ [\<lparr>mu_MarkPrice = markPriceToProto D m, mu_Timestamp = timestamp now\<rparr>]\<rparr>
             else st\<lparr>ps_ended := Some False\<rparr>)
          else st)"

section \<open>What the operations answer\<close>

text \<open>
  The statistics are those of the table: with fewer than \<open>2^63\<close> rows the number of candles and the number of
  symbols, and zeros when the query fails.
\<close>

lemma sint_of_nat: "n < 2 ^ 63 \<Longrightarrow> sint (of_nat n :: 64 word) = int n"
  by (simp add: sint_uint unsigned_of_nat take_bit_nat_eq_self signed_take_bit_int_eq_self)

lemma grpc_GetStats_counts:
  fixes db :: "db_row list"
  assumes "length db < 2 ^ 63"
  shows "sr_TotalCandles (grpc_GetStats (Some (list_summary db))) = int (length db)"
    and "sr_TotalSymbols (grpc_GetStats (Some (list_summary db))) = int (card (r_symbol ` set db))"
proof -
  have "card (r_symbol ` set db) \<le> length db" by (meson card_image_le card_length finite_set le_trans)
  then show "sr_TotalCandles (grpc_GetStats (Some (list_summary db))) = int (length db)"
    "sr_TotalSymbols (grpc_GetStats (Some (list_summary db))) = int (card (r_symbol ` set db))"
    using assms table.candles_counted [of db] table.symbols_counted [of db]
    by (simp_all add: grpc_GetStats_def sv_GetStats_def repo_GetStats_def int64_of_def sint_of_nat)
qed

lemma grpc_GetStats_fails: "sr_TotalCandles (grpc_GetStats None) = 0 \<and> sr_TotalSymbols (grpc_GetStats None) = 0"
  by (simp add: grpc_GetStats_def sv_GetStats_def repo_GetStats_def int64_of_def)

text \<open>The interceptors change neither the answer nor the effect of a handler.\<close>

lemma unaryInterceptor_transparent:
  "obind (unaryInterceptor method start stop handler req (s, logs)) (\<lambda>(r, s, logs). Inr (r, s)) = handler req s"
  by (cases "handler req s") (auto simp: unaryInterceptor_def Let_def)

lemma streamInterceptor_transparent:
  "obind (streamInterceptor method start stop handler (s, logs)) (\<lambda>(r, s, logs). Inr (r, s)) = handler s"
  by (cases "handler s") (auto simp: streamInterceptor_def Let_def)

text \<open>A server that does not run is not stopped: a stop before the start has no effect on it.\<close>

lemma stop_before_start: "gr_stopping (snd (grpc_Start port True serves (grpc_Stop (NewServer now)))) = False"
  by (simp add: grpc_Start_def grpc_Stop_def NewServer_def)

section \<open>Delivery of mark prices\<close>

text \<open>What Redis delivers to a subscriber of some channels, of what has been published.\<close>

fun payload_mark :: "'d payload \<Rightarrow> 'd mark_price option" where
  "payload_mark (PMarkPrice m) = Some m"
| "payload_mark _ = None"

definition delivered :: "string list \<Rightarrow> 'd redis_msg list \<Rightarrow> 'd mark_price list" where
  "delivered channels msgs = List.map_filter (\<lambda>(channel, p). if channel \<in> set channels then payload_mark p else None) msgs"

text \<open>The mark prices the handler sees and whether it could send them all.\<close>

fun event_payload :: "'d mark_event \<Rightarrow> 'd mark_price option" where
  "event_payload (Payload now m ok) = Some m"
| "event_payload _ = None"

fun event_goes_on :: "'d mark_event \<Rightarrow> bool" where
  "event_goes_on (Payload now m ok) = ok"
| "event_goes_on ClientGone = False"
| "event_goes_on _ = True"

lemma delivered_published:
  "delivered (map mark_channel symbols) (map (\<lambda>(symbol, m). PublishMarkPrice symbol m) ps) = map snd (filter (\<lambda>(symbol, m). symbol \<in> set symbols) ps)"
  by (induction ps) (auto simp: delivered_def map_filter_simps PublishMarkPrice_def mark_channel_def)

lemma shuffles_snoc_right: "zs \<in> shuffles xs ys \<Longrightarrow> zs @ [z] \<in> shuffles xs (ys @ [z])"
proof (induction xs ys arbitrary: zs rule: shuffles.induct)
  case (2 xs)
  have "xs @ [z] \<in> shuffles xs [z]" by (induction xs) (auto intro: Cons_in_shuffles_leftI)
  then show ?case using 2 by simp
next
  case (3 x xs y ys)
  then show ?case by (auto intro: Cons_in_shuffles_leftI Cons_in_shuffles_rightI)
qed simp

lemma shuffles_snoc_left: "zs \<in> shuffles xs ys \<Longrightarrow> zs @ [z] \<in> shuffles (xs @ [z]) ys"
  using shuffles_snoc_right [of zs ys xs z] by (simp add: shuffles_commutes)

lemmas shuffles_snoc = shuffles_snoc_left shuffles_snoc_right

lemma mark_stream_run:
  assumes "ofold (mark_stream_step D R cfg agg) evs st = Inr st'" "list_all event_goes_on evs" "ps_ended st = None"
    and "map mu_MarkPrice (ps_sent st) \<in> shuffles inits us" "length inits + length (ps_pending st) \<le> n"
  shows "ps_ended st' = None \<and> (\<exists>inits'. map mu_MarkPrice (ps_sent st') \<in>
      shuffles inits' (us @ map (markPriceToProto D) (List.map_filter event_payload evs)) \<and> length inits' + length (ps_pending st') \<le> n)"
  using assms
proof (induction evs arbitrary: st inits us)
  case Nil
  then show ?case by (auto simp: map_filter_simps)
next
  case (Cons ev evs)
  obtain st1 where st1: "mark_stream_step D R cfg agg ev st = Inr st1" "ofold (mark_stream_step D R cfg agg) evs st1 = Inr st'"
    using Cons.prems(1) by (auto simp: obind_Inr_iff)
  let ?us = "us @ map (markPriceToProto D) (List.map_filter event_payload [ev])"
  have "\<exists>inits1. ps_ended st1 = None \<and> map mu_MarkPrice (ps_sent st1) \<in> shuffles inits1 ?us \<and> length inits1 + length (ps_pending st1) \<le> n"
  proof (cases ev)
    case (Initial i now ok)
    show ?thesis
    proof (cases "i < length (ps_pending st)")
      case True
      then obtain mp s where mp: "mk_GetMarkPrice D R cfg agg now (ps_pending st ! i) (ps_svc st) = Inr (mp, s)"
        using st1(1) Initial by (auto simp: obind_Inr_iff)
      have len: "length inits + 1 + (length (ps_pending st) - 1) \<le> n" using Cons.prems(5) True by simp
      show ?thesis
      proof (cases "mp \<noteq> None \<and> ok")
        case True
        then obtain m where "mp = Some m" "ok" by auto
        then show ?thesis
          using st1(1) Initial mp \<open>i < length (ps_pending st)\<close> len Cons.prems(3) shuffles_snoc(1) [OF Cons.prems(4)]
          by (intro exI [of _ "inits @ [markPriceToProto D m]"]) (auto simp: Let_def map_filter_simps)
      next
        case False
        then show ?thesis
          using st1(1) Initial mp \<open>i < length (ps_pending st)\<close> len Cons.prems(3,4)
          by (intro exI [of _ inits]) (auto simp: Let_def map_filter_simps split: option.splits if_splits)
      qed
    qed (use st1(1) Initial Cons.prems(3-5) in \<open>auto simp: map_filter_simps\<close>)
  next
    case (Payload now m ok)
    then show ?thesis
      using st1(1) Cons.prems(2-5) shuffles_snoc(2) [OF Cons.prems(4)] by (intro exI [of _ inits]) (auto simp: map_filter_simps)
  qed (use st1(1) Cons.prems(2-5) in \<open>auto simp: map_filter_simps\<close>)
  then obtain inits1 where "ps_ended st1 = None" "map mu_MarkPrice (ps_sent st1) \<in> shuffles inits1 ?us" "length inits1 + length (ps_pending st1) \<le> n"
    by blast
  then show ?case using Cons.IH [OF st1(2) _ _ _, of inits1 ?us] Cons.prems(2) by (auto simp: map_filter_simps split: option.splits)
qed


text \<open>Two mark prices are published, one of them of the symbol the client asked for; the goroutine runs after the first delivery.\<close>

definition sample_mark :: "string \<Rightarrow> fixdec mark_price" where
  "sample_mark symbol = \<lparr>mp_Symbol = symbol, mp_MarkPrice = FD 365 1, mp_IndexPrice = FD 365 1, mp_LastPrice = FD 365 1, mp_FundingBasis = FD 0 0,
     mp_EstimatedFundingRate = FD 0 0, mp_NextFundingTime = sample_time, mp_Timestamp = sample_time\<rparr>"


end
