(* ===== verification/Metrics.thy ===== *)
theory Metrics
  imports Config
begin

text \<open>
  \<open>internal/metrics/metrics.go\<close> and the collector of \<open>main.go\<close>: the descriptions of the Prometheus metrics, the rate trackers and
  the functions that record. The client library is not part of the repository; of it the model has what its
  documentation says: a vector has one metric for each list of label values, made when it is first asked for, and
  panics when the number of values is not that of its labels.
\<close>

section \<open>The metrics\<close>

datatype metric_kind = Counter | Gauge | Histogram "rat list"

record metric_desc =
  md_Name :: string
  md_Help :: string
  md_Kind :: metric_kind
  md_Labels :: "string list"

definition descriptions :: "metric_desc list" where
  "descriptions = [
    \<lparr>md_Name = ''nyyu_realtime_candle_updates_total'',
      md_Help = ''Total real-time candle updates processed by exchange'',
      md_Kind = Counter, md_Labels = [''exchange'', ''symbol'', ''interval'']\<rparr>,
    \<lparr>md_Name = ''nyyu_realtime_candle_latency_ms'',
      md_Help = ''Real-time candle processing latency in milliseconds'',
      md_Kind = Histogram [1 / 10, 1 / 2, 1, 5, 10, 50, 100, 500, 1000], md_Labels = [''exchange'']\<rparr>,
    \<lparr>md_Name = ''nyyu_realtime_aggregation_errors_total'',
      md_Help = ''Total real-time aggregation errors'',
      md_Kind = Counter, md_Labels = [''exchange'', ''error_type'']\<rparr>,
    \<lparr>md_Name = ''nyyu_price_updates_total'',
      md_Help = ''Total price updates published'',
      md_Kind = Counter, md_Labels = [''symbol'']\<rparr>,
    \<lparr>md_Name = ''nyyu_price_calculation_latency_ms'',
      md_Help = ''Price calculation latency in milliseconds'',
      md_Kind = Histogram [1 / 10, 1 / 2, 1, 5, 10, 50, 100, 500], md_Labels = []\<rparr>,
    \<lparr>md_Name = ''nyyu_active_subscriptions'',
      md_Help = ''Number of active client subscriptions'',
      md_Kind = Gauge, md_Labels = [''type'']\<rparr>,
    \<lparr>md_Name = ''nyyu_subscriptions_total'',
      md_Help = ''Total subscriptions created'',
      md_Kind = Counter, md_Labels = [''type'']\<rparr>,
    \<lparr>md_Name = ''nyyu_cache_hits_total'',
      md_Help = ''Total cache hits by tier'',
      md_Kind = Counter, md_Labels = [''tier'']\<rparr>,
    \<lparr>md_Name = ''nyyu_cache_misses_total'',
      md_Help = ''Total cache misses by tier'',
      md_Kind = Counter, md_Labels = [''tier'']\<rparr>,
    \<lparr>md_Name = ''nyyu_cache_hit_ratio'',
      md_Help = ''Cache hit ratio by tier (0-1)'',
      md_Kind = Gauge, md_Labels = [''tier'']\<rparr>,
    \<lparr>md_Name = ''nyyu_database_queries_total'',
      md_Help = ''Total database queries executed'',
      md_Kind = Counter, md_Labels = [''operation'']\<rparr>,
    \<lparr>md_Name = ''nyyu_database_query_latency_ms'',
      md_Help = ''Database query latency in milliseconds'',
      md_Kind = Histogram [1, 5, 10, 50, 100, 500, 1000, 5000], md_Labels = [''operation'']\<rparr>,
    \<lparr>md_Name = ''nyyu_exchange_connections'',
      md_Help = ''Number of active exchange WebSocket connections'',
      md_Kind = Gauge, md_Labels = [''exchange'']\<rparr>,
    \<lparr>md_Name = ''nyyu_exchange_messages_total'',
      md_Help = ''Total messages received from exchanges'',
      md_Kind = Counter, md_Labels = [''exchange'']\<rparr>,
    \<lparr>md_Name = ''nyyu_exchange_errors_total'',
      md_Help = ''Total exchange connection errors'',
      md_Kind = Counter, md_Labels = [''exchange'', ''error_type'']\<rparr>,
    \<lparr>md_Name = ''nyyu_goroutines_active'',
      md_Help = ''Number of active goroutines'',
      md_Kind = Gauge, md_Labels = []\<rparr>,
    \<lparr>md_Name = ''nyyu_memory_allocated_bytes'',
      md_Help = ''Total memory allocated in bytes'',
      md_Kind = Gauge, md_Labels = []\<rparr>,
    \<lparr>md_Name = ''nyyu_publish_success_total'',
      md_Help = ''Total successful Redis publishes'',
      md_Kind = Counter, md_Labels = [''channel_type'']\<rparr>,
    \<lparr>md_Name = ''nyyu_publish_failures_total'',
      md_Help = ''Total failed Redis publishes'',
      md_Kind = Counter, md_Labels = [''channel_type'']\<rparr>,
    \<lparr>md_Name = ''nyyu_publish_latency_ms'',
      md_Help = ''Redis publish latency in milliseconds'',
      md_Kind = Histogram [1 / 10, 1 / 2, 1, 5, 10, 50, 100], md_Labels = [''channel_type'']\<rparr>]"

text \<open>
  What the registration needs, or it panics when the package is initialised: a name for one metric only,
  one name for one label, and buckets that increase.
\<close>

definition registrable :: "metric_desc list \<Rightarrow> bool" where
  "registrable ds \<longleftrightarrow> distinct (map md_Name ds) \<and>
     list_all (\<lambda>d. distinct (md_Labels d) \<and> (case md_Kind d of Histogram bs \<Rightarrow> sorted_wrt (<) bs | _ \<Rightarrow> True)) ds"

section \<open>Rates\<close>

record rate_tracker =
  rk_count :: "64 word"
  rk_lastCount :: "64 word"
  rk_lastUpdated :: gotime

definition NewRateTracker :: "gotime \<Rightarrow> rate_tracker" where
  "NewRateTracker now = \<lparr>rk_count = 0, rk_lastCount = 0, rk_lastUpdated = now\<rparr>"

definition Increment :: "rate_tracker \<Rightarrow> rate_tracker" where
  "Increment rt = rt\<lparr>rk_count := rk_count rt + 1\<rparr>"

definition f64_signed :: "rat \<Rightarrow> rat" where
  "f64_signed x = (if x < 0 then - f64 (- x) else f64 x)"

definition GetRate :: "gotime \<Rightarrow> rate_tracker \<Rightarrow> rat \<times> rate_tracker" where
  "GetRate now rt =
     (let elapsed = dur_Seconds (t_Sub now (rk_lastUpdated rt)) in
      if elapsed < 1 then (0, rt)
      else
        (let current = rk_count rt;
             diff = current - rk_lastCount rt;
             rate = f64_signed (f64_signed (of_int (sint diff)) / elapsed)
         in (rate, rt\<lparr>rk_lastCount := current, rk_lastUpdated := now\<rparr>)))"

section \<open>Recording\<close>

text \<open>A metric is its name and the values of its labels. A result \<open>None\<close> is the panic of a vector.\<close>

type_synonym metric_key = "string \<times> string list"

record metrics =
  mx_counters :: "(metric_key, nat) gomap"
  mx_gauges :: "(metric_key, rat) gomap"
  mx_observed :: "(metric_key \<times> rat) list"
  mx_priceUpdatesTracker :: rate_tracker
  mx_candleWritesTracker :: rate_tracker

definition NewMetrics :: "gotime \<Rightarrow> metrics" where
  "NewMetrics now = \<lparr>mx_counters = [], mx_gauges = [], mx_observed = [],
     mx_priceUpdatesTracker = NewRateTracker now, mx_candleWritesTracker = NewRateTracker now\<rparr>"

definition WithLabelValues :: "string \<Rightarrow> string list \<Rightarrow> metric_key option" where
  "WithLabelValues name labels =
     (case find (\<lambda>d. md_Name d = name) descriptions of
        None \<Rightarrow> None
      | Some d \<Rightarrow> if length (md_Labels d) = length labels then Some (name, labels) else None)"

definition counter_value :: "metrics \<Rightarrow> metric_key \<Rightarrow> nat" where
  "counter_value m k = (case map_of (mx_counters m) k of None \<Rightarrow> 0 | Some n \<Rightarrow> n)"

definition Inc :: "metric_key \<Rightarrow> metrics \<Rightarrow> metrics" where
  "Inc k m = m\<lparr>mx_counters := store k (Suc (counter_value m k)) (mx_counters m)\<rparr>"

definition touch :: "metric_key \<Rightarrow> metrics \<Rightarrow> metrics" where
  "touch k m = m\<lparr>mx_counters := store k (counter_value m k) (mx_counters m)\<rparr>"

definition set_gauge :: "metric_key \<Rightarrow> rat \<Rightarrow> metrics \<Rightarrow> metrics" where
  "set_gauge k v m = m\<lparr>mx_gauges := store k v (mx_gauges m)\<rparr>"

definition TrackPriceUpdate :: "string \<Rightarrow> metrics \<Rightarrow> metrics option" where
  "TrackPriceUpdate symbol m =
     map_option (\<lambda>k. let m = Inc k m in m\<lparr>mx_priceUpdatesTracker := Increment (mx_priceUpdatesTracker m)\<rparr>)
       (WithLabelValues ''nyyu_price_updates_total'' [symbol])"

definition TrackCandleUpdate :: "string \<Rightarrow> string \<Rightarrow> string \<Rightarrow> metrics \<Rightarrow> metrics option" where
  "TrackCandleUpdate exchange symbol interval m =
     map_option (\<lambda>k. let m = Inc k m in m\<lparr>mx_candleWritesTracker := Increment (mx_candleWritesTracker m)\<rparr>)
       (WithLabelValues ''nyyu_realtime_candle_updates_total'' [exchange, symbol, interval])"

definition GetPriceUpdatesPerSecond :: "gotime \<Rightarrow> metrics \<Rightarrow> rat \<times> metrics" where
  "GetPriceUpdatesPerSecond now m =
     (let (rate, t) = GetRate now (mx_priceUpdatesTracker m) in (rate, m\<lparr>mx_priceUpdatesTracker := t\<rparr>))"

definition GetCandleWritesPerSecond :: "gotime \<Rightarrow> metrics \<Rightarrow> rat \<times> metrics" where
  "GetCandleWritesPerSecond now m =
     (let (rate, t) = GetRate now (mx_candleWritesTracker m) in (rate, m\<lparr>mx_candleWritesTracker := t\<rparr>))"

text \<open>
  The counters are read as \<open>float64\<close>. Asking for the two counters makes them; it gives an error and no panic
  when the labels do not fit.
\<close>

definition updateCacheHitRatio :: "string \<Rightarrow> metrics \<Rightarrow> metrics option" where
  "updateCacheHitRatio tier m =
     (case (WithLabelValues ''nyyu_cache_hits_total'' [tier], WithLabelValues ''nyyu_cache_misses_total'' [tier]) of
        (Some hits, Some misses) \<Rightarrow>
          (let m = touch misses (touch hits m);
               hitsVal = f64 (of_nat (counter_value m hits));
               missesVal = f64 (of_nat (counter_value m misses));
               total = f64 (hitsVal + missesVal)
           in if total > 0
              then map_option (\<lambda>k. set_gauge k (f64 (hitsVal / total)) m) (WithLabelValues ''nyyu_cache_hit_ratio'' [tier])
              else Some m)
      | _ \<Rightarrow> Some m)"

definition RecordCacheAccess :: "string \<Rightarrow> bool \<Rightarrow> metrics \<Rightarrow> metrics option" where
  "RecordCacheAccess tier hit m =
     Option.bind (map_option (\<lambda>k. Inc k m) (WithLabelValues (if hit then ''nyyu_cache_hits_total'' else ''nyyu_cache_misses_total'') [tier]))
       (updateCacheHitRatio tier)"

definition TrackLatency :: "gotime \<Rightarrow> gotime \<Rightarrow> metric_key \<Rightarrow> metrics \<Rightarrow> metrics" where
  "TrackLatency start now histogram m =
     (let d = t_Sub now start; duration = sgn d * (\<bar>d\<bar> div 1000000)
      in m\<lparr>mx_observed := mx_observed m @ [(histogram, f64_signed (of_int duration))]\<rparr>)"

text \<open>The collector goroutine of \<open>main\<close>: the memory and the number of goroutines at every tick.\<close>

definition collect_metrics :: "(nat \<times> nat) loop_event list \<Rightarrow> metrics \<Rightarrow> (bool \<times> metrics) outcome" where
  "collect_metrics evs m =
     obind (NewTicker (10 * Second)) (\<lambda>_.
       Inr (ticker_loop (\<lambda>(alloc, goroutines) m. set_gauge (''nyyu_goroutines_active'', []) (f64 (of_nat goroutines))
         (set_gauge (''nyyu_memory_allocated_bytes'', []) (f64 (of_nat alloc)) m)) evs m))"

section \<open>No recording panics\<close>

lemma descriptions_registrable: "registrable descriptions"
  by (simp add: registrable_def descriptions_def)

lemma labels_fit [simp]:
  "WithLabelValues ''nyyu_price_updates_total'' [x] = Some (''nyyu_price_updates_total'', [x])"
  "WithLabelValues ''nyyu_realtime_candle_updates_total'' [x, y, z] = Some (''nyyu_realtime_candle_updates_total'', [x, y, z])"
  "WithLabelValues ''nyyu_cache_hits_total'' [x] = Some (''nyyu_cache_hits_total'', [x])"
  "WithLabelValues ''nyyu_cache_misses_total'' [x] = Some (''nyyu_cache_misses_total'', [x])"
  "WithLabelValues ''nyyu_cache_hit_ratio'' [x] = Some (''nyyu_cache_hit_ratio'', [x])"
  by (simp_all add: WithLabelValues_def descriptions_def)

section \<open>The hit ratio\<close>

lemma counter_simps [simp]:
  "counter_value (Inc k m) j = (if j = k then Suc (counter_value m k) else counter_value m j)"
  "counter_value (touch k m) j = counter_value m j" "counter_value (set_gauge k v m) j = counter_value m j"
  "mx_gauges (Inc k m) = mx_gauges m" "mx_gauges (touch k m) = mx_gauges m"
  "mx_gauges (set_gauge k v m) = store k v (mx_gauges m)"
  by (auto simp: counter_value_def Inc_def touch_def set_gauge_def)

abbreviation hits_key :: "string \<Rightarrow> metric_key" where "hits_key tier \<equiv> (''nyyu_cache_hits_total'', [tier])"

abbreviation misses_key :: "string \<Rightarrow> metric_key" where "misses_key tier \<equiv> (''nyyu_cache_misses_total'', [tier])"

abbreviation ratio_key :: "string \<Rightarrow> metric_key" where "ratio_key tier \<equiv> (''nyyu_cache_hit_ratio'', [tier])"

definition access_run :: "(string \<times> bool) list \<Rightarrow> metrics \<Rightarrow> metrics option" where
  "access_run evs m = fold (\<lambda>(tier, hit) r. Option.bind r (RecordCacheAccess tier hit)) evs (Some m)"

text \<open>How many accesses of a tier had an outcome.\<close>

definition accesses :: "(string \<times> bool) list \<Rightarrow> string \<Rightarrow> bool \<Rightarrow> nat" where
  "accesses evs tier hit = length (filter (\<lambda>e. e = (tier, hit)) evs)"

definition ratio_ok :: "(string \<times> bool) list \<Rightarrow> metrics \<Rightarrow> bool" where
  "ratio_ok evs m \<longleftrightarrow> (\<forall>tier. let h = accesses evs tier True; n = h + accesses evs tier False in
     counter_value m (hits_key tier) = h \<and> counter_value m (misses_key tier) = n - h \<and>
     map_of (mx_gauges m) (ratio_key tier) = (if n = 0 then None else Some (f64 (of_nat h / of_nat n))))"

lemma RecordCacheAccess_counts:
  "\<exists>m'. RecordCacheAccess tier hit m = Some m' \<and>
     (let h = counter_value m (hits_key tier) + (if hit then 1 else 0); s = counter_value m (misses_key tier) + (if hit then 0 else 1) in
      (\<forall>t. counter_value m' (hits_key t) = (if t = tier then h else counter_value m (hits_key t))) \<and>
      (\<forall>t. counter_value m' (misses_key t) = (if t = tier then s else counter_value m (misses_key t))) \<and>
      (h + s < 2 ^ 53 \<longrightarrow> mx_gauges m' = store (ratio_key tier) (f64 (of_nat h / of_nat (h + s))) (mx_gauges m)))"
proof -
  have f: "f64 (f64 (of_nat h) + f64 (of_nat s)) = of_nat (h + s) \<and> f64 (of_nat h) = of_nat h" if "h + s < 2 ^ 53" for h s
    using f64_nat [of h] f64_nat [of s] f64_nat [of "h + s"] that by simp
  show ?thesis
    using f [of "Suc (counter_value m (hits_key tier))" "counter_value m (misses_key tier)"]
      f [of "counter_value m (hits_key tier)" "Suc (counter_value m (misses_key tier))"]
    by (cases hit) (auto simp: RecordCacheAccess_def updateCacheHitRatio_def Let_def add_ac)
qed

lemma access_run_ok:
  assumes "length evs < 2 ^ 53"
  shows "\<exists>m. access_run evs (NewMetrics now) = Some m \<and> ratio_ok evs m"
  using assms
proof (induction evs rule: rev_induct)
  case Nil
  then show ?case by (simp add: access_run_def ratio_ok_def accesses_def NewMetrics_def counter_value_def)
next
  case (snoc e evs)
  obtain tier hit where e: "e = (tier, hit)" by (cases e)
  obtain m where m: "access_run evs (NewMetrics now) = Some m" "ratio_ok evs m" using snoc by auto
  obtain m' where m': "RecordCacheAccess tier hit m = Some m'" using RecordCacheAccess_counts by blast
  have "accesses evs tier True + accesses evs tier False \<le> length evs"
    unfolding accesses_def by (induction evs) auto
  then show ?case
    using RecordCacheAccess_counts [of tier hit m] m m' snoc.prems
    by (intro exI [of _ m']) (auto simp: access_run_def e ratio_ok_def accesses_def Let_def add_ac)
qed

text \<open>
  The hit ratio. Record any accesses of any tiers, fewer than \<open>2^53\<close>: nothing panics, the two counters of a tier
  hold its hits and its misses, and its gauge is the \<open>float64\<close> nearest to the share of hits; a tier without
  an access has no ratio.
\<close>

theorem cache_hit_ratio:
  assumes "length evs < 2 ^ 53"
  shows "\<exists>m. access_run evs (NewMetrics now) = Some m \<and> (\<forall>tier. let h = accesses evs tier True; s = accesses evs tier False in
    counter_value m (hits_key tier) = h \<and> counter_value m (misses_key tier) = s \<and>
    map_of (mx_gauges m) (ratio_key tier) = (if h + s = 0 then None else Some (f64 (of_nat h / of_nat (h + s)))))"
  using access_run_ok [OF assms, of now] by (simp add: ratio_ok_def Let_def)

theorem cache_hit_ratio_witness:
  "\<exists>m. access_run [(''redis'', True), (''db'', False), (''redis'', False), (''redis'', True), (''redis'', True)] (NewMetrics zero_time) = Some m \<and>
    map_of (mx_gauges m) (''nyyu_cache_hit_ratio'', [''redis'']) = Some (f64 (3 / 4)) \<and>
    map_of (mx_gauges m) (''nyyu_cache_hit_ratio'', [''memory'']) = None"
proof -
  let ?evs = "[(''redis'', True), (''db'', False), (''redis'', False), (''redis'', True), (''redis'', True)]"
  obtain m where "access_run ?evs (NewMetrics zero_time) = Some m" and
    r: "map_of (mx_gauges m) (ratio_key tier) = (if accesses ?evs tier True + accesses ?evs tier False = 0 then None
      else Some (f64 (of_nat (accesses ?evs tier True) / of_nat (accesses ?evs tier True + accesses ?evs tier False))))" for tier
    using cache_hit_ratio [of ?evs zero_time] by (auto simp: Let_def)
  then show ?thesis using r [of "''redis''"] r [of "''memory''"] by (auto simp: accesses_def)
qed

section \<open>Rates and latencies\<close>

text \<open>A rate counts every increment since the last report once, and a report within a second of it is 0 and changes nothing.\<close>

lemma Increments: "(Increment ^^ k) rt = rt\<lparr>rk_count := rk_count rt + of_nat k\<rparr>"
  by (induction k) (simp_all add: Increment_def algebra_simps)

lemma GetRate_counts:
  assumes "rk_count rt = rk_lastCount rt" "k < 2 ^ 53" "1 \<le> dur_Seconds (t_Sub now (rk_lastUpdated rt))"
  shows "GetRate now ((Increment ^^ k) rt) =
    (f64 (of_nat k / dur_Seconds (t_Sub now (rk_lastUpdated rt))), \<lparr>rk_count = rk_count rt + of_nat k, rk_lastCount = rk_count rt + of_nat k, rk_lastUpdated = now\<rparr>)"
proof -
  have "sint (of_nat k :: 64 word) = int k"
    using assms(2) by (simp add: sint_uint unsigned_of_nat take_bit_nat_eq_self signed_take_bit_int_eq_self)
  then have "(of_int (sint (of_nat k :: 64 word)) :: rat) = of_nat k" by (simp only: of_int_of_nat_eq)
  moreover have "f64_signed (of_nat k) = of_nat k" using f64_nat [OF assms(2)] by (simp add: f64_signed_def)
  moreover have "\<not> of_nat k / dur_Seconds (t_Sub now (rk_lastUpdated rt)) < 0" using assms(3) by (simp add: not_less)
  ultimately show ?thesis
    using assms(1,3) by (cases rt) (auto simp: GetRate_def Increments Let_def f64_signed_def)
qed

lemma GetRate_early:
  "dur_Seconds (t_Sub now (rk_lastUpdated rt)) < 1 \<Longrightarrow> GetRate now ((Increment ^^ k) rt) = (0, (Increment ^^ k) rt)"
  by (simp add: GetRate_def Increments)

text \<open>
  A latency is a whole number of milliseconds: the buckets of 0.1 and 0.5 milliseconds get the same
  observations, those below one millisecond.
\<close>

lemma TrackLatency_whole:
  assumes "0 \<le> t_Sub now start" "t_Sub now start < 2 ^ 53"
  shows "mx_observed (TrackLatency start now h m) = mx_observed m @ [(h, of_int (t_Sub now start div 1000000))]"
proof -
  let ?d = "t_Sub now start div 1000000"
  have "0 \<le> ?d" "?d < 2 ^ 53" using assms by (auto simp: pos_imp_zdiv_nonneg_iff)
  then have "f64 (of_int ?d) = of_int ?d" using f64_nat [of "nat ?d"] by simp
  then show ?thesis using assms(1) \<open>0 \<le> ?d\<close> by (cases "t_Sub now start = 0") (auto simp: TrackLatency_def Let_def f64_signed_def sgn_if)
qed

end
