(* ===== verification/Importer.thy ===== *)
theory Importer
  imports Repository
begin

text \<open>
  \<open>internal/importer/importer.go\<close>: the import of historical candles, month by month, from the archive of
  Binance. The HTTP answers, the archive reader with the CSV reader on its first file, and the answers of
  the database are arguments; the months, the file names, the parsing of a record, the fallback to daily
  files and the bookkeeping are modelled.
\<close>

section \<open>Jobs and tasks\<close>

record import_job =
  j_Symbol :: string
  j_Intervals :: "string list"
  j_StartYear :: int
  j_StartMonth :: int
  j_EndYear :: int
  j_EndMonth :: int
  j_Workers :: int

definition job_String :: "import_job \<Rightarrow> string" where
  "job_String j = j_Symbol j @ '' ('' @ show_int (int (length (j_Intervals j))) @ '' intervals) from '' @
     show_pad 4 (j_StartYear j) @ ''-'' @ show_pad 2 (j_StartMonth j) @ '' to '' @
     show_pad 4 (j_EndYear j) @ ''-'' @ show_pad 2 (j_EndMonth j)"

record month_task =
  m_Symbol :: string
  m_Interval :: string
  m_Year :: int
  m_Month :: int

datatype import_error = ParseError | InsertError

record import_result =
  res_Task :: month_task
  res_Count :: int
  res_Error :: "import_error option"
  res_Skipped :: bool

text \<open>The intervals of the command line, in \<open>cmd/importer/main.go\<close>.\<close>

definition parseIntervals :: "string \<Rightarrow> string list" where
  "parseIntervals input =
     (if input = ''all'' then
        [''1m'', ''3m'', ''5m'', ''15m'', ''30m'', ''1h'', ''2h'', ''4h'', ''6h'', ''8h'', ''12h'', ''1d'', ''3d'', ''1w'', ''1M'']
      else map trim_space (split input '',''))"

text \<open>Every interval that can be imported, apart from seconds, and one line per interval for a list without blanks.\<close>

lemma parseIntervals_all: "parseIntervals ''all'' = filter (\<lambda>i. i \<noteq> ''1s'') ValidIntervals"
  by (simp add: parseIntervals_def ValidIntervals_def)

lemma parseIntervals_list:
  assumes "is \<noteq> []" "\<forall>i\<in>set is. CHR '','' \<notin> set i \<and> (\<forall>c\<in>set i. \<not> is_space c)" "is \<noteq> [''all'']"
  shows "parseIntervals (join '','' is) = is"
proof -
  have sp: "split (join '','' is) '','' = is" using split_join [of "is" "CHR '',''"] assms(1,2) by simp
  have "split ''all'' '','' = [''all'']" by (rule split_no_sep) (simp add: contains_single)
  then have "join '','' is \<noteq> ''all''" using sp assms(3) by auto
  then show ?thesis using sp assms(2) by (simp add: parseIntervals_def map_idI trim_space_id)
qed

text \<open>
  The loop over the months. Years and months are 64-bit integers; \<open>fuel\<close> bounds the number of
  turns and \<open>None\<close> says that they did not suffice.
\<close>

definition wrap64 :: "int \<Rightarrow> int" where
  "wrap64 n = (n + 2 ^ 63) mod 2 ^ 64 - 2 ^ 63"

fun gen_loop ::
  "nat \<Rightarrow> string \<Rightarrow> string \<Rightarrow> int \<Rightarrow> int \<Rightarrow> int \<Rightarrow> int \<Rightarrow> month_task list \<Rightarrow> month_task list option" where
  "gen_loop 0 symbol interval currentYear currentMonth endYear endMonth tasks = None"
| "gen_loop (Suc fuel) symbol interval currentYear currentMonth endYear endMonth tasks =
     (let tasks = tasks @ [\<lparr>m_Symbol = symbol, m_Interval = interval, m_Year = currentYear, m_Month = currentMonth\<rparr>] in
      if currentYear = endYear \<and> currentMonth = endMonth then Some tasks
      else
        let currentMonth = wrap64 (currentMonth + 1);
            (currentYear, currentMonth) =
              (if currentMonth > 12 then (wrap64 (currentYear + 1), 1) else (currentYear, currentMonth))
        in gen_loop fuel symbol interval currentYear currentMonth endYear endMonth tasks)"

definition generateTasks ::
  "nat \<Rightarrow> string \<Rightarrow> string \<Rightarrow> int \<Rightarrow> int \<Rightarrow> int \<Rightarrow> int \<Rightarrow> month_task list option" where
  "generateTasks fuel symbol interval startYear startMonth endYear endMonth =
     gen_loop fuel symbol interval startYear startMonth endYear endMonth []"

section \<open>One month\<close>

datatype http_answer = NoResponse | HttpResponse int string bool   \<comment> \<open>status, body, whether reading it fails\<close>

definition downloadFile :: "(string \<Rightarrow> http_answer) \<Rightarrow> string \<Rightarrow> string option" where
  "downloadFile http url =
     (case http url of
        NoResponse \<Rightarrow> None
      | HttpResponse st body broken \<Rightarrow> if st \<noteq> 200 then None else if broken then None else Some body)"

definition millis :: "int \<Rightarrow> gotime" where
  "millis ms = t_UTC (time_Unix 0 (ms sdiv 1000) ((ms smod 1000) * 1000000))"

definition parseCSVRecord :: "'d decimal_ops \<Rightarrow> gotime \<Rightarrow> string list \<Rightarrow> string \<Rightarrow> string \<Rightarrow> 'd candle option" where
  "parseCSVRecord D now record symbol interval =
     (if length record < 11 then None
      else
        let openTimeRaw = parse_int (record ! 0) 64;
            closeTimeRaw = parse_int (record ! 6) 64;
            (openTimeMs, closeTimeMs) =
              (if openTimeRaw > 9999999999999 then (openTimeRaw sdiv 1000, closeTimeRaw sdiv 1000)
               else (openTimeRaw, closeTimeRaw))
        in Some \<lparr>c_Symbol = symbol, c_Interval = interval, c_OpenTime = millis openTimeMs, c_CloseTime = millis closeTimeMs,
             c_Open = d_NewFromString D (record ! 1), c_High = d_NewFromString D (record ! 2),
             c_Low = d_NewFromString D (record ! 3), c_Close = d_NewFromString D (record ! 4),
             c_Volume = d_NewFromString D (record ! 5), c_QuoteVolume = d_NewFromString D (record ! 7),
             c_TradeCount = parse_int (record ! 8) 32, c_Source = ''aggregated'', c_IsClosed = True,
             c_ContractType = ''spot'', c_CreatedAt = now, c_UpdatedAt = now,
             c_TakerBuyBaseVolume = d_NewFromString D (record ! 9), c_TakerBuyQuoteVolume = d_NewFromString D (record ! 10)\<rparr>)"

text \<open>
  \<open>unzip\<close> stands for \<open>zip.NewReader\<close> with the CSV reader on each file: \<open>None\<close> for data that is no archive, for each
  file \<open>None\<close> when it cannot be opened, else what the successive calls of \<open>Read\<close> give before the end of the file.
\<close>

datatype csv_read = Record "string list" | ReadError

type_synonym unzip = "string \<Rightarrow> csv_read list option list option"

fun read_records :: "(string list \<Rightarrow> 'd candle option) \<Rightarrow> csv_read list \<Rightarrow> 'd candle list \<Rightarrow> 'd candle list option" where
  "read_records parse [] candles = Some candles"
| "read_records parse (ReadError # rs) candles = None"
| "read_records parse (Record r # rs) candles =
     (case parse r of None \<Rightarrow> read_records parse rs candles | Some c \<Rightarrow> read_records parse rs (candles @ [c]))"

definition parseZipData ::
  "'d decimal_ops \<Rightarrow> unzip \<Rightarrow> gotime \<Rightarrow> string \<Rightarrow> string \<Rightarrow> string \<Rightarrow> 'd candle list option" where
  "parseZipData D unzip now zipData symbol interval =
     (case unzip zipData of
        None \<Rightarrow> None
      | Some [] \<Rightarrow> None
      | Some (None # _) \<Rightarrow> None
      | Some (Some reads # _) \<Rightarrow> read_records (\<lambda>r. parseCSVRecord D now r symbol interval) reads [])"

definition binanceDataURL :: string where
  "binanceDataURL = ''https://data.binance.vision/data/spot/monthly/klines''"

definition dailyURL :: string where
  "dailyURL = ''https://data.binance.vision/data/spot/daily/klines''"

definition daysInMonth :: "month_task \<Rightarrow> int" where
  "daysInMonth task = t_Day (time_Date (m_Year task) (m_Month task + 1) 0 0 0 0 0 0)"

definition daily_url :: "month_task \<Rightarrow> int \<Rightarrow> string" where
  "daily_url task day =
     (let filename = m_Symbol task @ ''-'' @ m_Interval task @ ''-'' @ show_pad 4 (m_Year task) @ ''-'' @
            show_pad 2 (m_Month task) @ ''-'' @ show_pad 2 day @ ''.zip''
      in dailyURL @ ''/'' @ m_Symbol task @ ''/'' @ m_Interval task @ ''/'' @ filename)"

definition monthly_url :: "month_task \<Rightarrow> string" where
  "monthly_url task =
     (let filename = m_Symbol task @ ''-'' @ m_Interval task @ ''-'' @ show_pad 4 (m_Year task) @ ''-'' @
            show_pad 2 (m_Month task) @ ''.zip''
      in binanceDataURL @ ''/'' @ m_Symbol task @ ''/'' @ m_Interval task @ ''/'' @ filename)"

text \<open>The error result of \<open>downloadDailyFiles\<close> is always nil; a day that fails is skipped.\<close>

definition downloadDailyFiles ::
  "'d decimal_ops \<Rightarrow> (string \<Rightarrow> http_answer) \<Rightarrow> unzip \<Rightarrow> gotime \<Rightarrow> month_task \<Rightarrow> 'd candle list" where
  "downloadDailyFiles D http unzip now task =
     fold (\<lambda>day allCandles.
       case downloadFile http (daily_url task day) of
         None \<Rightarrow> allCandles
       | Some zipData \<Rightarrow>
           (case parseZipData D unzip now zipData (m_Symbol task) (m_Interval task) of
              None \<Rightarrow> allCandles
            | Some candles \<Rightarrow> allCandles @ candles)) [1..daysInMonth task] []"

text \<open>\<open>batch\<close> is \<open>repo.BatchCreateCandles\<close> with the answers of the database: success, and the rows inserted.\<close>

definition import_insert ::
  "('d candle list \<Rightarrow> bool \<times> 'd insert_row list) \<Rightarrow> month_task \<Rightarrow> 'd candle list \<Rightarrow> import_result \<times> 'd insert_row list" where
  "import_insert batch task candles =
     (case batch candles of
        (False, rows) \<Rightarrow> (\<lparr>res_Task = task, res_Count = 0, res_Error = Some InsertError, res_Skipped = False\<rparr>, rows)
      | (True, rows) \<Rightarrow> (\<lparr>res_Task = task, res_Count = int (length candles), res_Error = None, res_Skipped = False\<rparr>, rows))"

definition processMonth ::
  "'d decimal_ops \<Rightarrow> (string \<Rightarrow> http_answer) \<Rightarrow> unzip \<Rightarrow> ('d candle list \<Rightarrow> bool \<times> 'd insert_row list) \<Rightarrow> gotime \<Rightarrow> month_task \<Rightarrow>
   import_result \<times> 'd insert_row list" where
  "processMonth D http unzip batch now task =
     (case downloadFile http (monthly_url task) of
        None \<Rightarrow>
          (let candles = downloadDailyFiles D http unzip now task in
           if length candles = 0 then (\<lparr>res_Task = task, res_Count = 0, res_Error = None, res_Skipped = True\<rparr>, [])
           else import_insert batch task candles)
      | Some zipData \<Rightarrow>
          (case parseZipData D unzip now zipData (m_Symbol task) (m_Interval task) of
             None \<Rightarrow> (\<lparr>res_Task = task, res_Count = 0, res_Error = Some ParseError, res_Skipped = False\<rparr>, [])
           | Some candles \<Rightarrow> import_insert batch task candles))"

section \<open>The import\<close>

record import_summary =
  sum_total :: int
  sum_success :: int
  sum_fail :: int
  sum_skipped :: int

definition count_result :: "import_result \<Rightarrow> import_summary \<Rightarrow> import_summary" where
  "count_result r s =
     (if res_Error r \<noteq> None then s\<lparr>sum_fail := sum_fail s + 1\<rparr>
      else if res_Skipped r then s\<lparr>sum_skipped := sum_skipped s + 1\<rparr>
      else s\<lparr>sum_success := sum_success s + 1\<rparr>)"

text \<open>
  The workers of an interval take the tasks from the buffered channel; \<open>order\<close> is the order in which they
  finish them. Without workers nobody receives, and the channel of results is closed at once.
\<close>

definition run_workers ::
  "int \<Rightarrow> (month_task list \<Rightarrow> month_task list) \<Rightarrow> (month_task \<Rightarrow> import_result \<times> 'd insert_row list) \<Rightarrow> month_task list \<Rightarrow>
   (import_result \<times> 'd insert_row list) list" where
  "run_workers workers order process tasks = (if workers \<le> 0 then [] else map process (order tasks))"

fun import_loop ::
  "nat \<Rightarrow> (month_task list \<Rightarrow> month_task list) \<Rightarrow> (month_task \<Rightarrow> import_result \<times> 'd insert_row list) \<Rightarrow> import_job \<Rightarrow>
   string list \<Rightarrow> import_summary \<Rightarrow> 'd insert_row list \<Rightarrow> (import_summary \<times> 'd insert_row list) option" where
  "import_loop fuel order process job [] s rows = Some (s, rows)"
| "import_loop fuel order process job (interval # is) s rows =
     (case generateTasks fuel (j_Symbol job) interval (j_StartYear job) (j_StartMonth job) (j_EndYear job) (j_EndMonth job) of
        None \<Rightarrow> None
      | Some tasks \<Rightarrow>
          (let results = run_workers (j_Workers job) order process tasks
           in import_loop fuel order process job is
                (fold count_result (map fst results) (s\<lparr>sum_total := sum_total s + int (length tasks)\<rparr>))
                (rows @ concat (map snd results))))"

text \<open>The error, which names the number of failures, the counters and the rows written; \<open>None\<close> when it does not return.\<close>

definition Import ::
  "nat \<Rightarrow> (month_task list \<Rightarrow> month_task list) \<Rightarrow> (month_task \<Rightarrow> import_result \<times> 'd insert_row list) \<Rightarrow> import_job \<Rightarrow>
   (int option \<times> import_summary \<times> 'd insert_row list) option" where
  "Import fuel order process job =
     (case import_loop fuel order process job (j_Intervals job)
        \<lparr>sum_total = 0, sum_success = 0, sum_fail = 0, sum_skipped = 0\<rparr> [] of
        None \<Rightarrow> None
      | Some (s, rows) \<Rightarrow> Some (if sum_fail s > 0 then Some (sum_fail s) else None, s, rows))"

section \<open>The months of a job\<close>

text \<open>The number of a month, counted from January of the year 0, and the task of a number.\<close>

definition month_no :: "int \<Rightarrow> int \<Rightarrow> int" where
  "month_no y m = y * 12 + m - 1"

definition task_no :: "string \<Rightarrow> string \<Rightarrow> int \<Rightarrow> month_task" where
  "task_no symbol interval k = \<lparr>m_Symbol = symbol, m_Interval = interval, m_Year = k div 12, m_Month = k mod 12 + 1\<rparr>"

lemma wrap64_id: "- (2 ^ 63) \<le> n \<Longrightarrow> n < 2 ^ 63 \<Longrightarrow> wrap64 n = n"
  by (simp add: wrap64_def)

lemma task_no_month:
  assumes "1 \<le> m" "m \<le> 12"
  shows "task_no symbol interval (month_no y m) = \<lparr>m_Symbol = symbol, m_Interval = interval, m_Year = y, m_Month = m\<rparr>"
proof -
  have "month_no y m div 12 = y" "month_no y m mod 12 = m - 1"
    using assms by (simp_all add: month_no_def int_div_pos_eq int_mod_pos_eq)
  then show ?thesis by (simp add: task_no_def)
qed

lemma gen_loop_Suc:
  assumes "1 \<le> m" "m \<le> 12" "- (2 ^ 63) \<le> y" "y < 2 ^ 63 - 1"
  obtains y' m' where "1 \<le> m'" "m' \<le> 12" "y \<le> y'" "y' \<le> y + 1" "month_no y' m' = month_no y m + 1"
    "\<And>acc. gen_loop (Suc fuel) symbol interval y m ey em acc =
      (if y = ey \<and> m = em then Some (acc @ [task_no symbol interval (month_no y m)])
       else gen_loop fuel symbol interval y' m' ey em (acc @ [task_no symbol interval (month_no y m)]))"
proof -
  have "wrap64 (m + 1) = m + 1" "wrap64 (y + 1) = y + 1" using assms by (simp_all add: wrap64_id)
  moreover have "month_no (if m = 12 then y + 1 else y) (if m = 12 then 1 else m + 1) = month_no y m + 1"
    by (simp add: month_no_def)
  ultimately show ?thesis
    using assms
    by (intro that [of "if m = 12 then 1 else m + 1" "if m = 12 then y + 1 else y"])
      (auto simp: task_no_month Let_def)
qed

lemma month_no_inj:
  assumes "1 \<le> m" "m \<le> 12" "1 \<le> m'" "m' \<le> 12"
  shows "month_no y m = month_no y' m' \<longleftrightarrow> y = y' \<and> m = m'"
proof
  assume "month_no y m = month_no y' m'"
  then have "task_no [] [] (month_no y m) = task_no [] [] (month_no y' m')" by (simp only:)
  then show "y = y' \<and> m = m'" unfolding task_no_month [OF assms(1,2)] task_no_month [OF assms(3,4)] by simp
qed simp

lemma gen_loop_returns:
  assumes "1 \<le> m" "m \<le> 12" "1 \<le> em" "em \<le> 12" "- (2 ^ 63) \<le> y" "ey < 2 ^ 63 - 1" "month_no y m \<le> month_no ey em"
  shows "gen_loop fuel symbol interval y m ey em acc =
    (if nat (month_no ey em - month_no y m) < fuel
     then Some (acc @ map (task_no symbol interval) [month_no y m..month_no ey em]) else None)"
  using assms(1,2,5,7)
proof (induction fuel arbitrary: y m acc)
  case (Suc fuel)
  have "y \<le> ey" using Suc.prems(1,2,4) assms(3,4) by (simp add: month_no_def)
  then have y: "y < 2 ^ 63 - 1" using assms(6) by linarith
  obtain y' m' where n: "1 \<le> m'" "m' \<le> 12" "y \<le> y'" "y' \<le> y + 1" "month_no y' m' = month_no y m + 1"
    "\<And>acc. gen_loop (Suc fuel) symbol interval y m ey em acc =
      (if y = ey \<and> m = em then Some (acc @ [task_no symbol interval (month_no y m)])
       else gen_loop fuel symbol interval y' m' ey em (acc @ [task_no symbol interval (month_no y m)]))"
    by (rule gen_loop_Suc [OF Suc.prems(1-3) y, of fuel symbol interval ey em]) (rule that)
  show ?case
  proof (cases "month_no y m = month_no ey em")
    case True
    then have "y = ey \<and> m = em" using month_no_inj [OF Suc.prems(1,2) assms(3,4)] by blast
    then show ?thesis unfolding n(6) by simp
  next
    case False
    then have less: "month_no y m < month_no ey em" "\<not> (y = ey \<and> m = em)" using Suc.prems(4) by auto
    have "gen_loop fuel symbol interval y' m' ey em (acc @ [task_no symbol interval (month_no y m)]) =
        (if nat (month_no ey em - month_no y' m') < fuel
         then Some ((acc @ [task_no symbol interval (month_no y m)]) @ map (task_no symbol interval) [month_no y' m'..month_no ey em]) else None)"
      using n(3) Suc.prems(3) less(1) by (intro Suc.IH [OF n(1,2)]) (simp_all add: n(5))
    then show ?thesis using less by (auto simp: n(5,6) upto_rec1 [of "month_no y m"] simp del: gen_loop.simps)
  qed
qed simp

lemma gen_loop_diverges:
  assumes "1 \<le> m" "m \<le> 12" "- (2 ^ 63) \<le> y" "y + int fuel < 2 ^ 63" "\<not> (1 \<le> em \<and> em \<le> 12) \<or> month_no ey em < month_no y m"
  shows "gen_loop fuel symbol interval y m ey em acc = None"
  using assms
proof (induction fuel arbitrary: y m acc)
  case (Suc fuel)
  have y: "y < 2 ^ 63 - 1" using Suc.prems(4) by simp
  obtain y' m' where n: "1 \<le> m'" "m' \<le> 12" "y \<le> y'" "y' \<le> y + 1" "month_no y' m' = month_no y m + 1"
    "\<And>acc. gen_loop (Suc fuel) symbol interval y m ey em acc =
      (if y = ey \<and> m = em then Some (acc @ [task_no symbol interval (month_no y m)])
       else gen_loop fuel symbol interval y' m' ey em (acc @ [task_no symbol interval (month_no y m)]))"
    by (rule gen_loop_Suc [OF Suc.prems(1-3) y, of fuel symbol interval ey em]) (rule that)
  have "\<not> (y = ey \<and> m = em)" using Suc.prems(1,2,5) by auto
  moreover have "gen_loop fuel symbol interval y' m' ey em (acc @ [task_no symbol interval (month_no y m)]) = None"
    using n(1-5) Suc.prems(3-5) by (intro Suc.IH) auto
  ultimately show ?case by (simp only: n(6) if_False)
qed simp

text \<open>
  C16. The months of a job. When the start is not after the end, the loop returns after exactly as many turns
  as there are months, with one task for each month from the first to the last, in order. When the
  end lies before the start or is no month, it does not return in the first four billion billion turns: the
  list of tasks grows until the memory is exhausted.
\<close>

theorem generateTasks_months:
  assumes "1 \<le> sm" "sm \<le> 12" "\<bar>sy\<bar> < 2 ^ 62" "\<bar>ey\<bar> < 2 ^ 62"
  shows "(1 \<le> em \<and> em \<le> 12 \<and> month_no sy sm \<le> month_no ey em \<longrightarrow>
      (\<forall>fuel. generateTasks fuel symbol interval sy sm ey em =
        (if nat (month_no ey em - month_no sy sm) < fuel
         then Some (map (task_no symbol interval) [month_no sy sm..month_no ey em]) else None))) \<and>
    (\<not> (1 \<le> em \<and> em \<le> 12) \<or> month_no ey em < month_no sy sm \<longrightarrow>
      (\<forall>fuel \<le> 2 ^ 62. generateTasks fuel symbol interval sy sm ey em = None))"
proof (intro conjI impI allI)
  fix fuel
  assume "1 \<le> em \<and> em \<le> 12 \<and> month_no sy sm \<le> month_no ey em"
  then show "generateTasks fuel symbol interval sy sm ey em =
      (if nat (month_no ey em - month_no sy sm) < fuel
       then Some (map (task_no symbol interval) [month_no sy sm..month_no ey em]) else None)"
    using gen_loop_returns [of sm em sy ey fuel symbol interval "[]"] assms by (simp add: generateTasks_def)
next
  fix fuel :: nat
  assume "\<not> (1 \<le> em \<and> em \<le> 12) \<or> month_no ey em < month_no sy sm" and "fuel \<le> 2 ^ 62"
  moreover from this(2) have "int fuel \<le> 2 ^ 62" by (simp add: nat_le_iff flip: of_nat_le_iff)
  ultimately show "generateTasks fuel symbol interval sy sm ey em = None"
    using assms unfolding generateTasks_def by (intro gen_loop_diverges) auto
qed

theorem generateTasks_months_witness:
  "generateTasks 4 ''BTCUSDT'' ''1h'' 2023 11 2024 2 =
     Some [\<lparr>m_Symbol = ''BTCUSDT'', m_Interval = ''1h'', m_Year = 2023, m_Month = 11\<rparr>,
       \<lparr>m_Symbol = ''BTCUSDT'', m_Interval = ''1h'', m_Year = 2023, m_Month = 12\<rparr>,
       \<lparr>m_Symbol = ''BTCUSDT'', m_Interval = ''1h'', m_Year = 2024, m_Month = 1\<rparr>,
       \<lparr>m_Symbol = ''BTCUSDT'', m_Interval = ''1h'', m_Year = 2024, m_Month = 2\<rparr>] \<and>
   generateTasks 1000000 ''BTCUSDT'' ''1h'' 2024 2 2023 11 = None"
  using generateTasks_months [of 11 2023 2024 2 "''BTCUSDT''" "''1h''"] generateTasks_months [of 2 2024 2023 11 "''BTCUSDT''" "''1h''"]
  by (simp add: month_no_def task_no_def upto_rec1)

section \<open>Reading a record\<close>

text \<open>
  A line of the archive: times in milliseconds (\<open>unit_ns\<close> a million) or, in the newer files, in
  microseconds (\<open>unit_ns\<close> a thousand); \<open>str\<close> prints a decimal.
\<close>

definition kline_record :: "('d \<Rightarrow> string) \<Rightarrow> int \<Rightarrow> 'd candle \<Rightarrow> string list" where
  "kline_record str unit_ns c =
     [show_int (t_ns (c_OpenTime c) div unit_ns), str (c_Open c), str (c_High c), str (c_Low c), str (c_Close c),
      str (c_Volume c), show_int (t_ns (c_CloseTime c) div unit_ns), str (c_QuoteVolume c), show_int (c_TradeCount c),
      str (c_TakerBuyBaseVolume c), str (c_TakerBuyQuoteVolume c), ''0'']"

lemma millis_eq: "0 \<le> ms \<Longrightarrow> millis ms = time_UnixMilli 0 ms"
proof -
  have "ms div 1000 * Second + ms mod 1000 * Millisecond = ms * Millisecond"
    using div_mult_mod_eq [of ms 1000] by linarith
  then show "0 \<le> ms \<Longrightarrow> millis ms = time_UnixMilli 0 ms"
    by (simp add: millis_def t_UTC_def time_Unix_def time_UnixMilli_def sdiv_nonneg smod_nonneg)
qed

lemma millis_of_time: "0 \<le> t_ns t \<Longrightarrow> millis (t_ns t div Millisecond) = to_millis t"
  by (simp add: millis_eq to_millis_def t_UnixMilli_def pos_imp_zdiv_nonneg_iff)

text \<open>
  C33. A record is read back. A candle written as a line of the archive, in the older format with
  milliseconds up to the year 2286 or in the newer one with microseconds from April 1970 on, is parsed to this
  candle: the times in UTC and cut to milliseconds, the decimals and the trade count as they were,
  marked as closed, aggregated and spot. The format is recognised from the open time alone.
\<close>

theorem csv_record_round_trip:
  assumes "(unit_ns = 1000000 \<and> t_ns (c_OpenTime c) div unit_ns \<le> 9999999999999) \<or>
      (unit_ns = 1000 \<and> 9999999999999 < t_ns (c_OpenTime c) div unit_ns)"
    and "0 \<le> t_ns (c_OpenTime c)" "0 \<le> t_ns (c_CloseTime c)"
      "t_ns (c_OpenTime c) div unit_ns < 2 ^ 63" "t_ns (c_CloseTime c) div unit_ns < 2 ^ 63"
    and "- (2 ^ 31) \<le> c_TradeCount c" "c_TradeCount c < 2 ^ 31"
    and "\<forall>x\<in>{c_Open c, c_High c, c_Low c, c_Close c, c_Volume c, c_QuoteVolume c, c_TakerBuyBaseVolume c, c_TakerBuyQuoteVolume c}.
      d_NewFromString D (str x) = x"
  shows "parseCSVRecord D now (kline_record str unit_ns c) symbol interval =
    Some (c\<lparr>c_Symbol := symbol, c_Interval := interval, c_OpenTime := to_millis (c_OpenTime c),
      c_CloseTime := to_millis (c_CloseTime c), c_Source := ''aggregated'', c_IsClosed := True, c_ContractType := ''spot'',
      c_CreatedAt := now, c_UpdatedAt := now\<rparr>)"
proof -
  let ?r = "kline_record str unit_ns c"
  have r: "?r ! 0 = show_int (t_ns (c_OpenTime c) div unit_ns)" "?r ! Suc 0 = str (c_Open c)" "?r ! 2 = str (c_High c)"
    "?r ! 3 = str (c_Low c)" "?r ! 4 = str (c_Close c)" "?r ! 5 = str (c_Volume c)"
    "?r ! 6 = show_int (t_ns (c_CloseTime c) div unit_ns)" "?r ! 7 = str (c_QuoteVolume c)" "?r ! 8 = show_int (c_TradeCount c)"
    "?r ! 9 = str (c_TakerBuyBaseVolume c)" "?r ! 10 = str (c_TakerBuyQuoteVolume c)" "length ?r = 12"
    by (simp_all add: kline_record_def)
  have unit: "0 < unit_ns" using assms(1) by auto
  have read: "parse_int (show_int n) 64 = n" if "0 \<le> n" "n < 2 ^ 63" for n
    using that by (intro parse_int_show_int) simp_all
  have "parse_int (show_int (t_ns (c_OpenTime c) div unit_ns)) 64 = t_ns (c_OpenTime c) div unit_ns"
      "parse_int (show_int (t_ns (c_CloseTime c) div unit_ns)) 64 = t_ns (c_CloseTime c) div unit_ns"
    using pos_imp_zdiv_nonneg_iff [OF unit] assms(2-5) read by blast+
  moreover have "parse_int (show_int (c_TradeCount c)) 32 = c_TradeCount c"
    using assms(6,7) by (intro parse_int_show_int) simp_all
  moreover have "\<And>t. 0 \<le> t_ns t \<Longrightarrow> millis ((t_ns t div 1000) sdiv 1000) = to_millis t"
    by (simp add: sdiv_nonneg pos_imp_zdiv_nonneg_iff flip: zdiv_zmult2_eq millis_of_time)
  ultimately show ?thesis
    using assms(1-3,8) by (auto simp: parseCSVRecord_def r Let_def millis_of_time)
qed

text \<open>A line of the newer format, for the first minute of 2025.\<close>

definition candle_2025 :: "fixdec candle" where
  "candle_2025 = written_candle\<lparr>c_OpenTime := time_UnixMilli 0 1735689600000,
     c_CloseTime := \<lparr>t_ns = 1735689659999999000, t_off = 0\<rparr>\<rparr>"

theorem csv_record_round_trip_witness:
  "map_option c_OpenTime (parseCSVRecord fd_ops zero_time (kline_record fd_show 1000 candle_2025) ''BTCUSDT'' ''1m'') =
     Some (time_UnixMilli 0 1735689600000) \<and>
   map_option c_CloseTime (parseCSVRecord fd_ops zero_time (kline_record fd_show 1000 candle_2025) ''BTCUSDT'' ''1m'') =
     Some (time_UnixMilli 0 1735689659999) \<and>
   map_option c_Close (parseCSVRecord fd_ops zero_time (kline_record fd_show 1000 candle_2025) ''BTCUSDT'' ''1m'') = Some (FD 366 1)"
proof -
  have "parseCSVRecord fd_ops zero_time (kline_record fd_show 1000 candle_2025) ''BTCUSDT'' ''1m'' =
      Some (candle_2025\<lparr>c_Symbol := ''BTCUSDT'', c_Interval := ''1m'', c_OpenTime := to_millis (c_OpenTime candle_2025),
        c_CloseTime := to_millis (c_CloseTime candle_2025), c_Source := ''aggregated'', c_IsClosed := True,
        c_ContractType := ''spot'', c_CreatedAt := zero_time, c_UpdatedAt := zero_time\<rparr>)"
    using written_candle_text
    by (intro csv_record_round_trip) (simp_all add: candle_2025_def time_UnixMilli_def written_candle_sel)
  then show ?thesis
    by (simp add: candle_2025_def to_millis_def time_UnixMilli_def t_UnixMilli_def written_candle_sel)
qed

section \<open>What an import reports\<close>

definition failed :: "import_result \<Rightarrow> bool" where
  "failed r \<longleftrightarrow> res_Error r \<noteq> None"

definition number :: "('a \<Rightarrow> bool) \<Rightarrow> 'a list \<Rightarrow> int" where
  "number P xs = int (length (filter P xs))"

lemma number_simps [simp]: "number P [] = 0" "number P (x # xs) = (if P x then 1 else 0) + number P xs"
    "number P (xs @ ys) = number P xs + number P ys"
  by (simp_all add: number_def)

lemma number_map: "number P (map f xs) = number (\<lambda>x. P (f x)) xs"
  by (induction xs) simp_all

lemma number_mset: "mset xs = mset ys \<Longrightarrow> number P xs = number P ys"
  unfolding number_def by (metis mset_filter size_mset)

lemma number_zero: "number P xs = 0 \<longleftrightarrow> (\<forall>x\<in>set xs. \<not> P x)" "0 \<le> number P xs"
  by (simp_all add: number_def filter_empty_conv)

lemma number_parts:
  "number (\<lambda>x. \<not> P x \<and> \<not> Q x) xs + number (\<lambda>x. \<not> P x \<and> Q x) xs + number P xs = int (length xs)"
  by (induction xs) simp_all

lemma count_results:
  "sum_total (fold count_result rs s) = sum_total s"
  "sum_fail (fold count_result rs s) = sum_fail s + number failed rs"
  "sum_skipped (fold count_result rs s) = sum_skipped s + number (\<lambda>r. \<not> failed r \<and> res_Skipped r) rs"
  "sum_success (fold count_result rs s) = sum_success s + number (\<lambda>r. \<not> failed r \<and> \<not> res_Skipped r) rs"
  by (induction rs arbitrary: s) (simp_all add: count_result_def failed_def)

lemma rows_mset: "mset xs = mset ys \<Longrightarrow> mset (concat (map f xs)) = mset (concat (map f ys))"
  unfolding mset_concat map_map by (rule sum_list_mset_cong)

text \<open>The tasks of all intervals.\<close>

definition job_tasks :: "import_job \<Rightarrow> string list \<Rightarrow> month_task list" where
  "job_tasks job is = concat (map (\<lambda>i. map (task_no (j_Symbol job) i)
     [month_no (j_StartYear job) (j_StartMonth job)..month_no (j_EndYear job) (j_EndMonth job)]) is)"

definition job_ok :: "import_job \<Rightarrow> nat \<Rightarrow> bool" where
  "job_ok job fuel \<longleftrightarrow>
     (let start = month_no (j_StartYear job) (j_StartMonth job); finish = month_no (j_EndYear job) (j_EndMonth job) in
      1 \<le> j_StartMonth job \<and> j_StartMonth job \<le> 12 \<and> 1 \<le> j_EndMonth job \<and> j_EndMonth job \<le> 12 \<and>
      \<bar>j_StartYear job\<bar> < 2 ^ 62 \<and> \<bar>j_EndYear job\<bar> < 2 ^ 62 \<and> start \<le> finish \<and> nat (finish - start) < fuel)"

lemma generate_ok:
  assumes "job_ok job fuel"
  shows "generateTasks fuel (j_Symbol job) i (j_StartYear job) (j_StartMonth job) (j_EndYear job) (j_EndMonth job) = Some (job_tasks job [i])"
  using assms unfolding job_ok_def Let_def generateTasks_def by (subst gen_loop_returns) (auto simp: job_tasks_def)

lemma import_loop_counts:
  assumes "job_ok job fuel" "\<And>ts. mset (order ts) = mset ts" "0 < j_Workers job"
  shows "\<exists>s' rows'. import_loop fuel order process job is s rows = Some (s', rows') \<and>
    sum_total s' = sum_total s + int (length (job_tasks job is)) \<and>
    sum_fail s' = sum_fail s + number (\<lambda>t. failed (fst (process t))) (job_tasks job is) \<and>
    sum_skipped s' = sum_skipped s + number (\<lambda>t. \<not> failed (fst (process t)) \<and> res_Skipped (fst (process t))) (job_tasks job is) \<and>
    sum_success s' = sum_success s + number (\<lambda>t. \<not> failed (fst (process t)) \<and> \<not> res_Skipped (fst (process t))) (job_tasks job is) \<and>
    mset rows' = mset rows + mset (concat (map (\<lambda>t. snd (process t)) (job_tasks job is)))"
proof (induction "is" arbitrary: s rows)
  case Nil
  show ?case by (simp add: job_tasks_def)
next
  case (Cons i "is")
  let ?ts = "job_tasks job [i]"
  have split: "job_tasks job (i # is) = ?ts @ job_tasks job is" by (simp add: job_tasks_def)
  note num = number_mset [OF assms(2)] and rows = rows_mset [OF assms(2)]
  show ?case
    using Cons.IH [of "fold count_result (map fst (map process (order ?ts))) (s\<lparr>sum_total := sum_total s + int (length ?ts)\<rparr>)"
        "rows @ concat (map snd (map process (order ?ts)))"] assms(3)
    by (auto simp: generate_ok [OF assms(1)] run_workers_def Let_def split count_results number_map num rows comp_def)
qed

lemma import_loop_idle:
  assumes "job_ok job fuel" "\<not> 0 < j_Workers job"
  shows "\<exists>s'. import_loop fuel order process job is s rows = Some (s', rows) \<and>
    sum_total s' = sum_total s + int (length (job_tasks job is)) \<and> sum_fail s' = sum_fail s \<and> sum_success s' = sum_success s"
proof (induction "is" arbitrary: s)
  case Nil
  show ?case by (simp add: job_tasks_def)
next
  case (Cons i "is")
  have split: "job_tasks job (i # is) = job_tasks job [i] @ job_tasks job is" by (simp add: job_tasks_def)
  show ?case
    using Cons.IH [of "s\<lparr>sum_total := sum_total s + int (length (job_tasks job [i]))\<rparr>"] assms(2)
    by (auto simp: generate_ok [OF assms(1)] run_workers_def Let_def split)
qed

text \<open>
  C34. What an import reports. With at least one worker and a range of months that is not empty, whatever
  order the workers finish in, the import returns; every month of every interval is processed once, the
  numbers of successes, skipped months and failures are those of the tasks and add up to the total, exactly the rows of all tasks
  are written, and an error is returned precisely when some task failed. Without workers it returns
  without an error although nothing was imported.
\<close>

theorem import_reports:
  assumes "job_ok job fuel" and perm: "\<And>ts. mset (order ts) = mset ts"
  shows "\<exists>err s rows. Import fuel order (processMonth D http unzip batch now) job = Some (err, s, rows) \<and>
    sum_total s = int (length (job_tasks job (j_Intervals job))) \<and>
    (let run = processMonth D http unzip batch now; ts = job_tasks job (j_Intervals job) in
     if 0 < j_Workers job then
       sum_fail s = number (\<lambda>t. failed (fst (run t))) ts \<and>
       sum_skipped s = number (\<lambda>t. \<not> failed (fst (run t)) \<and> res_Skipped (fst (run t))) ts \<and>
       sum_success s + sum_skipped s + sum_fail s = sum_total s \<and>
       mset rows = mset (concat (map (\<lambda>t. snd (run t)) ts)) \<and>
       (err = None \<longleftrightarrow> (\<forall>t\<in>set ts. \<not> failed (fst (run t))))
     else err = None \<and> rows = [] \<and> sum_success s = 0)"
proof (cases "0 < j_Workers job")
  case True
  let ?run = "processMonth D http unzip batch now" and ?ts = "job_tasks job (j_Intervals job)"
  obtain s rows where l: "import_loop fuel order ?run job (j_Intervals job)
      \<lparr>sum_total = 0, sum_success = 0, sum_fail = 0, sum_skipped = 0\<rparr> [] = Some (s, rows)"
    and c: "sum_total s = int (length ?ts)" "sum_fail s = number (\<lambda>t. failed (fst (?run t))) ?ts"
      "sum_skipped s = number (\<lambda>t. \<not> failed (fst (?run t)) \<and> res_Skipped (fst (?run t))) ?ts"
      "sum_success s = number (\<lambda>t. \<not> failed (fst (?run t)) \<and> \<not> res_Skipped (fst (?run t))) ?ts"
      "mset rows = mset (concat (map (\<lambda>t. snd (?run t)) ?ts))"
    using import_loop_counts [OF assms True, of ?run "j_Intervals job" "\<lparr>sum_total = 0, sum_success = 0, sum_fail = 0, sum_skipped = 0\<rparr>" "[]"]
    by auto
  have "sum_success s + sum_skipped s + sum_fail s = sum_total s" unfolding c(1-4) by (rule number_parts)
  moreover have "sum_fail s > 0 \<longleftrightarrow> \<not> (\<forall>t\<in>set ?ts. \<not> failed (fst (?run t)))"
    using number_zero [of "\<lambda>t. failed (fst (?run t))" ?ts] unfolding c(2) by linarith
  ultimately show ?thesis using True l c by (auto simp: Import_def Let_def)
next
  case False
  obtain s where "import_loop fuel order (processMonth D http unzip batch now) job (j_Intervals job)
      \<lparr>sum_total = 0, sum_success = 0, sum_fail = 0, sum_skipped = 0\<rparr> [] = Some (s, [])"
      "sum_total s = int (length (job_tasks job (j_Intervals job)))" "sum_fail s = 0" "sum_success s = 0"
    using import_loop_idle [OF assms(1), of order "processMonth D http unzip batch now" "j_Intervals job"
        "\<lparr>sum_total = 0, sum_success = 0, sum_fail = 0, sum_skipped = 0\<rparr>" "[]"] False by auto
  then show ?thesis using False by (simp add: Import_def)
qed

text \<open>A month whose archive cannot be read.\<close>

definition sample_job :: import_job where
  "sample_job = \<lparr>j_Symbol = ''BTCUSDT'', j_Intervals = [''1h''], j_StartYear = 2024, j_StartMonth = 1,
     j_EndYear = 2024, j_EndMonth = 1, j_Workers = 5\<rparr>"

theorem import_reports_witness:
  "\<exists>s rows. Import 1 rev (processMonth fd_ops (\<lambda>_. HttpResponse 200 [] False) (\<lambda>_. None) (\<lambda>_. (True, [])) zero_time) sample_job =
      Some (Some 1, s, rows) \<and> sum_total s = 1"
proof -
  let ?run = "processMonth fd_ops (\<lambda>_. HttpResponse 200 [] False) (\<lambda>_. None) (\<lambda>_. (True, [])) zero_time"
  have ts: "job_tasks sample_job (j_Intervals sample_job) = [task_no ''BTCUSDT'' ''1h'' 24288]"
    by (simp add: job_tasks_def sample_job_def month_no_def)
  have "failed (fst (?run t))" for t
    by (simp add: processMonth_def downloadFile_def parseZipData_def failed_def)
  moreover have "job_ok sample_job 1" by (simp add: job_ok_def sample_job_def month_no_def)
  ultimately show ?thesis
    using import_reports [of sample_job 1 rev fd_ops "\<lambda>_. HttpResponse 200 [] False" "\<lambda>_. None" "\<lambda>_. (True, [])" zero_time]
    unfolding ts by (auto simp: sample_job_def Import_def split: option.splits)
qed

end
