(* ===== verification/Import_Command.thy ===== *)
theory Import_Command
  imports Importer Config
begin

text \<open>
  \<open>cmd/importer/main.go\<close> and the constructor of \<open>internal/importer/importer.go\<close>: the command line of the
  import, with the package \<open>flag\<close> of Go, and how the command ends.
\<close>

section \<open>Integers of the command line\<close>

text \<open>
  \<open>strconv.ParseInt\<close> with base 0, which \<open>flag.Int\<close> calls: a prefix chooses the base, a leading zero alone means octal, and underscores
  may separate digits. \<open>None\<close> is a syntax or range error.
\<close>

definition digit_of :: "char \<Rightarrow> nat option" where
  "digit_of c =
     (let l = to_lower_char c; n = of_char l :: nat in
      if is_digit c then Some (digit_val c) else if 97 \<le> n \<and> n \<le> 122 then Some (n - 87) else None)"

fun digits_base :: "nat \<Rightarrow> nat \<Rightarrow> string \<Rightarrow> nat option" where
  "digits_base b acc [] = Some acc"
| "digits_base b acc (c # cs) =
     (if c = CHR ''_'' then digits_base b acc cs
      else case digit_of c of None \<Rightarrow> None | Some d \<Rightarrow> if d \<ge> b then None else digits_base b (acc * b + d) cs)"

definition base_prefix :: "string \<Rightarrow> nat \<times> string" where
  "base_prefix s =
     (case s of
        c # cs \<Rightarrow>
          if c \<noteq> CHR ''0'' then (10, s)
          else if length s \<ge> 3 \<and> to_lower_char (cs ! 0) = CHR ''b'' then (2, tl cs)
          else if length s \<ge> 3 \<and> to_lower_char (cs ! 0) = CHR ''o'' then (8, tl cs)
          else if length s \<ge> 3 \<and> to_lower_char (cs ! 0) = CHR ''x'' then (16, tl cs)
          else (8, cs)
      | [] \<Rightarrow> (10, s))"

text \<open>\<open>underscoreOK\<close> without the sign: the last character is \<open>0\<close> for a digit or the prefix, \<open>_\<close>, \<open>!\<close> for another one, and \<open>^\<close> at the start.\<close>

fun underscores :: "bool \<Rightarrow> char \<Rightarrow> string \<Rightarrow> bool" where
  "underscores hex i [] \<longleftrightarrow> i \<noteq> CHR ''_''"
| "underscores hex i (c # cs) \<longleftrightarrow>
     (if is_digit c \<or> hex \<and> to_lower_char c \<in> set ''abcdef'' then underscores hex (CHR ''0'') cs
      else if c = CHR ''_'' then i = CHR ''0'' \<and> underscores hex (CHR ''_'') cs
      else i \<noteq> CHR ''_'' \<and> underscores hex (CHR ''!'') cs)"

definition underscoreOK :: "string \<Rightarrow> bool" where
  "underscoreOK s =
     (if length s \<ge> 2 \<and> s ! 0 = CHR ''0'' \<and> to_lower_char (s ! 1) \<in> set ''box''
      then underscores (to_lower_char (s ! 1) = CHR ''x'') (CHR ''0'') (drop 2 s)
      else underscores False (CHR ''^'') s)"

definition ParseInt0 :: "string \<Rightarrow> int option" where
  "ParseInt0 s =
     (let neg = (s \<noteq> [] \<and> hd s = CHR ''-'');
          r = (if s \<noteq> [] \<and> (hd s = CHR ''-'' \<or> hd s = CHR ''+'') then tl s else s)
      in if r = [] then None
         else
           (let (base, ds) = base_prefix r in
            case digits_base base 0 ds of
              None \<Rightarrow> None
            | Some n \<Rightarrow>
                if CHR ''_'' \<in> set ds \<and> \<not> underscoreOK r then None
                else (let v = (if neg then - int n else int n) in if in_int64 v then Some v else None)))"

section \<open>Flags\<close>

record import_flags =
  fl_symbol :: string
  fl_intervals :: string
  fl_start_year :: int
  fl_start_month :: int
  fl_end_year :: int
  fl_end_month :: int
  fl_workers :: int

definition default_flags :: "gotime \<Rightarrow> import_flags" where
  "default_flags now = \<lparr>fl_symbol = '''', fl_intervals = ''1h,4h,1d'', fl_start_year = 2018, fl_start_month = 1,
     fl_end_year = t_Year now, fl_end_month = t_Month now, fl_workers = 5\<rparr>"

text \<open>The setter of a flag and its result; \<open>None\<close> on the outside is a name that is not defined, on the inside a value that is not accepted.\<close>

definition set_flag :: "string \<Rightarrow> (string \<Rightarrow> import_flags \<Rightarrow> import_flags option) option" where
  "set_flag name =
     (if name = ''symbol'' then Some (\<lambda>v f. Some (f\<lparr>fl_symbol := v\<rparr>))
      else if name = ''intervals'' then Some (\<lambda>v f. Some (f\<lparr>fl_intervals := v\<rparr>))
      else if name = ''start-year'' then Some (\<lambda>v f. map_option (\<lambda>n. f\<lparr>fl_start_year := n\<rparr>) (ParseInt0 v))
      else if name = ''start-month'' then Some (\<lambda>v f. map_option (\<lambda>n. f\<lparr>fl_start_month := n\<rparr>) (ParseInt0 v))
      else if name = ''end-year'' then Some (\<lambda>v f. map_option (\<lambda>n. f\<lparr>fl_end_year := n\<rparr>) (ParseInt0 v))
      else if name = ''end-month'' then Some (\<lambda>v f. map_option (\<lambda>n. f\<lparr>fl_end_month := n\<rparr>) (ParseInt0 v))
      else if name = ''workers'' then Some (\<lambda>v f. map_option (\<lambda>n. f\<lparr>fl_workers := n\<rparr>) (ParseInt0 v))
      else None)"

datatype flag_end = FlagHelp | FlagError

text \<open>The name and the value of \<open>-name=value\<close>, for a name that does not start with the sign.\<close>

definition name_value :: "string \<Rightarrow> string \<times> string option" where
  "name_value s =
     (let name = takeWhile (\<lambda>c. c \<noteq> CHR ''='') s; rest = dropWhile (\<lambda>c. c \<noteq> CHR ''='') s
      in (name, if rest = [] then None else Some (tl rest)))"

text \<open>\<open>flag.Parse\<close>: an argument that is no flag ends the flags, and so do two dashes. None of the flags is boolean.\<close>

fun parse_flags :: "string list \<Rightarrow> import_flags \<Rightarrow> flag_end + import_flags" where
  "parse_flags [] f = Inr f"
| "parse_flags (s # args) f =
     (if length s < 2 \<or> s ! 0 \<noteq> CHR ''-'' then Inr f
      else if s = ''--'' then Inr f
      else
        let word = (if s ! 1 = CHR ''-'' then drop 2 s else drop 1 s) in
        if word = [] \<or> hd word = CHR ''-'' \<or> hd word = CHR ''='' then Inl FlagError
        else
          case set_flag (fst (name_value word)) of
            None \<Rightarrow> Inl (if fst (name_value word) = ''help'' \<or> fst (name_value word) = ''h'' then FlagHelp else FlagError)
          | Some put \<Rightarrow>
              (case snd (name_value word) of
                 Some v \<Rightarrow> (case put v f of None \<Rightarrow> Inl FlagError | Some f \<Rightarrow> parse_flags args f)
               | None \<Rightarrow>
                   (case args of
                      [] \<Rightarrow> Inl FlagError
                    | v # args \<Rightarrow> (case put v f of None \<Rightarrow> Inl FlagError | Some f \<Rightarrow> parse_flags args f))))"

section \<open>The command\<close>

text \<open>The importer: the options of its connection and whether it is open.\<close>

record importer =
  im_Addr :: string
  im_Database :: string
  im_Username :: string
  im_Password :: string
  im_open :: bool

datatype importer_error = ConnectFailed | WorkDirFailed

definition importer_New :: "bool \<Rightarrow> bool \<Rightarrow> 'f config \<Rightarrow> importer_error + importer" where
  "importer_New opened made cfg =
     (let c = cf_ClickHouse cfg in
      if \<not> opened then Inl ConnectFailed
      else if \<not> made then Inl WorkDirFailed
      else Inr \<lparr>im_Addr = ch_Host c @ '':'' @ show_int (ch_Port c), im_Database = ch_Database c, im_Username = ch_Username c,
        im_Password = ch_Password c, im_open = True\<rparr>)"

definition importer_Close :: "importer \<Rightarrow> importer" where
  "importer_Close i = i\<lparr>im_open := False\<rparr>"

definition job_of :: "import_flags \<Rightarrow> import_job" where
  "job_of f = \<lparr>j_Symbol = fl_symbol f, j_Intervals = parseIntervals (fl_intervals f), j_StartYear = fl_start_year f, j_StartMonth = fl_start_month f,
     j_EndYear = fl_end_year f, j_EndMonth = fl_end_month f, j_Workers = fl_workers f\<rparr>"

text \<open>
  How the command ends: by the usage of its flags, by an error before the import or of the import, which all exit with the code
  1 but for the usage, or with a completed import. \<open>run\<close> is the import of the job, \<open>None\<close> when it does not return.
\<close>

datatype command_end = Usage int | NotCreated importer_error | ImportFailed int | ImportCompleted

definition import_main ::
  "(import_job \<Rightarrow> (int option \<times> 'x) option) \<Rightarrow> gotime \<Rightarrow> bool \<Rightarrow> bool \<Rightarrow> 'f config \<Rightarrow> string list \<Rightarrow> command_end option" where
  "import_main run now opened made cfg args =
     (case parse_flags args (default_flags now) of
        Inl FlagHelp \<Rightarrow> Some (Usage 0)
      | Inl FlagError \<Rightarrow> Some (Usage 2)
      | Inr f \<Rightarrow>
          if fl_symbol f = '''' then Some (Usage 1)
          else
            case importer_New opened made cfg of
              Inl err \<Rightarrow> Some (NotCreated err)
            | Inr imp \<Rightarrow>
                (case run (job_of f) of
                   None \<Rightarrow> None
                 | Some (Some n, _) \<Rightarrow> Some (ImportFailed n)
                 | Some (None, _) \<Rightarrow> Some ImportCompleted))"

section \<open>A job and its command line\<close>

lemma digit_of_digit: "is_digit c \<Longrightarrow> digit_of c = Some (digit_val c) \<and> digit_val c < 10 \<and> c \<noteq> CHR ''_''"
  by (auto simp: digit_of_def is_digit_def digit_val_def Let_def)

lemma digits_base_ten: "list_all is_digit ds \<Longrightarrow> digits_base 10 acc ds = Some (foldl (\<lambda>a c. 10 * a + digit_val c) acc ds)"
  by (induction ds arbitrary: acc) (auto simp: digit_of_digit algebra_simps dest: digit_of_digit)

lemma show_nat_head: "0 < n \<Longrightarrow> hd (show_nat n) \<noteq> CHR ''0''"
proof (induction n rule: show_nat.induct)
  case (1 n)
  have "digit_char n \<noteq> CHR ''0''" if "n < 10" "0 < n"
  proof
    assume "digit_char n = CHR ''0''"
    then have "digit_val (digit_char n) = 0" by (simp add: digit_val_def)
    then show False using that by simp
  qed
  then show ?case using 1 by (cases "n < 10") (simp_all add: show_nat.simps [of n] hd_append)
qed

text \<open>What a program prints is what the flag gets; a zero in front changes the base.\<close>

lemma digits_show_nat: "(case base_prefix (show_nat n) of (b, ds) \<Rightarrow> digits_base b 0 ds = Some n \<and> CHR ''_'' \<notin> set ds)"
proof (cases "n = 0")
  case True
  moreover have "show_nat 0 = ''0''" by code_simp
  ultimately have "show_nat n = ''0''" by simp
  then show ?thesis using True by (simp add: base_prefix_def)
next
  case False
  obtain c cs where s: "show_nat n = c # cs" by (cases "show_nat n") auto
  have ds: "list_all is_digit (show_nat n)" using show_nat_digits by (simp add: all_digits_def)
  have "c \<noteq> CHR ''0''" using show_nat_head [of n] False s by simp
  then have "base_prefix (show_nat n) = (10, show_nat n)" by (simp add: base_prefix_def s)
  moreover have "digits_base 10 0 (show_nat n) = Some n"
    using digits_base_ten [OF ds, of 0] read_nat_show_nat [of n] by (simp add: read_nat_def)
  moreover have "CHR ''_'' \<notin> set (show_nat n)" using ds digit_of_digit by (auto simp: list_all_iff)
  ultimately show ?thesis by simp
qed

lemma show_nat_sign: "hd (show_nat n) \<noteq> CHR ''-'' \<and> hd (show_nat n) \<noteq> CHR ''+''"
proof -
  have "is_digit (hd (show_nat n))" using show_nat_digits [of n] by (cases "show_nat n") (simp_all add: all_digits_def)
  then show ?thesis by (auto simp: is_digit_def)
qed

lemma ParseInt0_show_int: "in_int64 n \<Longrightarrow> ParseInt0 (show_int n) = Some n"
  using digits_show_nat [of "nat \<bar>n\<bar>"] show_nat_sign [of "nat n"]
  by (cases "n < 0") (auto simp: ParseInt0_def show_int_def Let_def abs_if)

lemma leading_zero: "ParseInt0 ''08'' = None" "ParseInt0 ''010'' = Some 8"
  by (simp_all add: ParseInt0_def base_prefix_def digit_of_def is_digit_def digit_val_def to_lower_char_def in_int64_def Let_def)

text \<open>The command line of a job.\<close>

definition job_args :: "import_job \<Rightarrow> string list" where
  "job_args j = [''-symbol'', j_Symbol j, ''-intervals'', join '','' (j_Intervals j), ''-start-year='' @ show_int (j_StartYear j),
     ''-start-month='' @ show_int (j_StartMonth j), ''-end-year='' @ show_int (j_EndYear j), ''-end-month='' @ show_int (j_EndMonth j),
     ''-workers'', show_int (j_Workers j)]"

definition job_ints :: "import_job \<Rightarrow> int list" where
  "job_ints j = [j_StartYear j, j_StartMonth j, j_EndYear j, j_EndMonth j, j_Workers j]"

lemma parse_job_args:
  assumes "list_all in_int64 (job_ints j)"
  shows "parse_flags (job_args j) f = Inr \<lparr>fl_symbol = j_Symbol j, fl_intervals = join '','' (j_Intervals j), fl_start_year = j_StartYear j,
    fl_start_month = j_StartMonth j, fl_end_year = j_EndYear j, fl_end_month = j_EndMonth j, fl_workers = j_Workers j\<rparr>"
  using assms by (simp add: job_args_def job_ints_def name_value_def set_flag_def ParseInt0_show_int)

text \<open>
  The command does the job it is given. For every job with a symbol, intervals without blanks and commas, months that are
  a range, and with the importer created: the command line of the job makes exactly this job, and the
  command ends as the import does: it is completed unless some month failed, whatever order the workers finish in.
\<close>

lemma command_does_job:
  assumes "list_all in_int64 (job_ints j)" "j_Symbol j \<noteq> ''''" "j_Intervals j \<noteq> []" "j_Intervals j \<noteq> [''all'']"
    and "\<forall>i\<in>set (j_Intervals j). CHR '','' \<notin> set i \<and> (\<forall>c\<in>set i. \<not> is_space c)"
    and "job_ok j fuel" "0 < j_Workers j" "\<And>ts. mset (order ts) = mset ts"
  shows "let run = processMonth D http unzip batch clock;
      fails = number (\<lambda>t. failed (fst (run t))) (job_tasks j (j_Intervals j)) in
    import_main (Import fuel order run) now True True cfg (job_args j) = Some (if fails = 0 then ImportCompleted else ImportFailed fails)"
proof -
  let ?run = "processMonth D http unzip batch clock"
  let ?s0 = "\<lparr>sum_total = 0, sum_success = 0, sum_fail = 0, sum_skipped = 0\<rparr>"
  have "parseIntervals (join '','' (j_Intervals j)) = j_Intervals j" using assms(3-5) by (intro parseIntervals_list) auto
  then have job: "job_of \<lparr>fl_symbol = j_Symbol j, fl_intervals = join '','' (j_Intervals j), fl_start_year = j_StartYear j,
      fl_start_month = j_StartMonth j, fl_end_year = j_EndYear j, fl_end_month = j_EndMonth j, fl_workers = j_Workers j\<rparr> = j"
    by (simp add: job_of_def)
  obtain s rows where l: "import_loop fuel order ?run j (j_Intervals j) ?s0 [] = Some (s, rows)"
    and f: "sum_fail s = number (\<lambda>t. failed (fst (?run t))) (job_tasks j (j_Intervals j))"
    using import_loop_counts [OF assms(6,8,7), of ?run "j_Intervals j" ?s0 "[]"] by auto
  have "0 \<le> sum_fail s" unfolding f by (simp add: number_def)
  then show ?thesis
    using assms(2) by (auto simp: Let_def import_main_def parse_job_args [OF assms(1)] job importer_New_def Import_def l f [symmetric])
qed

text \<open>Without a symbol, or with a month written with a zero in front, the command does not get to the import.\<close>

lemma command_needs_symbol: "import_main run now opened made cfg [] = Some (Usage 1)"
  by (simp add: import_main_def default_flags_def)

lemma command_month_octal:
  "import_main run now opened made cfg [''-symbol=BTCUSDT'', ''-start-month=08''] = Some (Usage 2)"
  by (simp add: import_main_def name_value_def set_flag_def leading_zero)

end
