(* ===== verification/Spec2Isabelle.thy ===== *)
theory Spec2Isabelle
  imports Interval_History Pipeline Http_Server Grpc_Service Metrics Import_Command
begin

text \<open>
  A verification development of \<open>nyyu-market\<close>, a market data service in Go. It keeps websocket connections
  to six exchanges, merges their one-minute candles, builds the candles of the longer intervals from
  them, writes both to ClickHouse, caches and publishes through Redis, and serves candles, prices and mark
  prices over gRPC, with an HTTP server for its own state.

  \<^bold>\<open>The parts and how they interact.\<close> A message of an exchange is decoded and handed to the real-time
  aggregator, which keeps one live candle per minute with the data of each exchange. From it go the price of the symbol, the
  published candle, the minute's candle for the interval aggregator and, when a minute is closed, a candle in
  the queue of the batch workers. The interval aggregator accumulates minutes into fourteen longer intervals and queues a completed
  candle for its own batch writer. The exchange aggregator counts who needs which stream; the gRPC
  handlers, through the candle service, and the symbol manager are its clients. The candle service answers from the
  aggregator's memory, from the Redis cache or from the repository, and computes the day's statistics with the
  streaming price calculator. The mark price service reads the aggregated price. The importer writes historical
  candles to the same table. \<open>main\<close> reads the configuration, connects the parts, starts them and stops them.

  \<^bold>\<open>Theories\<close>, with the files under \<open>src/internal\<close> they model.

  \<^item> \<open>Prelude\<close>, \<open>Decimal\<close>, \<open>GoTime\<close>: what the program uses of Go and of one package. Strings, number syntax, maps as association lists
    in an arbitrary order, batches, panics as values; the decimal numbers of \<open>shopspring/decimal\<close> as a record of
    operations with the locale \<open>decimal_api\<close> of their documented laws, interpreted on a concrete type; instants
    as nanoseconds with an offset and the calendar. \<open>Decimal_Text\<close>: that concrete type reads back the value it prints.
  \<^item> \<open>Models\<close>, \<open>Intervals\<close>: \<open>models/candle.go\<close>, \<open>models/price.go\<close> and the interval helpers. The open time of every interval of
    fixed length is the start of the bucket the instant lies in; what the month does differently; the duration
    tables agree.
  \<^item> \<open>Interfaces\<close>: the Go interfaces between the components as locales. \<open>proxy_interface\<close> is interpreted in \<open>Proxy\<close> and used
    by the connections, \<open>subscription_interface\<close> is interpreted in \<open>Exchange_Aggregator\<close> and used by the
    symbol manager and the gRPC handlers.
  \<^item> \<open>Interval_Aggregator\<close>, \<open>Interval_History\<close>: \<open>services/aggregator/interval_aggregator.go\<close>. An invariant of every reachable state, OHLCV aggregation
    whatever the order of the map, no lost update, exact closing of what expired, the panics, and the month on its
    31st day; the historical rebuild as a partition and its equivalence with the live aggregation, and the batch
    writer that conserves candles.
  \<^item> \<open>Publisher\<close>, \<open>Realtime_Aggregator\<close>: \<open>pubsub/publisher.go\<close> and \<open>realtime_candle_aggregator.go\<close>. Goroutines are pending tasks that run in any order. The
    merged candle, the averaged price in every reachable state, last write wins, late updates.
  \<^item> \<open>Rate_Limiter\<close>: \<open>rate_limiter.go\<close>. Bounds of the backoff and its recovery; the batcher loses no request.
  \<^item> \<open>Exchange_Handlers\<close>: \<open>exchange_handlers.go\<close>, \<open>exchange_helpers.go\<close>. Tables of interval names and symbols, subscription messages, and
    the candles decoded from messages; round trips and the one kind of message that is dropped.
  \<^item> \<open>Exchange_Aggregator\<close>, \<open>Exchange_Connections\<close>: \<open>exchange_aggregator.go\<close>. The two reference count maps, 32-bit counters, refine
    a multiset of subscriptions; choice of a proxy, outcome of a connection attempt, circuit breaker on 64-bit
    words, the connection manager as a step function, the batch workers, the monitors and the shutdown.
    \<open>Merge_Equivalence\<close>: the merge of the pending candles agrees with the merge of the live candle.
  \<^item> \<open>Proxy\<close>: \<open>proxy/proxy_service.go\<close>. The list handed to a client is usable in every reachable state; a file of
    addresses is read back.
  \<^item> \<open>Price_Calculator\<close>: \<open>services/candle/streaming_price_calculator.go\<close>. The ring of 1440 minutes with its incremental sums
    refines the window of the last day; what a cold start reports.
  \<^item> \<open>Repository\<close>: \<open>repository/candle_repository.go\<close>. Queries as records, the laws of a table as the locale \<open>clickhouse_api\<close>, interpreted on
    lists; its extension \<open>clickhouse_summary\<close> for the statistics. The latest matching candles in order; insert and lookup.
  \<^item> \<open>Candle_Service\<close>: \<open>services/candle/candle_service.go\<close> with \<open>cache/\<close>. Redis as a record of commands with the locale \<open>redis_api\<close>, interpreted
    on maps with expiry. What the cache answers and what a write invalidates.
  \<^item> \<open>Symbols\<close>: \<open>services/symbols\<close>. Together with the aggregator: every managed symbol is held exactly once.
  \<^item> \<open>Mark_Price\<close>: \<open>services/markprice/markprice_service.go\<close>. The published mark price in every reachable state and the next
    funding time.
  \<^item> \<open>Importer\<close>, \<open>Import_Command\<close>: \<open>importer/importer.go\<close> and \<open>cmd/importer/main.go\<close>. Termination of the loop over the months, round trip
    of an archive record, what an import reports; the command line, and that the command does the job it is given.
  \<^item> \<open>Grpc_Handlers\<close>, \<open>Grpc_Service\<close>: \<open>grpc/\<close>. Handlers of candles, prices and mark prices; over any interleaving of requests, which
    subscriptions the aggregator holds; the life of the server, its interceptors, health and statistics, and the
    stream of mark prices, which delivers what was published for its symbols.
  \<^item> \<open>Config\<close>: \<open>config/config.go\<close>, with the parsers of Go it calls. Every environment gives a well-typed configuration, and
    the symbol settings survive being written back, durations in Go's notation included.
  \<^item> \<open>Server\<close>, \<open>Process\<close>: \<open>cmd/server/main.go\<close>. \<open>boot\<close> is the start, with the settings that crash it and the state it leaves; \<open>sys_step\<close> is
    the running process, all components together: messages, goroutines, batch workers, the symbol refresh, the proxy updates and the requests of
    clients; \<open>shutdown\<close> is the stop. A minute an exchange reports reaches every interval; which goroutines can
    panic; what a stop writes and loses.
  \<^item> \<open>Pipeline\<close>: the data from one end to the other. A closed minute is merged, queued, written and read back from the table; a client's
    mark price is the average of what the exchanges reported.
  \<^item> \<open>Http_Server\<close>: \<open>startHTTPServer\<close> of \<open>main.go\<close>. The routes and handlers on the state of the process, and what requests can change.
  \<^item> \<open>Metrics\<close>: \<open>metrics/metrics.go\<close>. The descriptions can be registered, no recording panics, the hit ratio and the rates are exact.

  \<^bold>\<open>Conventions.\<close> A struct is a record, state is passed explicitly, an error is a value of an option or sum type, and a panic is
  the left side of \<open>outcome\<close>. The clock, the answers of the network and of the database, and the choices of the scheduler are
  arguments. A mutex-protected method is one step; where goroutines or several clients interleave, an inductive
  step relation has one rule per method and the properties hold of every reachable state. The order in which Go
  ranges over a map is the order of an association list about which nothing is assumed. Logging
  is left out, and metrics are a state of their own that no component reads. A loop over a ticker is a fold over its
  events, and a ticker whose period is not positive panics.

  \<^bold>\<open>Bounds and fuel.\<close> Integers are mathematical unless their width matters: reference counts are 32-bit words, the product of the circuit
  breaker and the period of the mark price are 64-bit words, and a trade count in a message is a 32-bit word. The
  properties that count subscriptions assume fewer of them than 2 to the 31st. Only the loop of the importer over the months has
  fuel, since it may not end: a number of turns greater than the distance of the months suffices, and for a range that never ends
  no number up to 2 to the 62nd does. Every other function is total.

  \<^bold>\<open>Not modelled.\<close> Libraries and services: websockets, \<open>net/http\<close> and the transport of gRPC, Redis and ClickHouse, the Prometheus client,
  \<open>golang.org/x/time/rate\<close>, whose verdict is an argument, and the parser of floating point numbers. JSON text beyond the decoding of the
  Binance message and the values of the HTTP replies. The generated \<open>proto/marketpb\<close>, whose messages are records with the
  fields the handlers set, and the static files of the dashboard. Of modelled files: constructors that only store
  their arguments, the progress bar of the importer, and the timeout around a stop that
  hangs.
\<close>

end
